(* ===== verification/Prelude.thy ===== *)
theory Prelude
  imports Main "HOL-Library.AList" "HOL-Library.Char_ord" "HOL-Library.List_Lexorder"
    "HOL-Library.Product_Lexorder" "HOL-Library.Multiset" "HOL-Library.Sublist"
begin

section \<open>Prelude: Go values as HOL values\<close>

text \<open>
  What every component shares.

  \<^item> Go errors. A Go \<open>error\<close> return is an \<open>error option\<close> (\<open>None\<close> is \<open>nil\<close>), a pair
    of a value and an error is \<open>error + 'a\<close>. An error is a sentinel of the repository together
    with the text the code wraps around it; \<open>errors_is\<close> is \<open>errors.Is\<close> on these chains.
  \<^item> Go maps with string keys. A map is an association list with distinct keys, so that ranging
    over it is the traversal of the list; a theorem that quantifies over the list covers every
    iteration order the Go runtime may choose.
  \<^item> \<open>sort.Slice\<close> with a less function, \<open>strconv.Itoa\<close>, and list facts.

  Go strings are byte strings, so they are HOL \<open>string\<close>s, and Go's string comparison is the
  lexicographic order of \<open>HOL-Library.List_Lexorder\<close> over bytes.
\<close>

named_theorems go_defs \<open>definitions of thin operations the proofs unfold together\<close>
named_theorems map_simps \<open>what a lookup sees after an update\<close>

subsection \<open>Errors\<close>

datatype sentinel =
    ErrNotFound | ErrConflict | ErrUnauthorized | ErrForbidden | ErrInvalid | ErrQuotaExceeded
  | ErrSchemaNotFound | ErrTenantMismatch | ErrOccurredAtOutOfRange | ErrEnvelopeTooLarge
  | ErrSnapshotConflict | ErrOperationDeadline | ErrLedgerRecordConflict | ErrTenantCommitPending
  | ErrMissingSecret | ErrDefaultSecret | ErrSharedSecret | ErrWeakSecret
  | ErrArchiveKeyTooLong | ErrObjectConflict | ContextCanceled | ContextDeadlineExceeded
  | ErrExportLeaseLost | ErrExportPlanInvalid | ErrOther

datatype error = Err (err_kind: sentinel) (err_text: string)

fun errors_is :: "error \<Rightarrow> sentinel \<Rightarrow> bool" where
  "errors_is (Err k m) s =
     (k = s
      \<or> (s = ErrInvalid \<and> (k = ErrOccurredAtOutOfRange \<or> k = ErrEnvelopeTooLarge))
      \<or> (s = ContextDeadlineExceeded \<and> k = ErrOperationDeadline))"

type_synonym 'a result = "error + 'a"

definition rbind :: "'a result \<Rightarrow> ('a \<Rightarrow> 'b result) \<Rightarrow> 'b result" where
  "rbind r f = (case r of Inl e \<Rightarrow> Inl e | Inr x \<Rightarrow> f x)"

definition guardE :: "error option \<Rightarrow> 'a result \<Rightarrow> 'a result" where
  "guardE c r = (case c of Some e \<Rightarrow> Inl e | None \<Rightarrow> r)"

text \<open>The first error of a sequence of checks: \<open>if err := f(); err != nil { return err }\<close>.\<close>

fun firstErr :: "error option list \<Rightarrow> error option" where
  "firstErr [] = None"
| "firstErr (Some e # cs) = Some e"
| "firstErr (None # cs) = firstErr cs"

lemma rbind_simps [simp]:
  "rbind (Inl e) f = Inl e"
  "rbind (Inr x) f = f x"
  by (simp_all add: rbind_def)

lemma rbind_eq_Inr: "rbind r f = Inr y \<longleftrightarrow> (\<exists>x. r = Inr x \<and> f x = Inr y)"
  by (auto simp: rbind_def split: sum.splits)

lemma guardE_simps [simp]:
  "guardE None r = r"
  "guardE (Some e) r = Inl e"
  by (simp_all add: guardE_def)

lemma guardE_eq_Inr: "guardE c r = Inr y \<longleftrightarrow> c = None \<and> r = Inr y"
  by (cases c) auto

lemma firstErr_None_iff: "firstErr cs = None \<longleftrightarrow> (\<forall>c \<in> set cs. c = None)"
  by (induction cs rule: firstErr.induct) auto

lemma firstErr_append: "firstErr (xs @ ys) = (case firstErr xs of None \<Rightarrow> firstErr ys | Some e \<Rightarrow> Some e)"
  by (induction xs rule: firstErr.induct) auto

lemma firstErr_Cons: "firstErr (c # cs) = (case c of None \<Rightarrow> firstErr cs | Some e \<Rightarrow> Some e)"
  by (cases c) auto

lemma firstErr_Some_mem: "firstErr cs = Some e \<Longrightarrow> Some e \<in> set cs"
  by (induction cs rule: firstErr.induct) auto

subsection \<open>Maps with string keys\<close>

type_synonym 'v gomap = "(string \<times> 'v) list"

definition mget :: "'v gomap \<Rightarrow> string \<Rightarrow> 'v option" where
  "mget m k = map_of m k"

definition mput :: "'v gomap \<Rightarrow> string \<Rightarrow> 'v \<Rightarrow> 'v gomap" where
  "mput m k v = AList.update k v m"

definition mdel :: "'v gomap \<Rightarrow> string \<Rightarrow> 'v gomap" where
  "mdel m k = AList.delete k m"

definition mkeys :: "'v gomap \<Rightarrow> string list" where
  "mkeys m = map fst m"

definition mvals :: "'v gomap \<Rightarrow> 'v list" where
  "mvals m = map snd m"

definition wf_map :: "'v gomap \<Rightarrow> bool" where
  "wf_map m \<longleftrightarrow> distinct (map fst m)"

text \<open>Indexing a Go map gives the zero value of the element type for an absent key.\<close>

definition mget_or :: "'v \<Rightarrow> 'v gomap \<Rightarrow> string \<Rightarrow> 'v" where
  "mget_or z m k = (case mget m k of None \<Rightarrow> z | Some v \<Rightarrow> v)"

lemma mget_Nil [simp, map_simps]: "mget [] k = None"
  by (simp add: mget_def)

lemma mget_mput [map_simps]: "mget (mput m k v) k' = (if k' = k then Some v else mget m k')"
  by (simp add: mget_def mput_def update_conv')

lemma mget_mdel [map_simps]: "mget (mdel m k) k' = (if k' = k then None else mget m k')"
  by (simp add: mget_def mdel_def delete_conv')

lemma wf_map_Nil [simp]: "wf_map []"
  by (simp add: wf_map_def)

lemma wf_map_mput [intro]: "wf_map m \<Longrightarrow> wf_map (mput m k v)"
  by (simp add: wf_map_def mput_def distinct_update)

lemma wf_map_mdel [intro]: "wf_map m \<Longrightarrow> wf_map (mdel m k)"
  by (simp add: wf_map_def mdel_def distinct_delete)

lemma mget_in: "mget m k = Some v \<Longrightarrow> (k, v) \<in> set m"
  by (simp add: mget_def map_of_SomeD)

lemma mget_iff: "wf_map m \<Longrightarrow> mget m k = Some v \<longleftrightarrow> (k, v) \<in> set m"
  by (simp add: mget_def wf_map_def)

lemma mget_mkeys: "mget m k = None \<longleftrightarrow> k \<notin> set (mkeys m)"
  by (simp add: mget_def mkeys_def map_of_eq_None_iff)

lemma mvals_iff: "wf_map m \<Longrightarrow> v \<in> set (mvals m) \<longleftrightarrow> (\<exists>k. mget m k = Some v)"
  by (force simp: mvals_def mget_iff)

lemma set_mput: "wf_map m \<Longrightarrow> set (mput m k v) = insert (k, v) {p \<in> set m. fst p \<noteq> k}"
proof -
  assume wf: "wf_map m"
  have "(k', w) \<in> set (mput m k v) \<longleftrightarrow> (k', w) \<in> insert (k, v) {p \<in> set m. fst p \<noteq> k}" for k' w
    using mget_iff [OF wf_map_mput [OF wf], of k v k' w] mget_iff [OF wf, of k' w]
    by (cases "k' = k") (auto simp: mget_mput)
  then show ?thesis by auto
qed

text \<open>
  The interface the clients use: what a lookup returns after a store or a removal, and that the
  representation invariant is kept. The clients' facts are proved once, from the laws.
\<close>

locale go_map =
  fixes empty :: "'m"
    and get :: "'m \<Rightarrow> string \<Rightarrow> 'v option"
    and put :: "'m \<Rightarrow> string \<Rightarrow> 'v \<Rightarrow> 'm"
    and del :: "'m \<Rightarrow> string \<Rightarrow> 'm"
    and wf :: "'m \<Rightarrow> bool"
  assumes get_empty: "get empty k = None"
    and get_put: "wf m \<Longrightarrow> get (put m k v) k' = (if k' = k then Some v else get m k')"
    and get_del: "wf m \<Longrightarrow> get (del m k) k' = (if k' = k then None else get m k')"
    and wf_empty: "wf empty"
    and wf_put: "wf m \<Longrightarrow> wf (put m k v)"
    and wf_del: "wf m \<Longrightarrow> wf (del m k)"
begin

lemma put_same_absorbs: "wf m \<Longrightarrow> get (put (put m k v) k w) = get (put m k w)"
  by (rule ext) (simp add: get_put wf_put)

lemma put_other_commutes:
  "wf m \<Longrightarrow> k \<noteq> k' \<Longrightarrow> get (put (put m k v) k' w) = get (put (put m k' w) k v)"
  by (rule ext) (simp add: get_put wf_put)

lemma del_put_restores: "wf m \<Longrightarrow> get m k = None \<Longrightarrow> get (del (put m k v) k) = get m"
  by (rule ext) (simp add: get_put get_del wf_put)

lemma put_keeps_other: "wf m \<Longrightarrow> k' \<noteq> k \<Longrightarrow> get (put m k v) k' = get m k'"
  by (simp add: get_put)

lemma fold_put_get:
  "wf m \<Longrightarrow> k \<notin> set (map fst kvs) \<Longrightarrow> get (fold (\<lambda>(k, v) m. put m k v) kvs m) k = get m k"
  by (induction kvs arbitrary: m) (auto simp: get_put wf_put)

end

interpretation gm: go_map "[]" mget mput mdel wf_map
  by unfold_locales (auto simp: mget_mput mget_mdel)

subsection \<open>Sorting with a less function\<close>

text \<open>
  \<open>sort.Slice\<close> orders a slice by a less function. The model inserts each element before the first
  element it precedes; where the less function is a strict total order on the elements (as the
  callers arrange by their tie breaks) the result is the only sorted arrangement.
\<close>

fun insert_less :: "('a \<Rightarrow> 'a \<Rightarrow> bool) \<Rightarrow> 'a \<Rightarrow> 'a list \<Rightarrow> 'a list" where
  "insert_less lt x [] = [x]"
| "insert_less lt x (y # ys) = (if lt y x then y # insert_less lt x ys else x # y # ys)"

fun sort_slice :: "('a \<Rightarrow> 'a \<Rightarrow> bool) \<Rightarrow> 'a list \<Rightarrow> 'a list" where
  "sort_slice lt [] = []"
| "sort_slice lt (x # xs) = insert_less lt x (sort_slice lt xs)"

definition strict_order :: "('a \<Rightarrow> 'a \<Rightarrow> bool) \<Rightarrow> bool" where
  "strict_order lt \<longleftrightarrow> (\<forall>x. \<not> lt x x) \<and> (\<forall>x y z. lt x y \<longrightarrow> lt y z \<longrightarrow> lt x z)
     \<and> (\<forall>x y z. \<not> lt x y \<longrightarrow> \<not> lt y z \<longrightarrow> \<not> lt x z)"

lemma mset_insert_less [simp]: "mset (insert_less lt x ys) = add_mset x (mset ys)"
  by (induction ys) auto

lemma mset_sort_slice [simp]: "mset (sort_slice lt xs) = mset xs"
  by (induction xs) auto

lemma set_sort_slice [simp]: "set (sort_slice lt xs) = set xs"
  by (metis mset_sort_slice set_mset_mset)

lemma length_sort_slice [simp]: "length (sort_slice lt xs) = length xs"
  by (metis mset_sort_slice size_mset)

lemma distinct_sort_slice [simp]: "distinct (sort_slice lt xs) = distinct xs"
  by (metis mset_sort_slice mset_eq_imp_distinct_iff)

lemma set_insert_less [simp]: "set (insert_less lt x ys) = insert x (set ys)"
  by (metis mset_insert_less set_mset_add_mset_insert set_mset_mset)

lemma sorted_insert_less:
  assumes so: "strict_order lt" and srt: "sorted_wrt (\<lambda>a b. \<not> lt b a) ys"
  shows "sorted_wrt (\<lambda>a b. \<not> lt b a) (insert_less lt x ys)"
  using srt
proof (induction ys)
  case Nil
  then show ?case by simp
next
  case (Cons y ys)
  show ?case
  proof (cases "lt y x")
    case True
    then have "\<not> lt x y" using so unfolding strict_order_def by blast
    with Cons True show ?thesis by auto
  next
    case False
    have "\<not> lt z x" if "z \<in> set ys" for z
    proof -
      have "\<not> lt z y" using that Cons.prems by simp
      then show ?thesis using False so unfolding strict_order_def by blast
    qed
    with Cons.prems False show ?thesis by auto
  qed
qed

lemma sorted_sort_slice: "strict_order lt \<Longrightarrow> sorted_wrt (\<lambda>a b. \<not> lt b a) (sort_slice lt xs)"
  by (induction xs) (auto intro: sorted_insert_less)

lemma insert_less_sorted_id:
  "strict_order lt \<Longrightarrow> sorted_wrt (\<lambda>a b. \<not> lt b a) (x # ys) \<Longrightarrow> insert_less lt x ys = x # ys"
  by (cases ys) auto

lemma sort_slice_sorted_id:
  "strict_order lt \<Longrightarrow> sorted_wrt (\<lambda>a b. \<not> lt b a) xs \<Longrightarrow> sort_slice lt xs = xs"
proof (induction xs)
  case (Cons x xs)
  then have "sort_slice lt xs = xs" by simp
  with Cons.prems show ?case by (simp add: insert_less_sorted_id)
qed simp

lemma sort_slice_idem: "strict_order lt \<Longrightarrow> sort_slice lt (sort_slice lt xs) = sort_slice lt xs"
  by (simp add: sort_slice_sorted_id sorted_sort_slice)

text \<open>A less function that compares keys of a linear order is such an order.\<close>

lemma strict_order_key: "strict_order (\<lambda>a b. (f a :: 'k :: linorder) < f b)"
  unfolding strict_order_def by (meson less_irrefl less_trans not_less order_trans)

lemma filter_key_inj:
  assumes "inj_on f (set xs)" and "k \<in> set xs" and "set ys \<subseteq> set xs"
  shows "filter (\<lambda>x. f k = f x) ys = replicate (count (mset ys) k) k"
  using assms(3)
proof (induction ys)
  case (Cons y ys)
  have "f k = f y \<longleftrightarrow> k = y" using Cons.prems assms(1,2) by (auto dest: inj_onD)
  with Cons show ?case by auto
qed simp

lemma sort_slice_key_perm:
  assumes "mset ys = mset xs" and inj: "inj_on f (set xs)"
  shows "sort_slice (\<lambda>a b. (f a :: 'k :: linorder) < f b) ys = sort_key f xs"
proof (rule properties_for_sort_key [symmetric])
  let ?zs = "sort_slice (\<lambda>a b. f a < f b) ys"
  have sets: "set ?zs = set xs" using mset_eq_setD [OF assms(1)] by simp
  show "mset ?zs = mset xs" using assms(1) by simp
  have "sorted_wrt (\<lambda>a b. \<not> f b < f a) ?zs"
    by (rule sorted_sort_slice) (rule strict_order_key)
  then show "sorted (map f ?zs)"
    by (simp add: sorted_map not_less)
  fix k assume "k \<in> set ?zs"
  then have k: "k \<in> set xs" using sets by simp
  show "filter (\<lambda>x. f k = f x) ?zs = filter (\<lambda>x. f k = f x) xs"
    using filter_key_inj [OF inj k, of ?zs] filter_key_inj [OF inj k, of xs] sets assms(1) by simp
qed

text \<open>Two orders of the same elements sort to the same slice: map iteration order is forgotten.\<close>

lemma sort_slice_perm:
  assumes "mset ys = mset xs" and "inj_on f (set xs)"
  shows "sort_slice (\<lambda>a b. (f a :: 'k :: linorder) < f b) ys = sort_slice (\<lambda>a b. f a < f b) xs"
  using sort_slice_key_perm [OF assms] sort_slice_key_perm [OF refl assms(2)] by simp

subsection \<open>Decimal text of integers (strconv.Itoa, strconv.FormatInt)\<close>

definition digit_char :: "nat \<Rightarrow> char" where
  "digit_char d = char_of (48 + d)"

definition is_digit :: "char \<Rightarrow> bool" where
  "is_digit c \<longleftrightarrow> 48 \<le> (of_char c :: nat) \<and> (of_char c :: nat) \<le> 57"

definition digit_val :: "char \<Rightarrow> nat" where
  "digit_val c = of_char c - 48"

fun natDec :: "nat \<Rightarrow> string" where
  "natDec n = (if n < 10 then [digit_char n] else natDec (n div 10) @ [digit_char (n mod 10)])"

declare natDec.simps [simp del]

definition decVal :: "string \<Rightarrow> nat" where
  "decVal s = foldl (\<lambda>a c. 10 * a + digit_val c) 0 s"

definition itoa :: "int \<Rightarrow> string" where
  "itoa i = (if i < 0 then CHR ''-'' # natDec (nat (- i)) else natDec (nat i))"

lemma digit_char_props [simp]:
  "d < 10 \<Longrightarrow> is_digit (digit_char d)"
  "d < 10 \<Longrightarrow> digit_val (digit_char d) = d"
  by (simp_all add: digit_char_def is_digit_def digit_val_def)

lemma digit_char_numerals:
  "digit_char 0 = CHR ''0''" "digit_char (Suc 0) = CHR ''1''" "digit_char 2 = CHR ''2''" "digit_char 3 = CHR ''3''"
  "digit_char 4 = CHR ''4''" "digit_char 5 = CHR ''5''" "digit_char 6 = CHR ''6''" "digit_char 7 = CHR ''7''"
  "digit_char 8 = CHR ''8''" "digit_char 9 = CHR ''9''"
  by code_simp+

lemma decVal_snoc [simp]: "decVal (s @ [c]) = 10 * decVal s + digit_val c"
  by (simp add: decVal_def)

lemma decVal_Nil [simp]: "decVal [] = 0"
  by (simp add: decVal_def)

lemma decVal_append: "decVal (s @ t) = decVal s * 10 ^ length t + decVal t"
proof (induction t rule: rev_induct)
  case (snoc c t)
  then show ?case by (simp add: append_assoc [symmetric] algebra_simps del: append_assoc)
qed simp

lemma natDec_digits: "\<forall>c \<in> set (natDec n). is_digit c"
proof (induction n rule: natDec.induct)
  case (1 n)
  then show ?case by (cases "n < 10") (auto simp: natDec.simps [of n])
qed

lemma natDec_nonempty [simp]: "natDec n \<noteq> []"
  by (subst natDec.simps) simp

lemma decVal_natDec [simp]: "decVal (natDec n) = n"
proof (induction n rule: natDec.induct)
  case (1 n)
  then show ?case
    by (cases "n < 10") (auto simp: natDec.simps [of n], simp add: decVal_def)
qed

lemma natDec_inj: "natDec m = natDec n \<Longrightarrow> m = n"
  by (metis decVal_natDec)

lemma minus_not_digit: "\<not> is_digit (CHR ''-'')"
  by (simp add: is_digit_def)

lemma natDec_hd: "natDec n = c # cs \<Longrightarrow> c \<noteq> CHR ''-''"
  using natDec_digits [of n] minus_not_digit by auto

lemma itoa_inj: "itoa i = itoa j \<Longrightarrow> i = j"
  by (cases "i < 0"; cases "j < 0")
    (auto simp: itoa_def dest: natDec_inj natDec_hd natDec_hd [OF sym])

subsection \<open>64-bit integers\<close>

text \<open>Go's \<open>int\<close> and \<open>int64\<close> wrap around; \<open>wrap64\<close> is what a sum or product is stored as.\<close>

definition wrap64 :: "int \<Rightarrow> int" where
  "wrap64 i = (i + 2 ^ 63) mod 2 ^ 64 - 2 ^ 63"

lemma wrap64_id: "- (2 ^ 63) \<le> i \<Longrightarrow> i < 2 ^ 63 \<Longrightarrow> wrap64 i = i"
  by (simp add: wrap64_def)

lemma wrap64_range: "- (2 ^ 63) \<le> wrap64 i \<and> wrap64 i < 2 ^ 63"
  by (simp add: wrap64_def)

subsection \<open>List facts\<close>

lemma append_sep_inj:
  "x \<notin> set as \<Longrightarrow> x \<notin> set cs \<Longrightarrow> as @ x # bs = cs @ x # ds \<longleftrightarrow> as = cs \<and> bs = ds"
proof (induction as arbitrary: cs)
  case Nil
  then show ?case by (cases cs) auto
next
  case (Cons a as)
  then show ?case by (cases cs) auto
qed

end
