(* ===== verification/Go_Strings.thy ===== *)
theory Go_Strings
  imports Prelude
begin

section \<open>The parts of Go's string library the program uses\<close>

text \<open>
  Bytes, UTF-8 runes as \<open>for range\<close> over a string yields them (an invalid byte is U+FFFD of
  width one), \<open>unicode.IsControl\<close> and \<open>unicode.IsSpace\<close>, \<open>strings.TrimSpace\<close>,
  \<open>strings.Cut\<close>, \<open>strings.Contains\<close>, \<open>strings.HasPrefix\<close>, \<open>strings.HasSuffix\<close> and
  \<open>hex.EncodeToString\<close>. These are definitions of the standard library, so none of them maps to
  a file of the repository.
\<close>

abbreviation byte_of :: "char \<Rightarrow> nat" where
  "byte_of c \<equiv> of_char c"

lemma byte_lt_256 [simp]: "byte_of c < 256"
  by (metis nat_of_char_less_256)

subsection \<open>UTF-8\<close>

definition rune_error :: nat where
  "rune_error = 65533"

definition in_range :: "nat \<Rightarrow> nat \<Rightarrow> nat \<Rightarrow> bool" where
  "in_range lo hi b \<longleftrightarrow> lo \<le> b \<and> b \<le> hi"

definition is_cont :: "nat \<Rightarrow> bool" where
  "is_cont b \<longleftrightarrow> in_range 128 191 b"

text \<open>The range of the second byte that a lead byte accepts, and the width it announces.\<close>

definition lead_info :: "nat \<Rightarrow> (nat \<times> nat \<times> nat) option" where
  "lead_info b =
     (if in_range 194 223 b then Some (2, 128, 191)
      else if b = 224 then Some (3, 160, 191)
      else if b = 237 then Some (3, 128, 159)
      else if in_range 225 239 b then Some (3, 128, 191)
      else if b = 240 then Some (4, 144, 191)
      else if in_range 241 243 b then Some (4, 128, 191)
      else if b = 244 then Some (4, 128, 143)
      else None)"

fun decodeRune :: "nat list \<Rightarrow> nat \<times> nat" where
  "decodeRune [] = (rune_error, 0)"
| "decodeRune (b0 # bs) =
     (if b0 < 128 then (b0, 1)
      else (case lead_info b0 of
          None \<Rightarrow> (rune_error, 1)
        | Some (w, lo, hi) \<Rightarrow>
            (case bs of
               b1 # bs1 \<Rightarrow>
                 (if \<not> in_range lo hi b1 then (rune_error, 1)
                  else if w = 2 then (b0 mod 32 * 64 + b1 mod 64, 2)
                  else (case bs1 of
                     b2 # bs2 \<Rightarrow>
                       (if \<not> is_cont b2 then (rune_error, 1)
                        else if w = 3 then (b0 mod 16 * 4096 + b1 mod 64 * 64 + b2 mod 64, 3)
                        else (case bs2 of
                           b3 # _ \<Rightarrow>
                             (if \<not> is_cont b3 then (rune_error, 1)
                              else (b0 mod 8 * 262144 + b1 mod 64 * 4096 + b2 mod 64 * 64 + b3 mod 64, 4))
                         | [] \<Rightarrow> (rune_error, 1)))
                   | [] \<Rightarrow> (rune_error, 1)))
             | [] \<Rightarrow> (rune_error, 1))))"

lemma decodeRune_width: "bs \<noteq> [] \<Longrightarrow> 1 \<le> snd (decodeRune bs) \<and> snd (decodeRune bs) \<le> length bs"
  by (cases bs) (auto split: option.splits list.splits)

function runesB :: "nat list \<Rightarrow> nat list" where
  "runesB bs = (if bs = [] then [] else
     (case decodeRune bs of (r, w) \<Rightarrow> r # runesB (drop w bs)))"
  by pat_completeness auto
termination
proof (relation "measure length", goal_cases)
  case 1
  show ?case by simp
next
  case (2 bs r w)
  then have "1 \<le> w \<and> w \<le> length bs" using decodeRune_width [of bs] by (metis snd_conv)
  then show ?case by simp linarith
qed

declare runesB.simps [simp del]

definition runes :: "string \<Rightarrow> nat list" where
  "runes s = runesB (map of_char s)"

lemma runes_Nil [simp]: "runes [] = []"
  by (simp add: runes_def runesB.simps)

lemma runesB_ascii_Cons: "b < 128 \<Longrightarrow> runesB (b # bs) = b # runesB bs"
  by (subst runesB.simps) simp

text \<open>An ASCII byte of a string is one of its runes, wherever it stands.\<close>

lemma decodeRune_skips_ascii:
  assumes "a < 128" and "a \<in> set (take (snd (decodeRune bs)) bs)"
  shows "fst (decodeRune bs) = a"
  using assms
  by (cases bs) (auto simp: lead_info_def in_range_def is_cont_def
      split: if_splits option.splits list.splits)

lemma ascii_in_runesB: "a < 128 \<Longrightarrow> a \<in> set bs \<Longrightarrow> a \<in> set (runesB bs)"
proof (induction bs rule: runesB.induct)
  case (1 bs)
  obtain r w where rw: "decodeRune bs = (r, w)" by fastforce
  have ne: "bs \<noteq> []" using "1.prems" by auto
  have unfold: "runesB bs = r # runesB (drop w bs)"
    using ne rw by (subst runesB.simps) simp
  have "a \<in> set (take w bs) \<union> set (drop w bs)"
    using "1.prems" by (metis append_take_drop_id set_append)
  then show ?case
  proof
    assume "a \<in> set (take w bs)"
    then have "r = a" using decodeRune_skips_ascii [of a bs] "1.prems" rw by simp
    then show ?thesis by (simp add: unfold)
  next
    assume "a \<in> set (drop w bs)"
    then show ?thesis using "1.IH" [OF ne rw [symmetric]] "1.prems" by (auto simp: unfold)
  qed
qed

lemma ascii_in_runes: "byte_of c < 128 \<Longrightarrow> c \<in> set s \<Longrightarrow> byte_of c \<in> set (runes s)"
  unfolding runes_def by (rule ascii_in_runesB) auto

lemma runesB_ascii: "\<forall>b \<in> set bs. b < 128 \<Longrightarrow> runesB bs = bs"
  by (induction bs) (auto simp: runesB_ascii_Cons runesB.simps [of "[]"])

subsection \<open>Character classes\<close>

definition unicode_IsControl :: "nat \<Rightarrow> bool" where
  "unicode_IsControl r \<longleftrightarrow> r \<le> 31 \<or> in_range 127 159 r"

definition unicode_IsSpace :: "nat \<Rightarrow> bool" where
  "unicode_IsSpace r \<longleftrightarrow>
     r \<in> {9, 10, 11, 12, 13, 32, 133, 160, 5760, 8232, 8233, 8239, 8287, 12288} \<or> in_range 8192 8202 r"

subsection \<open>Trimming\<close>

text \<open>\<open>utf8.DecodeLastRuneInString\<close>: the nearest rune start among the last four bytes.\<close>

definition decodeLastRune :: "nat list \<Rightarrow> nat \<times> nat" where
  "decodeLastRune bs =
     (if bs = [] then (rune_error, 0)
      else if last bs < 128 then (last bs, 1)
      else (case filter (\<lambda>k. k \<le> length bs \<and> \<not> is_cont (bs ! (length bs - k))) [2, 3, 4] of
          [] \<Rightarrow> (rune_error, 1)
        | k # _ \<Rightarrow> (case decodeRune (drop (length bs - k) bs) of
             (r, w) \<Rightarrow> if w = k then (r, k) else (rune_error, 1))))"

lemma decodeLastRune_pos: "bs \<noteq> [] \<Longrightarrow> 0 < snd (decodeLastRune bs)"
  by (auto simp: decodeLastRune_def filter_eq_Cons_iff split: list.splits prod.splits if_splits)

function trimLeftB :: "nat list \<Rightarrow> nat list" where
  "trimLeftB bs = (if bs = [] then [] else
     (case decodeRune bs of (r, w) \<Rightarrow> if unicode_IsSpace r then trimLeftB (drop w bs) else bs))"
  by pat_completeness auto
termination
proof (relation "measure length", goal_cases)
  case 1
  show ?case by simp
next
  case (2 bs r w)
  then have "1 \<le> w \<and> w \<le> length bs" using decodeRune_width [of bs] by (metis snd_conv)
  then show ?case by simp linarith
qed

function trimRightB :: "nat list \<Rightarrow> nat list" where
  "trimRightB bs = (if bs = [] then [] else
     (case decodeLastRune bs of (r, w) \<Rightarrow>
        if unicode_IsSpace r then trimRightB (take (length bs - w) bs) else bs))"
  by pat_completeness auto
termination
proof (relation "measure length", goal_cases)
  case 1
  show ?case by simp
next
  case (2 bs r w)
  then have "0 < w" using decodeLastRune_pos [of bs] by (metis snd_conv)
  with 2 show ?case by simp
qed

declare trimLeftB.simps [simp del] trimRightB.simps [simp del]

definition TrimSpace :: "string \<Rightarrow> string" where
  "TrimSpace s = map char_of (trimRightB (trimLeftB (map of_char s)))"

lemma TrimSpace_Nil [simp]: "TrimSpace [] = []"
  by (simp add: TrimSpace_def trimLeftB.simps trimRightB.simps)

subsection \<open>Searching\<close>

definition HasPrefix :: "string \<Rightarrow> string \<Rightarrow> bool" where
  "HasPrefix s p \<longleftrightarrow> take (length p) s = p"

definition HasSuffix :: "string \<Rightarrow> string \<Rightarrow> bool" where
  "HasSuffix s p \<longleftrightarrow> length p \<le> length s \<and> drop (length s - length p) s = p"

fun Contains :: "string \<Rightarrow> string \<Rightarrow> bool" where
  "Contains [] p = (p = [])"
| "Contains (c # cs) p = (HasPrefix (c # cs) p \<or> Contains cs p)"

text \<open>\<open>strings.Cut\<close> with a one-byte separator.\<close>

fun CutByte :: "char \<Rightarrow> string \<Rightarrow> string \<times> string \<times> bool" where
  "CutByte sep [] = ([], [], False)"
| "CutByte sep (c # cs) =
     (if c = sep then ([], cs, True)
      else (case CutByte sep cs of (a, b, found) \<Rightarrow> if found then (c # a, b, True) else (c # cs, [], False)))"

lemma CutByte_found: "sep \<notin> set a \<Longrightarrow> CutByte sep (a @ sep # b) = (a, b, True)"
  by (induction a) auto

lemma CutByte_absent: "sep \<notin> set s \<Longrightarrow> CutByte sep s = (s, [], False)"
  by (induction s) auto

lemma CutByte_split: "CutByte sep s = (a, b, True) \<Longrightarrow> s = a @ sep # b \<and> sep \<notin> set a"
  by (induction s arbitrary: a) (auto split: if_splits prod.splits)

lemma CutByte_not_found: "CutByte sep s = (a, b, False) \<Longrightarrow> sep \<notin> set s"
  by (induction s arbitrary: a b) (auto split: if_splits prod.splits)

subsection \<open>Hexadecimal\<close>

definition hexLower :: "nat \<Rightarrow> char" where
  "hexLower d = (if d < 10 then char_of (48 + d) else char_of (87 + d))"

definition hexEncode :: "nat list \<Rightarrow> string" where
  "hexEncode bs = concat (map (\<lambda>b. [hexLower (b div 16), hexLower (b mod 16)]) bs)"

lemma length_hexEncode [simp]: "length (hexEncode bs) = 2 * length bs"
  by (induction bs) (auto simp: hexEncode_def)

lemma hexLower_inj: "a < 16 \<Longrightarrow> b < 16 \<Longrightarrow> hexLower a = hexLower b \<Longrightarrow> a = b"
  by (auto simp: hexLower_def split: if_splits dest!: arg_cong [of _ _ byte_of])

lemma hexEncode_inj:
  "\<forall>b \<in> set xs. b < 256 \<Longrightarrow> \<forall>b \<in> set ys. b < 256 \<Longrightarrow> hexEncode xs = hexEncode ys \<Longrightarrow> xs = ys"
proof (induction xs arbitrary: ys)
  case Nil
  then show ?case by (cases ys) (auto simp: hexEncode_def)
next
  case (Cons x xs)
  from Cons.prems(3) obtain y zs where ys: "ys = y # zs"
    by (cases ys) (auto simp: hexEncode_def)
  have "x div 16 = y div 16" "x mod 16 = y mod 16"
    using Cons.prems ys by (auto simp: hexEncode_def intro!: hexLower_inj)
  then have "x = y" by (metis div_mult_mod_eq)
  moreover have "xs = zs"
    using Cons.IH [of zs] Cons.prems ys by (auto simp: hexEncode_def)
  ultimately show ?case using ys by simp
qed

end
