(* ===== verification/Keys.thy ===== *)
theory Keys
  imports Go_Strings "HOL-Library.Code_Target_Nat"
begin

section \<open>Identifiers, composite keys and archive key framing\<close>

text \<open>
  \<open>internal/domain/identifiers.go\<close> (which identifiers the API boundary admits),
  the composite keys of \<open>internal/store/store.go\<close>, the percent-encoding of
  \<open>internal/fsutil/fsutil.go\<close>, \<open>eventArchiveKey\<close> and the segment and dead-letter keys of
  \<open>internal/service\<close>, and the length check of \<open>internal/archive/archive_secure_common.go\<close>.
  An error keeps its sentinel and the fixed wording of its message; interpolated values are left out.

  The lemmas show that the framings are injective: the encoding round-trips, a composite key
  determines its components, and an archive key determines the event it stores.
\<close>

subsection \<open>Admitted identifiers (identifiers.go)\<close>

definition MaxArchiveComponentBytes :: nat where
  "MaxArchiveComponentBytes = 85"

fun checkKeyRunes :: "nat list \<Rightarrow> error option" where
  "checkKeyRunes [] = None"
| "checkKeyRunes (r # rs) =
     (if unicode_IsControl r then Some (Err ErrInvalid ''must not contain control characters'')
      else if unicode_IsSpace r then Some (Err ErrInvalid ''must not contain whitespace'')
      else if r = 47 \<or> r = 92 then Some (Err ErrInvalid ''must not contain path separators'')
      else checkKeyRunes rs)"

definition ValidKeyComponent :: "string \<Rightarrow> error option" where
  "ValidKeyComponent value = checkKeyRunes (runes value)"

definition ValidArchiveComponentLength :: "string \<Rightarrow> error option" where
  "ValidArchiveComponentLength value =
     (if length value > MaxArchiveComponentBytes then Some (Err ErrInvalid ''archive component limit'') else None)"

definition ValidStreamComponent :: "string \<Rightarrow> error option" where
  "ValidStreamComponent value =
     (case ValidKeyComponent value of
        Some e \<Rightarrow> Some e
      | None \<Rightarrow> (if CHR '':'' \<in> set value then Some (Err ErrInvalid ''must not contain colon'')
                else ValidArchiveComponentLength value))"

definition ValidTenantIDComponent :: "string \<Rightarrow> error option" where
  "ValidTenantIDComponent value =
     (case ValidKeyComponent value of
        Some e \<Rightarrow> Some e
      | None \<Rightarrow> (if CHR '':'' \<in> set value then Some (Err ErrInvalid ''must not contain colon'')
                else ValidArchiveComponentLength value))"

definition ValidTenantID :: "string \<Rightarrow> error option" where
  "ValidTenantID i = ValidTenantIDComponent i"

definition requireTenantScope :: "string \<Rightarrow> error option" where
  "requireTenantScope tenantID =
     (if tenantID = [] then Some (Err ErrInvalid ''tenant_id is required'') else ValidTenantID tenantID)"

definition requireOptionalTenantScope :: "string \<Rightarrow> error option" where
  "requireOptionalTenantScope tenantID = (if tenantID = [] then None else ValidTenantID tenantID)"

lemma checkKeyRunes_None_iff:
  "checkKeyRunes rs = None \<longleftrightarrow>
     (\<forall>r \<in> set rs. \<not> unicode_IsControl r \<and> \<not> unicode_IsSpace r \<and> r \<noteq> 47 \<and> r \<noteq> 92)"
  by (induction rs) auto

lemma ValidKeyComponent_no_ascii:
  assumes "ValidKeyComponent v = None" and "byte_of c < 128"
    and "unicode_IsControl (byte_of c) \<or> unicode_IsSpace (byte_of c) \<or> byte_of c = 47 \<or> byte_of c = 92"
  shows "c \<notin> set v"
  using assms ascii_in_runes [of c v] by (auto simp: ValidKeyComponent_def checkKeyRunes_None_iff)

subsection \<open>Composite keys (store.go)\<close>

definition KeySeparator :: char where
  "KeySeparator = char_of (31 :: nat)"

definition TenantKey :: "string \<Rightarrow> string" where
  "TenantKey tenantID = tenantID"

definition SourceKey :: "string \<Rightarrow> string \<Rightarrow> string" where
  "SourceKey tenantID sourceID = tenantID @ [KeySeparator] @ sourceID"

definition SchemaKey :: "string \<Rightarrow> string \<Rightarrow> int \<Rightarrow> string" where
  "SchemaKey tenantID schemaID version = tenantID @ [KeySeparator] @ schemaID @ [KeySeparator] @ itoa version"

definition EventKey :: "string \<Rightarrow> string \<Rightarrow> string" where
  "EventKey tenantID eventID = tenantID @ [KeySeparator] @ eventID"

definition StreamKey :: "string \<Rightarrow> string \<Rightarrow> string" where
  "StreamKey tenantID streamID = tenantID @ [KeySeparator] @ streamID"

definition SplitTenantKey :: "string \<Rightarrow> string \<times> string \<times> bool" where
  "SplitTenantKey key =
     (case CutByte KeySeparator key of (tenantID, rest, found) \<Rightarrow>
        if \<not> found \<or> KeySeparator \<in> set rest then ([], [], False) else (tenantID, rest, True))"

lemma ValidKeyComponent_no_separator: "ValidKeyComponent v = None \<Longrightarrow> KeySeparator \<notin> set v"
  by (rule ValidKeyComponent_no_ascii) (simp_all add: KeySeparator_def unicode_IsControl_def)

lemma ValidTenantIDComponent_None_iff:
  "ValidTenantIDComponent v = None \<longleftrightarrow>
     ValidKeyComponent v = None \<and> CHR '':'' \<notin> set v \<and> length v \<le> 85"
  by (auto simp: ValidTenantIDComponent_def ValidArchiveComponentLength_def MaxArchiveComponentBytes_def
      split: option.splits)

lemma ValidStreamComponent_None_iff:
  "ValidStreamComponent v = None \<longleftrightarrow>
     ValidKeyComponent v = None \<and> CHR '':'' \<notin> set v \<and> length v \<le> 85"
  by (auto simp: ValidStreamComponent_def ValidArchiveComponentLength_def MaxArchiveComponentBytes_def
      split: option.splits)

lemma ValidArchiveComponentLength_None_iff: "ValidArchiveComponentLength v = None \<longleftrightarrow> length v \<le> 85"
  by (auto simp: ValidArchiveComponentLength_def MaxArchiveComponentBytes_def)

lemma requireTenantScope_None_iff:
  "requireTenantScope t = None \<longleftrightarrow>
     t \<noteq> [] \<and> ValidKeyComponent t = None \<and> CHR '':'' \<notin> set t \<and> length t \<le> 85"
  by (auto simp: requireTenantScope_def ValidTenantID_def ValidTenantIDComponent_None_iff)

text \<open>A framing with a separator that its first component never holds.\<close>

locale sep_framing =
  fixes sep :: char
    and frame :: "string \<Rightarrow> string \<Rightarrow> string"
  assumes frame_eq: "frame a b = a @ sep # b"
begin

lemma frame_inj:
  "sep \<notin> set a \<Longrightarrow> sep \<notin> set c \<Longrightarrow> frame a b = frame c d \<longleftrightarrow> a = c \<and> b = d"
  by (simp add: frame_eq append_sep_inj)

lemma cut_frame: "sep \<notin> set a \<Longrightarrow> CutByte sep (frame a b) = (a, b, True)"
  by (simp add: frame_eq CutByte_found)

lemma frame_nonempty: "frame a b \<noteq> []"
  by (simp add: frame_eq)

end

interpretation event_key: sep_framing KeySeparator EventKey
  by unfold_locales (simp add: EventKey_def)

interpretation stream_key: sep_framing KeySeparator StreamKey
  by unfold_locales (simp add: StreamKey_def)

interpretation source_key: sep_framing KeySeparator SourceKey
  by unfold_locales (simp add: SourceKey_def)

interpretation schema_key: sep_framing KeySeparator "\<lambda>a b. a @ [KeySeparator] @ b"
  by unfold_locales simp

lemma SchemaKey_frames: "SchemaKey t s v = t @ [KeySeparator] @ (s @ [KeySeparator] @ itoa v)"
  by (simp add: SchemaKey_def)

lemma SchemaKey_inj:
  assumes "KeySeparator \<notin> set t" "KeySeparator \<notin> set t'" "KeySeparator \<notin> set s" "KeySeparator \<notin> set s'"
  shows "SchemaKey t s v = SchemaKey t' s' v' \<longleftrightarrow> t = t' \<and> s = s' \<and> v = v'"
  unfolding SchemaKey_frames using assms
  by (metis itoa_inj schema_key.frame_inj)

lemma SplitTenantKey_ok_iff:
  "SplitTenantKey key = (t, r, True) \<longleftrightarrow>
     key = t @ KeySeparator # r \<and> KeySeparator \<notin> set t \<and> KeySeparator \<notin> set r"
proof
  assume "SplitTenantKey key = (t, r, True)"
  then show "key = t @ KeySeparator # r \<and> KeySeparator \<notin> set t \<and> KeySeparator \<notin> set r"
    by (auto simp: SplitTenantKey_def split: prod.splits if_splits dest: CutByte_split)
next
  assume "key = t @ KeySeparator # r \<and> KeySeparator \<notin> set t \<and> KeySeparator \<notin> set r"
  then show "SplitTenantKey key = (t, r, True)"
    by (simp add: SplitTenantKey_def CutByte_found)
qed

lemma SplitTenantKey_StreamKey:
  "KeySeparator \<notin> set t \<Longrightarrow> KeySeparator \<notin> set s \<Longrightarrow> SplitTenantKey (StreamKey t s) = (t, s, True)"
  by (simp add: SplitTenantKey_ok_iff StreamKey_def)

subsection \<open>Percent-encoded key components (fsutil.go)\<close>

definition KeyComponentEmptyMarker :: string where
  "KeyComponentEmptyMarker = ''%''"

definition MaxFileStoreComponentBytes :: nat where
  "MaxFileStoreComponentBytes = 255"

definition MaxS3KeyBytes :: nat where
  "MaxS3KeyBytes = 1024"

definition hexUpperDigits :: string where
  "hexUpperDigits = ''0123456789ABCDEF''"

definition isSafeComponentByte :: "char \<Rightarrow> bool" where
  "isSafeComponentByte c \<longleftrightarrow>
     c \<le> CHR ''z'' \<and> CHR ''a'' \<le> c \<or> c \<le> CHR ''Z'' \<and> CHR ''A'' \<le> c
     \<or> c \<le> CHR ''9'' \<and> CHR ''0'' \<le> c \<or> c = CHR ''-'' \<or> c = CHR ''_'' \<or> c = CHR ''.''"

definition encodeByte :: "char \<Rightarrow> string" where
  "encodeByte c =
     (if isSafeComponentByte c then [c]
      else [CHR ''%'', hexUpperDigits ! (byte_of c div 16), hexUpperDigits ! (byte_of c mod 16)])"

definition EncodeKeyComponent :: "string \<Rightarrow> string" where
  "EncodeKeyComponent value =
     (if value = [] then KeyComponentEmptyMarker
      else if value = ''.'' then ''%2E''
      else if value = ''..'' then ''%2E%2E''
      else concat (map encodeByte value))"

definition hexDigitValue :: "char \<Rightarrow> nat option" where
  "hexDigitValue c =
     (if c \<le> CHR ''9'' \<and> CHR ''0'' \<le> c then Some (byte_of c - 48)
      else if CHR ''a'' \<le> c \<and> c \<le> CHR ''f'' then Some (byte_of c - 97 + 10)
      else if CHR ''A'' \<le> c \<and> c \<le> CHR ''F'' then Some (byte_of c - 65 + 10)
      else None)"

fun decodeLoop :: "string \<Rightarrow> string result" where
  "decodeLoop [] = Inr []"
| "decodeLoop (c # cs) =
     (if isSafeComponentByte c then rbind (decodeLoop cs) (\<lambda>r. Inr (c # r))
      else if c = CHR ''%'' then
        (case cs of
           h # l # rest \<Rightarrow>
             (case (hexDigitValue h, hexDigitValue l) of
                (Some hi, Some lo) \<Rightarrow> rbind (decodeLoop rest) (\<lambda>r. Inr (char_of (hi * 16 + lo) # r))
              | _ \<Rightarrow> Inl (Err ErrOther ''non-hex escape''))
         | _ \<Rightarrow> Inl (Err ErrOther ''truncated escape''))
      else Inl (Err ErrOther ''unescaped byte''))"

definition DecodeKeyComponent :: "string \<Rightarrow> string result" where
  "DecodeKeyComponent value = (if value = KeyComponentEmptyMarker then Inr [] else decodeLoop value)"

definition safeName :: "string \<Rightarrow> string" where
  "safeName value = EncodeKeyComponent value"

lemma less_16_cases:
  "(d :: nat) < 16 \<Longrightarrow> d \<in> {0, 1, 2, 3, 4, 5, 6, 7, 8, 9, 10, 11, 12, 13, 14, 15}"
  by (simp, presburger)

lemma hexUpperDigits_value: "d < 16 \<Longrightarrow> hexDigitValue (hexUpperDigits ! d) = Some d"
  by (drule less_16_cases) (auto simp: hexUpperDigits_def hexDigitValue_def less_eq_char_def)

lemma hexUpperDigits_safe: "d < 16 \<Longrightarrow> isSafeComponentByte (hexUpperDigits ! d)"
  by (drule less_16_cases) (auto simp: hexUpperDigits_def isSafeComponentByte_def less_eq_char_def)

lemma percent_not_safe: "\<not> isSafeComponentByte (CHR ''%'')"
  by (simp add: isSafeComponentByte_def less_eq_char_def)

lemma slash_not_safe: "\<not> isSafeComponentByte (CHR ''/'')"
  by (simp add: isSafeComponentByte_def less_eq_char_def)

lemma decodeLoop_encodeByte: "decodeLoop (encodeByte c @ s) = rbind (decodeLoop s) (\<lambda>r. Inr (c # r))"
proof (cases "isSafeComponentByte c")
  case True
  then show ?thesis by (simp add: encodeByte_def)
next
  case False
  have "byte_of c div 16 < 16" "byte_of c mod 16 < 16"
    using byte_lt_256 [of c] by (simp_all add: less_mult_imp_div_less)
  moreover have "byte_of c div 16 * 16 + byte_of c mod 16 = byte_of c" by simp
  ultimately show ?thesis
    using False by (simp add: encodeByte_def percent_not_safe hexUpperDigits_value del: div_mult_mod_eq)
qed

lemma decodeLoop_concat: "decodeLoop (concat (map encodeByte v)) = Inr v"
  by (induction v) (simp_all add: decodeLoop_encodeByte)

lemma encodeByte_length: "length (encodeByte c) \<in> {1, 3}"
  by (simp add: encodeByte_def)

lemma concat_encodeByte_not_marker: "v \<noteq> [] \<Longrightarrow> concat (map encodeByte v) \<noteq> KeyComponentEmptyMarker"
  by (cases v) (auto simp: encodeByte_def KeyComponentEmptyMarker_def percent_not_safe)

lemma decode_encode_special:
  "DecodeKeyComponent (EncodeKeyComponent []) = Inr []"
  "DecodeKeyComponent (EncodeKeyComponent ''.'') = Inr ''.''"
  "DecodeKeyComponent (EncodeKeyComponent ''..'') = Inr ''..''"
  by code_simp+

lemma decode_encode: "DecodeKeyComponent (EncodeKeyComponent v) = Inr v"
proof (cases "v \<in> {[], ''.'', ''..''}")
  case True
  then show ?thesis using decode_encode_special by auto
next
  case False
  then show ?thesis
    by (simp add: EncodeKeyComponent_def DecodeKeyComponent_def decodeLoop_concat concat_encodeByte_not_marker)
qed

lemma EncodeKeyComponent_inj: "EncodeKeyComponent v = EncodeKeyComponent w \<Longrightarrow> v = w"
  by (metis decode_encode sum.inject(2))

lemma encodeByte_chars: "x \<in> set (encodeByte c) \<Longrightarrow> isSafeComponentByte x \<or> x = CHR ''%''"
  using byte_lt_256 [of c]
  by (auto simp: encodeByte_def less_mult_imp_div_less intro!: hexUpperDigits_safe split: if_splits)

lemma EncodeKeyComponent_special_chars:
  "\<forall>x \<in> set (EncodeKeyComponent []) \<union> set (EncodeKeyComponent ''.'') \<union> set (EncodeKeyComponent ''..'').
     isSafeComponentByte x \<or> x = CHR ''%''"
  by code_simp

lemma EncodeKeyComponent_chars:
  assumes "x \<in> set (EncodeKeyComponent v)"
  shows "isSafeComponentByte x \<or> x = CHR ''%''"
proof (cases "v \<in> {[], ''.'', ''..''}")
  case True
  then show ?thesis using assms EncodeKeyComponent_special_chars by blast
next
  case False
  then have "x \<in> set (concat (map encodeByte v))" using assms by (simp add: EncodeKeyComponent_def)
  then show ?thesis by (auto dest: encodeByte_chars)
qed

lemma EncodeKeyComponent_no_slash: "CHR ''/'' \<notin> set (EncodeKeyComponent v)"
  using EncodeKeyComponent_chars [of "CHR ''/''" v] slash_not_safe by auto

lemma length_concat_encodeByte: "length v \<le> length (concat (map encodeByte v)) \<and> length (concat (map encodeByte v)) \<le> 3 * length v"
  by (induction v) (auto simp: encodeByte_def)

lemma EncodeKeyComponent_length: "v \<noteq> [] \<Longrightarrow> length (EncodeKeyComponent v) \<le> 3 * length v"
  using length_concat_encodeByte [of v] by (auto simp: EncodeKeyComponent_def)

lemma EncodeKeyComponent_nonempty: "EncodeKeyComponent v \<noteq> []"
  by (cases v) (simp_all add: EncodeKeyComponent_def KeyComponentEmptyMarker_def encodeByte_def)

lemma EncodeKeyComponent_not_dots: "EncodeKeyComponent v \<noteq> ''.'' \<and> EncodeKeyComponent v \<noteq> ''..''"
proof -
  have "decodeLoop ''.'' = Inr ''.''" "decodeLoop ''..'' = Inr ''..''"
    by (simp_all add: isSafeComponentByte_def)
  then have d: "DecodeKeyComponent ''.'' = Inr ''.''" "DecodeKeyComponent ''..'' = Inr ''..''"
    by (simp_all add: DecodeKeyComponent_def KeyComponentEmptyMarker_def)
  have "EncodeKeyComponent ''.'' = ''%2E''" "EncodeKeyComponent ''..'' = ''%2E%2E''"
    by (simp_all add: EncodeKeyComponent_def)
  then show ?thesis using d decode_encode [of v] by auto
qed

subsection \<open>Archive object keys\<close>

definition pad20 :: "int \<Rightarrow> string" where
  \<comment> \<open>the verb \<open>%020d\<close>\<close>
  "pad20 i = (if i < 0 then CHR ''-'' # replicate (19 - length (natDec (nat (- i)))) (CHR ''0'') @ natDec (nat (- i))
              else replicate (20 - length (natDec (nat i))) (CHR ''0'') @ natDec (nat i))"

definition eventArchiveKey :: "string \<Rightarrow> string \<Rightarrow> int \<Rightarrow> string \<Rightarrow> string" where
  "eventArchiveKey tenantID streamID sequence eventID =
     ''events/'' @ safeName tenantID @ ''/'' @ safeName streamID @ ''/'' @ pad20 sequence @ ''-''
       @ safeName eventID @ ''.json''"

definition segmentArchiveKey :: "string \<Rightarrow> string \<Rightarrow> int \<Rightarrow> int \<Rightarrow> string" where
  "segmentArchiveKey tenantID streamID firstSequence lastSequence =
     ''segments/'' @ safeName tenantID @ ''/'' @ safeName streamID @ ''/'' @ pad20 firstSequence @ ''-''
       @ pad20 lastSequence @ ''.manifest.json''"

fun SplitByte :: "char \<Rightarrow> string \<Rightarrow> string list" where
  \<comment> \<open>\<open>strings.Split\<close> with a one-byte separator\<close>
  "SplitByte sep [] = [[]]"
| "SplitByte sep (c # cs) =
     (if c = sep then [] # SplitByte sep cs
      else (case SplitByte sep cs of p # ps \<Rightarrow> (c # p) # ps | [] \<Rightarrow> [[c]]))"

definition checkKeyLength :: "string \<Rightarrow> error option" where
  "checkKeyLength key =
     (if length key > MaxS3KeyBytes then Some (Err ErrArchiveKeyTooLong ''key'')
      else if \<exists>component \<in> set (SplitByte (CHR ''/'') key). length component > MaxFileStoreComponentBytes
        then Some (Err ErrArchiveKeyTooLong ''component'')
      else None)"

lemma SplitByte_nonempty [simp]: "SplitByte sep s \<noteq> []"
  by (induction s) (auto split: list.splits)

lemma SplitByte_no_sep: "sep \<notin> set s \<Longrightarrow> SplitByte sep s = [s]"
  by (induction s) auto

lemma SplitByte_append: "sep \<notin> set a \<Longrightarrow> SplitByte sep (a @ sep # b) = a # SplitByte sep b"
  by (induction a) auto

text \<open>A decimal of at most nineteen digits is printed in exactly twenty characters.\<close>

lemma decVal_zeros [simp]: "decVal (replicate n (CHR ''0'')) = 0"
  by (induction n) (simp_all add: decVal_def digit_val_def)

lemma length_natDec: "0 < k \<Longrightarrow> n < 10 ^ k \<Longrightarrow> length (natDec n) \<le> k"
proof (induction k arbitrary: n)
  case (Suc k)
  show ?case
  proof (cases "n < 10")
    case True
    then show ?thesis by (simp add: natDec.simps [of n])
  next
    case False
    then have "k \<noteq> 0" using Suc.prems by (cases k) auto
    moreover have "n div 10 < 10 ^ k" using Suc.prems(2) by auto
    ultimately have "length (natDec (n div 10)) \<le> k" using Suc.IH by simp
    with False show ?thesis by (simp add: natDec.simps [of n])
  qed
qed simp

definition int64_range :: "int \<Rightarrow> bool" where
  "int64_range i \<longleftrightarrow> - (2 ^ 63) \<le> i \<and> i < 2 ^ 63"

lemma natDec_int64: "n \<le> 2 ^ 63 \<Longrightarrow> length (natDec n) \<le> 19"
  by (rule length_natDec) auto

lemma length_pad20: "int64_range i \<Longrightarrow> length (pad20 i) = 20"
  using natDec_int64 [of "nat (- i)"] natDec_int64 [of "nat i"]
  by (auto simp: pad20_def int64_range_def nat_le_iff)

lemma decVal_pad: "decVal (replicate k (CHR ''0'') @ natDec n) = n"
  by (simp add: decVal_append)

lemma pad20_hd: "0 \<le> i \<Longrightarrow> hd (pad20 i) \<noteq> CHR ''-''"
  using natDec_hd [of "nat i"]
  by (cases "20 - length (natDec (nat i))"; cases "natDec (nat i)") (auto simp: pad20_def)

lemma pad20_sign: "hd (pad20 i) = CHR ''-'' \<longleftrightarrow> i < 0"
  using pad20_hd [of i] by (cases "i < 0") (simp_all add: pad20_def [of i])

lemma pad20_val: "decVal (if i < 0 then tl (pad20 i) else pad20 i) = nat \<bar>i\<bar>"
  using decVal_pad by (simp add: pad20_def)

lemma pad20_inj: "pad20 i = pad20 j \<Longrightarrow> i = j"
proof -
  assume eq: "pad20 i = pad20 j"
  then have "(i < 0) = (j < 0)" by (metis pad20_sign)
  moreover from this have "nat \<bar>i\<bar> = nat \<bar>j\<bar>" using eq pad20_val [of i] pad20_val [of j] by metis
  ultimately show ?thesis by linarith
qed

lemma slash_not_in_natDec: "CHR ''/'' \<notin> set (natDec n)"
proof
  assume "CHR ''/'' \<in> set (natDec n)"
  then have "is_digit (CHR ''/'')" using natDec_digits [of n] by blast
  then show False by (simp add: is_digit_def)
qed

lemma slash_not_in_pad20: "CHR ''/'' \<notin> set (pad20 i)"
  by (simp add: pad20_def slash_not_in_natDec)

lemma split_eventArchiveKey:
  "SplitByte (CHR ''/'') (eventArchiveKey t s n e) =
     [''events'', safeName t, safeName s, pad20 n @ ''-'' @ safeName e @ ''.json'']"
proof -
  have "CHR ''/'' \<notin> set (pad20 n @ ''-'' @ safeName e @ ''.json'')"
    by (simp add: safeName_def EncodeKeyComponent_no_slash slash_not_in_pad20)
  then show ?thesis
    using EncodeKeyComponent_no_slash [of t] EncodeKeyComponent_no_slash [of s]
      SplitByte_append [of "CHR ''/''" "''events''"]
    by (simp add: eventArchiveKey_def safeName_def SplitByte_append SplitByte_no_sep)
qed

lemma eventArchiveKey_inj:
  assumes "int64_range n" "int64_range n'"
    and eq: "eventArchiveKey t s n e = eventArchiveKey t' s' n' e'"
  shows "t = t' \<and> s = s' \<and> n = n' \<and> e = e'"
proof -
  from eq have parts: "safeName t = safeName t'" "safeName s = safeName s'"
    and last: "pad20 n @ ''-'' @ safeName e @ ''.json'' = pad20 n' @ ''-'' @ safeName e' @ ''.json''"
    using split_eventArchiveKey [of t s n e] split_eventArchiveKey [of t' s' n' e'] by simp_all
  from last have "pad20 n = pad20 n' \<and> safeName e = safeName e'"
    using length_pad20 [OF assms(1)] length_pad20 [OF assms(2)] by simp
  with parts show ?thesis
    by (auto simp: safeName_def dest: EncodeKeyComponent_inj pad20_inj)
qed

lemma eventArchiveKey_length:
  assumes "int64_range n"
  shows "length (eventArchiveKey t s n e) = 35 + length (safeName t) + length (safeName s) + length (safeName e)"
  using length_pad20 [OF assms] by (simp add: eventArchiveKey_def)

subsection \<open>Properties\<close>

text \<open>
  C33. Key components. Percent-encoding any string as a key component is undone by decoding it, and the
  component is never empty, never \<open>.\<close> or \<open>..\<close>, and has no path separator.
\<close>

theorem key_component_roundtrip:
  "DecodeKeyComponent (EncodeKeyComponent v) = Inr v
   \<and> EncodeKeyComponent v \<noteq> '''' \<and> EncodeKeyComponent v \<noteq> ''.'' \<and> EncodeKeyComponent v \<noteq> ''..''
   \<and> CHR ''/'' \<notin> set (EncodeKeyComponent v)"
  using decode_encode EncodeKeyComponent_nonempty EncodeKeyComponent_not_dots EncodeKeyComponent_no_slash by blast

text \<open>
  C26. Tenant isolation of store keys. A stream key splits back into its tenant and stream; two keys of
  tenants and identifiers that passed validation are equal only for equal tenants and identifiers.
\<close>

theorem store_keys_isolate_tenants:
  assumes "ValidKeyComponent t = None" and "ValidKeyComponent t' = None" and "ValidKeyComponent i = None"
  shows "SplitTenantKey (StreamKey t i) = (t, i, True)
    \<and> (EventKey t i = EventKey t' i' \<longleftrightarrow> t = t' \<and> i = i')
    \<and> (SourceKey t i = SourceKey t' i' \<longleftrightarrow> t = t' \<and> i = i')
    \<and> (StreamKey t i = StreamKey t' i' \<longleftrightarrow> t = t' \<and> i = i')"
proof -
  have n: "KeySeparator \<notin> set t" "KeySeparator \<notin> set t'" "KeySeparator \<notin> set i"
    using assms ValidKeyComponent_no_separator by blast+
  show ?thesis
    using SplitTenantKey_StreamKey [OF n(1,3)] event_key.frame_inj [OF n(1,2)] source_key.frame_inj [OF n(1,2)]
      stream_key.frame_inj [OF n(1,2)] by blast
qed

theorem store_keys_isolate_tenants_witness:
  "SplitTenantKey (StreamKey ''acme'' ''s'') = (''acme'', ''s'', True) \<and> EventKey ''acme'' ''s'' \<noteq> EventKey ''acm'' ''es''"
proof -
  have "ValidKeyComponent ''acme'' = None" "ValidKeyComponent ''acm'' = None" "ValidKeyComponent ''s'' = None"
    by code_simp+
  from store_keys_isolate_tenants [OF this, of "''es''"] show ?thesis by simp
qed

text \<open>
  C27. Archive keys of events. Two events of any tenants and streams are archived under one key only
  when tenant, stream, sequence and event identifier are all equal.
\<close>

theorem event_archive_keys_distinct:
  assumes "int64_range n" and "int64_range n'" and "eventArchiveKey t s n e = eventArchiveKey t' s' n' e'"
  shows "t = t' \<and> s = s' \<and> n = n' \<and> e = e'"
  by (rule eventArchiveKey_inj [OF assms])

theorem event_archive_keys_distinct_witness:
  "int64_range 1 \<and> eventArchiveKey ''t'' ''a/b'' 1 ''e'' \<noteq> eventArchiveKey ''t'' ''a'' 1 ''b/e''"
proof -
  have r: "int64_range 1" by (simp add: int64_range_def)
  show ?thesis using event_archive_keys_distinct [OF r r, of "''t''" "''a/b''" "''e''" "''t''" "''a''" "''b/e''"] r by auto
qed

end
