(* ===== verification/Sha256.thy ===== *)
theory Sha256
  imports Go_Strings "HOL-Library.Word"
begin

section \<open>SHA-256 (crypto/sha256), as domain.HashBytes uses it\<close>

text \<open>
  The hash of FIPS 180-4 over byte strings, on 32-bit words. The ledger's theorems never rely on
  its internals beyond the length of a digest: where tampering is excluded they exhibit the pair of
  distinct byte strings with one digest that the tampering would need.
\<close>

unbundle bit_operations_syntax

type_synonym u32 = "32 word"

definition rotr32 :: "nat \<Rightarrow> u32 \<Rightarrow> u32" where
  "rotr32 n x = drop_bit n x OR push_bit (32 - n) x"

definition sha_K :: "u32 list" where
  "sha_K =
    [1116352408, 1899447441, 3049323471, 3921009573, 961987163, 1508970993, 2453635748, 2870763221,
     3624381080, 310598401, 607225278, 1426881987, 1925078388, 2162078206, 2614888103, 3248222580,
     3835390401, 4022224774, 264347078, 604807628, 770255983, 1249150122, 1555081692, 1996064986,
     2554220882, 2821834349, 2952996808, 3210313671, 3336571891, 3584528711, 113926993, 338241895,
     666307205, 773529912, 1294757372, 1396182291, 1695183700, 1986661051, 2177026350, 2456956037,
     2730485921, 2820302411, 3259730800, 3345764771, 3516065817, 3600352804, 4094571909, 275423344,
     430227734, 506948616, 659060556, 883997877, 958139571, 1322822218, 1537002063, 1747873779,
     1955562222, 2024104815, 2227730452, 2361852424, 2428436474, 2756734187, 3204031479, 3329325298]"

type_synonym sha_state = "u32 \<times> u32 \<times> u32 \<times> u32 \<times> u32 \<times> u32 \<times> u32 \<times> u32"

definition sha_H0 :: sha_state where
  "sha_H0 = (1779033703, 3144134277, 1013904242, 2773480762, 1359893119, 2600822924, 528734635, 1541459225)"

definition be_bytes :: "nat \<Rightarrow> int \<Rightarrow> nat list" where
  \<comment> \<open>the \<open>k\<close> low-order bytes of a number, most significant first\<close>
  "be_bytes k n = map (\<lambda>i. nat (n div 256 ^ i mod 256)) (rev [0..<k])"

definition sha_pad :: "nat list \<Rightarrow> nat list" where
  "sha_pad bs = bs @ [128] @ replicate ((119 - length bs mod 64) mod 64) 0 @ be_bytes 8 (8 * int (length bs))"

primrec sha_blocks :: "nat \<Rightarrow> nat list \<Rightarrow> nat list list" where
  "sha_blocks 0 bs = []"
| "sha_blocks (Suc n) bs = take 64 bs # sha_blocks n (drop 64 bs)"

fun be_words :: "nat list \<Rightarrow> u32 list" where
  "be_words (a # b # c # d # bs) = (((of_nat a * 256 + of_nat b) * 256 + of_nat c) * 256 + of_nat d) # be_words bs"
| "be_words _ = []"

definition small_sigma0 :: "u32 \<Rightarrow> u32" where
  "small_sigma0 x = rotr32 7 x XOR rotr32 18 x XOR drop_bit 3 x"

definition small_sigma1 :: "u32 \<Rightarrow> u32" where
  "small_sigma1 x = rotr32 17 x XOR rotr32 19 x XOR drop_bit 10 x"

definition big_sigma0 :: "u32 \<Rightarrow> u32" where
  "big_sigma0 x = rotr32 2 x XOR rotr32 13 x XOR rotr32 22 x"

definition big_sigma1 :: "u32 \<Rightarrow> u32" where
  "big_sigma1 x = rotr32 6 x XOR rotr32 11 x XOR rotr32 25 x"

text \<open>The message schedule, kept newest word first.\<close>

primrec sha_extend :: "nat \<Rightarrow> u32 list \<Rightarrow> u32 list" where
  "sha_extend 0 ws = ws"
| "sha_extend (Suc n) ws =
     sha_extend n ((small_sigma1 (ws ! 1) + ws ! 6 + small_sigma0 (ws ! 14) + ws ! 15) # ws)"

definition sha_schedule :: "nat list \<Rightarrow> u32 list" where
  "sha_schedule block = rev (sha_extend 48 (rev (be_words block)))"

fun sha_round :: "u32 \<times> u32 \<Rightarrow> sha_state \<Rightarrow> sha_state" where
  "sha_round (k, w) (a, b, c, d, e, f, g, h) =
     (let t1 = h + big_sigma1 e + ((e AND f) XOR (NOT e AND g)) + k + w;
          t2 = big_sigma0 a + ((a AND b) XOR (a AND c) XOR (b AND c))
      in (t1 + t2, a, b, c, d + t1, e, f, g))"

fun sha_add :: "sha_state \<Rightarrow> sha_state \<Rightarrow> sha_state" where
  "sha_add (a, b, c, d, e, f, g, h) (a', b', c', d', e', f', g', h') =
     (a + a', b + b', c + c', d + d', e + e', f + f', g + g', h + h')"

definition sha_compress :: "nat list \<Rightarrow> sha_state \<Rightarrow> sha_state" where
  "sha_compress block s = sha_add s (fold sha_round (zip sha_K (sha_schedule block)) s)"

fun sha_out :: "sha_state \<Rightarrow> nat list" where
  "sha_out (a, b, c, d, e, f, g, h) = concat (map (\<lambda>w. be_bytes 4 (uint w)) [a, b, c, d, e, f, g, h])"

definition sha256 :: "nat list \<Rightarrow> nat list" where
  "sha256 bs = (let p = sha_pad bs in sha_out (fold sha_compress (sha_blocks (length p div 64) p) sha_H0))"

lemma length_be_bytes [simp]: "length (be_bytes k n) = k"
  by (simp add: be_bytes_def)

lemma be_bytes_less: "b \<in> set (be_bytes k n) \<Longrightarrow> b < 256"
  by (auto simp: be_bytes_def nat_less_iff)

lemma length_sha_out [simp]: "length (sha_out s) = 32"
  by (cases s rule: sha_out.cases) simp

lemma sha_out_less: "b \<in> set (sha_out s) \<Longrightarrow> b < 256"
  by (cases s rule: sha_out.cases) (auto dest: be_bytes_less)

lemma length_sha256 [simp]: "length (sha256 bs) = 32"
  by (simp add: sha256_def Let_def)

lemma sha256_less: "b \<in> set (sha256 bs) \<Longrightarrow> b < 256"
  by (auto simp: sha256_def Let_def dest: sha_out_less)

text \<open>The FIPS 180-4 test vector for \<open>abc\<close>, evaluated in the kernel.\<close>

lemma sha256_abc:
  "hexEncode (sha256 [97, 98, 99]) = ''ba7816bf8f01cfea414140de5dae2223b00361a396177a9cb410ff61f20015ad''"
  by code_simp

subsection \<open>HashBytes\<close>

definition HashBytes :: "string \<Rightarrow> string" where
  "HashBytes data = hexEncode (sha256 (map byte_of data))"

text \<open>
  A pair of distinct byte strings with one digest. Theorems on tamper evidence conclude with it
  instead of assuming that there is none.
\<close>

definition collision :: "string \<Rightarrow> string \<Rightarrow> bool" where
  "collision a b \<longleftrightarrow> a \<noteq> b \<and> HashBytes a = HashBytes b"

lemma length_HashBytes [simp]: "length (HashBytes s) = 64"
  by (simp add: HashBytes_def length_hexEncode)

lemma HashBytes_nonempty [simp]: "HashBytes s \<noteq> []"
  using length_HashBytes [of s] by fastforce

lemma HashBytes_eq_or_collision: "HashBytes a = HashBytes b \<Longrightarrow> a = b \<or> collision a b"
  by (auto simp: collision_def)

end
