(* ===== verification/Numbers.thy ===== *)
theory Numbers
  imports Complex_Main Go_Strings
begin

section \<open>Canonical numbers: domain/canonical.go, writeNumber and its parsers\<close>

text \<open>
  A \<open>json.Number\<close> is the text of a decimal. \<open>writeNumber\<close> parses it into sign, integer digits,
  fraction digits and exponent, bounds the exponent and the size, and prints the coefficient without
  leading or trailing zeroes at its decimal scale. The theory shows that what is printed has the value
  that was read, that equal values print equal text and different values different text, and that
  printing is idempotent. A float is its binary mantissa and exponent, printed with the fewest digits
  that identify it, as \<open>strconv.FormatFloat(f, 'f', -1, bits)\<close> does.
\<close>

definition maxCanonicalNumberDigits :: int where
  "maxCanonicalNumberDigits = 1048576"

definition maxCanonicalExponent :: int where
  "maxCanonicalExponent = 4096"

definition invalid_number :: error where
  "invalid_number = Err ErrOther ''invalid number literal''"

definition magnitude_error :: error where
  "magnitude_error = Err ErrOther ''number exceeds canonical magnitude limit''"

subsection \<open>parseJSONNumber\<close>

definition parseIntegerPart :: "string \<Rightarrow> (string \<times> string) result" where
  "parseIntegerPart r =
     (case r of
        [] \<Rightarrow> Inl invalid_number
      | c # cs \<Rightarrow>
          if c = CHR ''0'' then Inr ([c], cs)
          else if is_digit c then Inr (takeWhile is_digit r, dropWhile is_digit r)
          else Inl invalid_number)"

definition parseFractionPart :: "string \<Rightarrow> (string \<times> string) result" where
  "parseFractionPart r =
     (case r of
        c # cs \<Rightarrow>
          if c = CHR ''.'' then
            (if takeWhile is_digit cs = [] then Inl invalid_number
             else Inr (takeWhile is_digit cs, dropWhile is_digit cs))
          else Inr ([], r)
      | [] \<Rightarrow> Inr ([], r))"

definition cutSign :: "string \<Rightarrow> string \<times> string" where
  "cutSign r = (case r of c # cs \<Rightarrow> if c = CHR ''+'' \<or> c = CHR ''-'' then ([c], cs) else ([], r) | [] \<Rightarrow> ([], r))"

definition parseExponentPart :: "string \<Rightarrow> (string \<times> string) result" where
  "parseExponentPart r =
     (case r of
        c # cs \<Rightarrow>
          if c = CHR ''e'' \<or> c = CHR ''E'' then
            (case cutSign cs of (sign, ds) \<Rightarrow>
               if takeWhile is_digit ds = [] then Inl invalid_number
               else Inr (sign @ takeWhile is_digit ds, dropWhile is_digit ds))
          else Inr ([], r)
      | [] \<Rightarrow> Inr ([], r))"

definition parseJSONNumber :: "string \<Rightarrow> (bool \<times> string \<times> string \<times> string) result" where
  "parseJSONNumber s =
     (let negative = (s \<noteq> [] \<and> hd s = CHR ''-'');
          r0 = (if negative then tl s else s)
      in rbind (parseIntegerPart r0) (\<lambda>(integer, r1).
         rbind (parseFractionPart r1) (\<lambda>(fraction, r2).
         rbind (parseExponentPart r2) (\<lambda>(exponent, r3).
           if r3 = [] then Inr (negative, integer, fraction, exponent) else Inl invalid_number))))"

subsection \<open>parseDecimalExponent\<close>

text \<open>
  \<open>strconv.ParseInt(s, 10, 64)\<close> on an optional sign and decimal digits: a value outside 64 bits is an
  error, and the caller's bound rejects it in any case.
\<close>

definition parseInt10 :: "string \<Rightarrow> int" where
  "parseInt10 s =
     (case s of
        c # cs \<Rightarrow> if c = CHR ''-'' then - int (decVal cs) else if c = CHR ''+'' then int (decVal cs) else int (decVal s)
      | [] \<Rightarrow> 0)"

definition parseDecimalExponent :: "string \<Rightarrow> int result" where
  "parseDecimalExponent s =
     (if s = [] then Inr 0
      else let value = parseInt10 s in
        if value > maxCanonicalExponent \<or> value < - maxCanonicalExponent
        then Inl (Err ErrOther ''exponent is outside the supported range'') else Inr value)"

subsection \<open>writeNumber\<close>

definition TrimLeftZero :: "string \<Rightarrow> string" where
  "TrimLeftZero s = dropWhile (\<lambda>c. c = CHR ''0'') s"

definition TrimRightZero :: "string \<Rightarrow> string" where
  "TrimRightZero s = rev (dropWhile (\<lambda>c. c = CHR ''0'') (rev s))"

text \<open>The tail of writeNumber: the coefficient \<open>digits\<close> at decimal scale \<open>scale\<close>.\<close>

definition writeScaled :: "bool \<Rightarrow> string \<Rightarrow> int \<Rightarrow> string result" where
  "writeScaled negative digits scale =
     (let sign = (if negative then ''-'' else '''')
      in if scale \<le> 0 then
           (if int (length digits) - scale > maxCanonicalNumberDigits then Inl magnitude_error
            else Inr (sign @ digits @ replicate (nat (- scale)) (CHR ''0'')))
         else if scale > maxCanonicalNumberDigits
                \<or> int (length digits) + scale > maxCanonicalNumberDigits + 1 then Inl magnitude_error
         else if scale \<ge> int (length digits) then
           Inr (sign @ ''0.'' @ replicate (nat (scale - int (length digits))) (CHR ''0'') @ digits)
         else
           (let point = nat (int (length digits) - scale)
            in Inr (sign @ take point digits @ ''.'' @ drop point digits)))"

definition writeNumber :: "string \<Rightarrow> string result" where
  "writeNumber s =
     rbind (parseJSONNumber s) (\<lambda>(negative, integer, fraction, exponent).
     rbind (parseDecimalExponent exponent) (\<lambda>exp.
       if int (length integer) + int (length fraction) > maxCanonicalNumberDigits + 1 then Inl magnitude_error
       else
         let allDigits = integer @ fraction;
             trimmed = TrimRightZero allDigits;
             trailingZeroes = length allDigits - length trimmed;
             digits = TrimLeftZero trimmed
         in if digits = [] then Inr ''0''
            else writeScaled negative digits (int (length fraction) - exp - int trailingZeroes)))"

subsection \<open>Binary floats and their shortest decimal\<close>

text \<open>
  A finite float is \<open>mant * 2 ^ bexp\<close> with a sign; \<open>bits\<close> is 32 or 64. The decimals that round to it
  lie between half the gap to each neighbour, the bounds included for an even mantissa; below a power
  of two the gap is half as wide. The shortest decimal is the multiple of the largest power of ten in
  that interval, the nearest one to the float (of two as near, the even one).
\<close>

datatype gofloat = FNaN | FInf bool | FFin bool int int

definition floatNum :: "int \<Rightarrow> int \<Rightarrow> int" where
  "floatNum m e = m * 2 ^ nat e"

definition floatDen :: "int \<Rightarrow> int" where
  "floatDen e = 2 ^ nat (- e)"

definition floatAcross :: "nat \<Rightarrow> int \<Rightarrow> int \<Rightarrow> bool" where
  "floatAcross bits m e \<longleftrightarrow> (if bits = 32 then m = 2 ^ 23 \<and> e > - 149 else m = 2 ^ 52 \<and> e > - 1074)"

definition floatRounds :: "nat \<Rightarrow> int \<Rightarrow> int \<Rightarrow> int \<Rightarrow> int \<Rightarrow> bool" where
  \<comment> \<open>\<open>c * 10 ^ k\<close> rounds to the float\<close>
  "floatRounds bits m e c k =
     (let x = 4 * (c * 10 ^ nat k * floatDen e); q = 10 ^ nat (- k);
          lo = (4 * m - (if floatAcross bits m e then 1 else 2)) * 2 ^ nat e * q;
          hi = (4 * m + 2) * 2 ^ nat e * q
      in if even m then lo \<le> x \<and> x \<le> hi else lo < x \<and> x < hi)"

definition floatFloor :: "int \<Rightarrow> int \<Rightarrow> int \<Rightarrow> int" where
  "floatFloor m e k = (floatNum m e * 10 ^ nat (- k)) div (floatDen e * 10 ^ nat k)"

definition floatNearest :: "nat \<Rightarrow> int \<Rightarrow> int \<Rightarrow> int \<Rightarrow> int option" where
  "floatNearest bits m e k =
     (let d = floatDen e * 10 ^ nat k; c = floatFloor m e k;
          r = 2 * ((floatNum m e * 10 ^ nat (- k)) mod d);
          up = (r > d \<or> (r = d \<and> odd c));
          first = (if up then c + 1 else c); second = (if up then c else c + 1)
      in if first \<noteq> 0 \<and> floatRounds bits m e first k then Some first
         else if second \<noteq> 0 \<and> floatRounds bits m e second k then Some second else None)"

fun floatSearch :: "nat \<Rightarrow> int \<Rightarrow> int \<Rightarrow> int \<Rightarrow> nat \<Rightarrow> int \<times> int" where
  "floatSearch bits m e k n =
     (case floatNearest bits m e k of
        Some c \<Rightarrow> (c, k)
      | None \<Rightarrow> (case n of 0 \<Rightarrow> (m, e) | Suc n' \<Rightarrow> floatSearch bits m e (k - 1) n'))"

text \<open>
  The search starts above the float's magnitude and ends at the power of ten of its exact decimal
  expansion, where the expansion itself is an answer.
\<close>

definition floatShortest :: "nat \<Rightarrow> int \<Rightarrow> int \<Rightarrow> int \<times> int" where
  "floatShortest bits m e =
     (let k0 = int (length (natDec (nat (floatNum m e div floatDen e))))
      in floatSearch bits m e k0 (nat (k0 - min e 0)))"

definition formatDecimalF :: "bool \<Rightarrow> nat \<Rightarrow> int \<Rightarrow> string" where
  "formatDecimalF negative d k =
     (let ds = natDec d; sign = (if negative then ''-'' else '''')
      in if k \<ge> 0 then sign @ ds @ replicate (nat k) (CHR ''0'')
         else if int (length ds) > - k then
           (let point = nat (int (length ds) + k) in sign @ take point ds @ ''.'' @ drop point ds)
         else sign @ ''0.'' @ replicate (nat (- k - int (length ds))) (CHR ''0'') @ ds)"

definition formatFloatF :: "nat \<Rightarrow> bool \<Rightarrow> int \<Rightarrow> int \<Rightarrow> string" where
  "formatFloatF bits negative m e =
     (case floatShortest bits m e of (c, k) \<Rightarrow> formatDecimalF negative (nat c) k)"

subsection \<open>The value of a number's text\<close>

definition signed :: "bool \<Rightarrow> rat \<Rightarrow> rat" where
  "signed negative x = (if negative then - x else x)"

definition numberValue :: "string \<Rightarrow> rat option" where
  "numberValue s =
     (case parseJSONNumber s of
        Inl _ \<Rightarrow> None
      | Inr (negative, integer, fraction, exponent) \<Rightarrow>
          Some (signed negative (of_nat (decVal (integer @ fraction))
                 * 10 powi (parseInt10 exponent - int (length fraction)))))"

subsubsection \<open>Digit strings\<close>

abbreviation digits_only :: "string \<Rightarrow> bool" where
  "digits_only s \<equiv> (\<forall>c \<in> set s. is_digit c)"

lemma digit_val_zero [simp]: "digit_val (CHR ''0'') = 0"
  by (simp add: digit_val_def)

lemma decVal_zeroes [simp]: "decVal (replicate n (CHR ''0'')) = 0"
proof (induction n)
  case (Suc n)
  have "replicate (Suc n) (CHR ''0'') = replicate n (CHR ''0'') @ [CHR ''0'']"
    by (simp add: replicate_append_same)
  with Suc show ?case by (simp del: replicate_Suc)
qed simp

lemma digit_val_0_iff: "is_digit c \<Longrightarrow> digit_val c = 0 \<longleftrightarrow> c = CHR ''0''"
proof -
  assume d: "is_digit c"
  have "c = CHR ''0''" if "byte_of c = byte_of (CHR ''0'')"
    using that of_char_eq_iff by blast
  with d show ?thesis by (auto simp: digit_val_def is_digit_def)
qed

lemma digit_val_lt: "is_digit c \<Longrightarrow> digit_val c < 10"
  by (auto simp: is_digit_def digit_val_def)

lemma digit_char_val: "is_digit c \<Longrightarrow> digit_char (digit_val c) = c"
  by (simp add: digit_char_def digit_val_def is_digit_def)

text \<open>Digits without a leading zero are the decimal text of their value.\<close>

lemma decVal_pos:
  assumes "digits_only s" and "s \<noteq> []" and "hd s \<noteq> CHR ''0''"
  shows "0 < decVal s"
proof -
  obtain c cs where s: "s = c # cs" using assms(2) by (cases s) auto
  have "decVal ([c] @ cs) = digit_val c * 10 ^ length cs + decVal cs"
    by (subst decVal_append) (simp add: decVal_def)
  moreover have "digit_val c \<noteq> 0" using assms s digit_val_0_iff by auto
  ultimately show ?thesis using s by simp
qed

lemma natDec_decVal: "digits_only s \<Longrightarrow> s \<noteq> [] \<Longrightarrow> hd s \<noteq> CHR ''0'' \<Longrightarrow> natDec (decVal s) = s"
proof (induction s rule: rev_induct)
  case (snoc c s)
  have c: "is_digit c" using snoc.prems by simp
  show ?case
  proof (cases "s = []")
    case True
    then show ?thesis using c by (subst natDec.simps) (simp add: decVal_def digit_val_lt digit_char_val)
  next
    case False
    then have IH: "natDec (decVal s) = s" and pos: "0 < decVal s"
      using snoc decVal_pos by auto
    have "\<not> decVal (s @ [c]) < 10" using pos by simp
    then show ?thesis
      using IH c digit_val_lt [OF c] by (subst natDec.simps) (simp add: digit_char_val)
  qed
qed simp

lemma decVal_inj_digits:
  "digits_only s \<Longrightarrow> s \<noteq> [] \<Longrightarrow> hd s \<noteq> CHR ''0'' \<Longrightarrow> digits_only t \<Longrightarrow> t \<noteq> [] \<Longrightarrow> hd t \<noteq> CHR ''0''
   \<Longrightarrow> decVal s = decVal t \<Longrightarrow> s = t"
  by (metis natDec_decVal)

lemma decVal_last: "digits_only s \<Longrightarrow> s \<noteq> [] \<Longrightarrow> last s \<noteq> CHR ''0'' \<Longrightarrow> \<not> 10 dvd decVal s"
proof -
  assume a: "digits_only s" "s \<noteq> []" "last s \<noteq> CHR ''0''"
  then have "decVal s = 10 * decVal (butlast s) + digit_val (last s)"
    by (metis append_butlast_last_id decVal_snoc)
  moreover have "digit_val (last s) < 10" "digit_val (last s) \<noteq> 0"
    using a by (auto simp: digit_val_lt digit_val_0_iff)
  ultimately show ?thesis by presburger
qed

subsubsection \<open>Trimming zeroes\<close>

definition coefficient :: "string \<Rightarrow> bool" where
  "coefficient ds \<longleftrightarrow> digits_only ds \<and> ds \<noteq> [] \<and> hd ds \<noteq> CHR ''0'' \<and> last ds \<noteq> CHR ''0''"

lemma TrimLeftZero_split: "\<exists>n. s = replicate n (CHR ''0'') @ TrimLeftZero s"
proof -
  have "takeWhile (\<lambda>c. c = CHR ''0'') s = replicate (length (takeWhile (\<lambda>c. c = CHR ''0'') s)) (CHR ''0'')"
    by (rule replicate_eqI) (auto dest: set_takeWhileD)
  then show ?thesis unfolding TrimLeftZero_def by (metis takeWhile_dropWhile_id)
qed

lemma TrimRightZero_rev: "TrimRightZero s = rev (TrimLeftZero (rev s))"
  by (simp add: TrimRightZero_def TrimLeftZero_def)

lemma TrimRightZero_split: "\<exists>n. s = TrimRightZero s @ replicate n (CHR ''0'')"
proof -
  obtain n where "rev s = replicate n (CHR ''0'') @ TrimLeftZero (rev s)"
    using TrimLeftZero_split by blast
  from arg_cong [OF this, of rev] have "s = TrimRightZero s @ replicate n (CHR ''0'')"
    by (simp add: TrimRightZero_rev)
  then show ?thesis by blast
qed

lemma TrimLeftZero_hd: "TrimLeftZero s \<noteq> [] \<Longrightarrow> hd (TrimLeftZero s) \<noteq> CHR ''0''"
  using hd_dropWhile [of "\<lambda>c. c = CHR ''0''" s] by (simp add: TrimLeftZero_def)

lemma TrimRightZero_last: "TrimRightZero s \<noteq> [] \<Longrightarrow> last (TrimRightZero s) \<noteq> CHR ''0''"
  by (simp add: TrimRightZero_rev last_rev TrimLeftZero_hd)

lemma TrimLeftZero_zeroes: "TrimLeftZero (replicate n (CHR ''0'') @ s) = TrimLeftZero s"
  by (induction n) (auto simp: TrimLeftZero_def)

lemma TrimLeftZero_id: "s \<noteq> [] \<Longrightarrow> hd s \<noteq> CHR ''0'' \<Longrightarrow> TrimLeftZero s = s"
  by (cases s) (auto simp: TrimLeftZero_def)

lemma TrimRightZero_zeroes:
  "s \<noteq> [] \<Longrightarrow> last s \<noteq> CHR ''0'' \<Longrightarrow> TrimRightZero (s @ replicate n (CHR ''0'')) = s"
  by (simp add: TrimRightZero_rev TrimLeftZero_zeroes TrimLeftZero_id hd_rev)

text \<open>The trimmed digits are a coefficient, and what was trimmed is a power of ten.\<close>

lemma trim_digits:
  assumes "digits_only s"
  obtains a b where "s = replicate a (CHR ''0'') @ TrimLeftZero (TrimRightZero s) @ replicate b (CHR ''0'')"
    and "b = length s - length (TrimRightZero s)"
    and "TrimLeftZero (TrimRightZero s) \<noteq> [] \<Longrightarrow> coefficient (TrimLeftZero (TrimRightZero s))"
proof -
  let ?t = "TrimRightZero s" let ?d = "TrimLeftZero ?t"
  obtain b where b: "s = ?t @ replicate b (CHR ''0'')" using TrimRightZero_split by blast
  obtain a where a: "?t = replicate a (CHR ''0'') @ ?d" using TrimLeftZero_split by blast
  have "s = replicate a (CHR ''0'') @ ?d @ replicate b (CHR ''0'')"
    by (subst b, subst a) simp
  moreover have "b = length s - length ?t"
    using arg_cong [OF b, of length] by simp
  moreover have "coefficient ?d" if ne: "?d \<noteq> []"
  proof -
    have "last ?d = last ?t" using ne a by (metis last_appendR)
    moreover have "?t \<noteq> []" using ne a by auto
    moreover have "set ?d \<subseteq> set s" using calculation \<open>s = replicate a (CHR ''0'') @ ?d @ replicate b (CHR ''0'')\<close>
      by (metis le_supE set_append sup_ge2)
    ultimately show ?thesis
      using ne assms TrimLeftZero_hd [OF ne] TrimRightZero_last [of s] by (auto simp: coefficient_def)
  qed
  ultimately show ?thesis using that by blast
qed

lemma decVal_padded:
  "decVal (replicate a (CHR ''0'') @ ds @ replicate b (CHR ''0'')) = decVal ds * 10 ^ b"
  by (simp add: decVal_append)

lemma trim_padded:
  assumes "coefficient ds"
  shows "TrimRightZero (replicate a (CHR ''0'') @ ds @ replicate b (CHR ''0'')) = replicate a (CHR ''0'') @ ds"
    and "TrimLeftZero (replicate a (CHR ''0'') @ ds) = ds"
  using assms TrimRightZero_zeroes [of "replicate a (CHR ''0'') @ ds" b]
  by (auto simp: coefficient_def TrimLeftZero_zeroes TrimLeftZero_id)

subsubsection \<open>Reading\<close>

lemma point_not_digit [simp]: "\<not> is_digit (CHR ''.'')" "\<not> is_digit (CHR ''e'')" "\<not> is_digit (CHR ''E'')"
  by (simp_all add: is_digit_def)

lemma zero_digit [simp]: "is_digit (CHR ''0'')"
  by (simp add: is_digit_def)

lemma parseIntegerPart_digits: "parseIntegerPart r = Inr (i, r') \<Longrightarrow> digits_only i \<and> i \<noteq> []"
  by (auto simp: parseIntegerPart_def split: if_splits list.splits dest: set_takeWhileD)

lemma parseFractionPart_digits: "parseFractionPart r = Inr (f, r') \<Longrightarrow> digits_only f"
  by (auto simp: parseFractionPart_def split: if_splits list.splits dest: set_takeWhileD)

lemma parse_digits:
  assumes "parseJSONNumber s = Inr (n, i, f, e)"
  shows "digits_only (i @ f)" and "i \<noteq> []"
proof -
  from assms obtain r0 r1 r2 where "parseIntegerPart r0 = Inr (i, r1)" "parseFractionPart r1 = Inr (f, r2)"
    by (auto simp: parseJSONNumber_def Let_def rbind_eq_Inr split: if_splits)
  then show "digits_only (i @ f)" "i \<noteq> []"
    using parseIntegerPart_digits parseFractionPart_digits by auto
qed

lemma takeWhile_digits_point:
  "digits_only s \<Longrightarrow> rest = [] \<or> \<not> is_digit (hd rest) \<Longrightarrow>
     takeWhile is_digit (s @ rest) = s \<and> dropWhile is_digit (s @ rest) = rest"
  by (cases rest) (auto simp: takeWhile_append2)

lemma parse_decimal_text:
  assumes i: "digits_only i" "i \<noteq> []" "i = ''0'' \<or> hd i \<noteq> CHR ''0''" and f: "digits_only f"
  shows "parseJSONNumber ((if neg then ''-'' else '''') @ i @ (if f = [] then [] else CHR ''.'' # f))
         = Inr (neg, i, f, [])"
proof -
  let ?r1 = "if f = [] then [] else CHR ''.'' # f"
  obtain c cs where ic: "i = c # cs" using i(2) by (cases i) auto
  have cd: "is_digit c" "c \<noteq> CHR ''-''" using i(1) ic minus_not_digit by auto
  have int: "parseIntegerPart (i @ ?r1) = Inr (i, ?r1)"
    using i ic cd takeWhile_digits_point [of i ?r1] by (auto simp: parseIntegerPart_def)
  have frac: "parseFractionPart ?r1 = Inr (f, [])"
    using f takeWhile_digits_point [of f "[]"]
    by (simp add: parseFractionPart_def del: takeWhile_eq_all_conv dropWhile_eq_Nil_conv)
  have "parseExponentPart [] = Inr ([], [])" by (simp add: parseExponentPart_def)
  then show ?thesis
    using int frac ic cd by (cases neg) (auto simp: parseJSONNumber_def Let_def)
qed

subsubsection \<open>Printing\<close>

lemma maxDigits_pos [simp]: "0 < maxCanonicalNumberDigits"
  by (simp add: maxCanonicalNumberDigits_def)

text \<open>What the tail prints reads back as the coefficient, padded by zeroes, at the same scale.\<close>

lemma parse_writeScaled:
  assumes co: "coefficient ds" and w: "writeScaled neg ds scale = Inr out"
  obtains i f a where "parseJSONNumber out = Inr (neg, i, f, [])"
    and "i @ f = replicate a (CHR ''0'') @ ds @ replicate (nat (- scale)) (CHR ''0'')"
    and "int (length f) = max 0 scale"
    and "int (length i) + int (length f) \<le> maxCanonicalNumberDigits + 1"
proof -
  have ds: "digits_only ds" "ds \<noteq> []" "hd ds \<noteq> CHR ''0''" using co by (auto simp: coefficient_def)
  consider (whole) "scale \<le> 0" | (small) "0 < scale" "int (length ds) \<le> scale"
    | (point) "0 < scale" "scale < int (length ds)" by linarith
  then show ?thesis
  proof cases
    case whole
    let ?i = "ds @ replicate (nat (- scale)) (CHR ''0'')"
    have "out = (if neg then ''-'' else '''') @ ?i @ (if ([]::string) = [] then [] else CHR ''.'' # [])"
      and len: "int (length ds) - scale \<le> maxCanonicalNumberDigits"
      using w whole by (auto simp: writeScaled_def Let_def split: if_splits)
    moreover have "parseJSONNumber ((if neg then ''-'' else '''') @ ?i @ (if ([]::string) = [] then [] else CHR ''.'' # []))
        = Inr (neg, ?i, [], [])"
      by (rule parse_decimal_text) (use ds in auto)
    ultimately show ?thesis
      using that [of ?i "[]" 0] whole len by auto
  next
    case small
    let ?f = "replicate (nat (scale - int (length ds))) (CHR ''0'') @ ds"
    have "out = (if neg then ''-'' else '''') @ ''0'' @ (if ?f = [] then [] else CHR ''.'' # ?f)"
      and len: "scale \<le> maxCanonicalNumberDigits"
      using w small ds(2) by (auto simp: writeScaled_def Let_def split: if_splits)
    moreover have "parseJSONNumber ((if neg then ''-'' else '''') @ ''0'' @ (if ?f = [] then [] else CHR ''.'' # ?f))
        = Inr (neg, ''0'', ?f, [])"
      by (rule parse_decimal_text) (use ds in auto)
    ultimately show ?thesis
      using that [of "''0''" ?f "Suc (nat (scale - int (length ds)))"] small len by auto
  next
    case point
    let ?p = "nat (int (length ds) - scale)"
    have p: "0 < ?p" "?p < length ds" using point by auto
    have nd: "drop ?p ds \<noteq> []" "take ?p ds \<noteq> []" "hd (take ?p ds) \<noteq> CHR ''0''" using p ds by auto
    have "out = (if neg then ''-'' else '''') @ take ?p ds @ (if drop ?p ds = [] then [] else CHR ''.'' # drop ?p ds)"
      and len: "int (length ds) + scale \<le> maxCanonicalNumberDigits + 1"
      using w point nd(1) by (auto simp: writeScaled_def Let_def split: if_splits)
    moreover have "parseJSONNumber ((if neg then ''-'' else '''') @ take ?p ds @ (if drop ?p ds = [] then [] else CHR ''.'' # drop ?p ds))
        = Inr (neg, take ?p ds, drop ?p ds, [])"
      by (rule parse_decimal_text) (use ds nd in \<open>auto dest: in_set_takeD in_set_dropD\<close>)
    ultimately show ?thesis
      using that [of "take ?p ds" "drop ?p ds" 0] point len p by auto
  qed
qed

definition scaledValue :: "bool \<Rightarrow> string \<Rightarrow> int \<Rightarrow> rat" where
  "scaledValue neg ds scale = signed neg (of_nat (decVal ds) * 10 powi (- scale))"

lemma padded_value:
  "of_nat (decVal (replicate a (CHR ''0'') @ ds @ replicate b (CHR ''0''))) * (10::rat) powi k
   = of_nat (decVal ds) * 10 powi (k + int b)"
  by (simp add: decVal_padded power_int_add mult.assoc)

lemma parseDecimalExponent_value: "parseDecimalExponent e = Inr v \<Longrightarrow> v = parseInt10 e"
  by (auto simp: parseDecimalExponent_def parseInt10_def Let_def split: if_splits)

text \<open>Every accepted number is zero, or its coefficient printed at its scale.\<close>

lemma writeNumber_cases:
  assumes w: "writeNumber s = Inr out"
  obtains (zero) "numberValue s = Some 0" "out = ''0''"
    | (scaled) neg ds scale where "coefficient ds" "numberValue s = Some (scaledValue neg ds scale)"
        "writeScaled neg ds scale = Inr out"
proof -
  from w obtain neg i f e v where p: "parseJSONNumber s = Inr (neg, i, f, e)"
    and e: "parseDecimalExponent e = Inr v"
    by (auto simp: writeNumber_def rbind_eq_Inr)
  let ?t = "TrimRightZero (i @ f)" let ?d = "TrimLeftZero ?t"
  obtain a b where split: "i @ f = replicate a (CHR ''0'') @ ?d @ replicate b (CHR ''0'')"
    and b: "b = length (i @ f) - length ?t" and co: "?d \<noteq> [] \<Longrightarrow> coefficient ?d"
    using trim_digits [OF parse_digits(1) [OF p]] by blast
  have val: "numberValue s = Some (scaledValue neg ?d (int (length f) - v - int b))"
    using p parseDecimalExponent_value [OF e] padded_value [of a ?d b "v - int (length f)"] split
    by (simp add: numberValue_def scaledValue_def algebra_simps)
  show ?thesis
  proof (cases "?d = []")
    case True
    then have "numberValue s = Some 0" "out = ''0''"
      using w val p e by (auto simp: scaledValue_def signed_def writeNumber_def Let_def split: if_splits)
    then show ?thesis by (rule zero)
  next
    case False
    have "writeScaled neg ?d (int (length f) - v - int b) = Inr out"
      using w p e False b by (auto simp: writeNumber_def Let_def split: if_splits)
    then show ?thesis using scaled [OF co [OF False] val] by blast
  qed
qed

text \<open>Printing the printed form again changes nothing.\<close>

lemma writeNumber_scaled:
  assumes co: "coefficient ds" and w: "writeScaled neg ds scale = Inr out"
  shows "writeNumber out = Inr out" and "numberValue out = Some (scaledValue neg ds scale)"
proof -
  obtain i f a where p: "parseJSONNumber out = Inr (neg, i, f, [])"
    and split: "i @ f = replicate a (CHR ''0'') @ ds @ replicate (nat (- scale)) (CHR ''0'')"
    and lf: "int (length f) = max 0 scale"
    and len: "int (length i) + int (length f) \<le> maxCanonicalNumberDigits + 1"
    using parse_writeScaled [OF co w] by metis
  have ne: "ds \<noteq> []" using co by (simp add: coefficient_def)
  have trims: "TrimRightZero (i @ f) = replicate a (CHR ''0'') @ ds"
    "TrimLeftZero (TrimRightZero (i @ f)) = ds"
    using trim_padded [OF co] split by auto
  have tz: "length (i @ f) - length (TrimRightZero (i @ f)) = nat (- scale)"
    using split trims(1) by simp
  have "int (length f) - 0 - int (nat (- scale)) = scale" using lf by auto
  then show "writeNumber out = Inr out"
    using p w len ne trims tz by (simp add: writeNumber_def parseDecimalExponent_def Let_def)
  show "numberValue out = Some (scaledValue neg ds scale)"
    using p lf padded_value [of a ds "nat (- scale)" "- int (length f)"] split
    by (simp add: numberValue_def scaledValue_def parseInt10_def max_def split: if_splits)
qed

text \<open>The value determines sign, coefficient and scale.\<close>

lemma coefficient_unique:
  assumes "of_nat m * (10::rat) powi j = of_nat n * 10 powi k" and "\<not> 10 dvd m" and "\<not> 10 dvd n"
  shows "j \<le> k"
proof (rule ccontr)
  assume "\<not> j \<le> k"
  then have jk: "j = k + int (nat (j - k))" "0 < nat (j - k)" by auto
  have "of_nat m * (10::rat) powi k * 10 ^ nat (j - k) = of_nat n * 10 powi k"
    using assms(1) jk(1) by (metis (no_types, opaque_lifting) mult.assoc power_int_add power_int_of_nat zero_neq_numeral)
  then have "of_nat (m * 10 ^ nat (j - k)) = (of_nat n :: rat)"
    by (simp add: field_simps)
  then have "n = m * 10 ^ nat (j - k)" by (metis of_nat_eq_iff)
  then show False using assms(3) jk(2) by (metis dvd_mult dvd_power)
qed

lemma scaledValue_inj:
  assumes "coefficient ds" and "coefficient ds'" and "scaledValue neg ds scale = scaledValue neg' ds' scale'"
  shows "neg = neg' \<and> ds = ds' \<and> scale = scale'"
proof -
  have c: "digits_only ds" "ds \<noteq> []" "hd ds \<noteq> CHR ''0''" "\<not> 10 dvd decVal ds"
    and c': "digits_only ds'" "ds' \<noteq> []" "hd ds' \<noteq> CHR ''0''" "\<not> 10 dvd decVal ds'"
    using assms decVal_last by (auto simp: coefficient_def)
  let ?x = "of_nat (decVal ds) * (10::rat) powi (- scale)"
  let ?y = "of_nat (decVal ds') * (10::rat) powi (- scale')"
  have "0 < ?x" "0 < ?y" using decVal_pos [OF c(1-3)] decVal_pos [OF c'(1-3)] by auto
  then have sg: "neg = neg'" and xy: "?x = ?y"
    using assms(3) by (auto simp: scaledValue_def signed_def split: if_splits)
  have sc: "scale = scale'"
    using coefficient_unique [OF xy c(4) c'(4)] coefficient_unique [OF xy [symmetric] c'(4) c(4)] by simp
  then have "decVal ds = decVal ds'" using xy by simp
  then show ?thesis using sg sc decVal_inj_digits [OF c(1-3) c'(1-3)] by simp
qed

lemma scaledValue_nonzero: "coefficient ds \<Longrightarrow> scaledValue neg ds scale \<noteq> 0"
  using decVal_pos [of ds] by (auto simp: coefficient_def scaledValue_def signed_def)

lemma numberValue_zero_text: "numberValue ''0'' = Some 0" "writeNumber ''0'' = Inr ''0''"
  by code_simp+

lemma writeNumber_value: "writeNumber s = Inr out \<Longrightarrow> numberValue out = numberValue s"
  by (erule writeNumber_cases) (auto simp: numberValue_zero_text writeNumber_scaled)

lemma writeNumber_idem: "writeNumber s = Inr out \<Longrightarrow> writeNumber out = Inr out"
  by (erule writeNumber_cases) (auto simp: numberValue_zero_text writeNumber_scaled)

lemma writeNumber_canonical:
  assumes "writeNumber s = Inr x" and "writeNumber t = Inr y"
  shows "x = y \<longleftrightarrow> numberValue s = numberValue t"
proof
  assume "x = y"
  then show "numberValue s = numberValue t" using assms writeNumber_value by metis
next
  assume eq: "numberValue s = numberValue t"
  show "x = y"
  proof (rule writeNumber_cases [OF assms(1)])
    assume x: "numberValue s = Some 0" "x = ''0''"
    show "x = y"
      by (rule writeNumber_cases [OF assms(2)]) (use x eq scaledValue_nonzero in force)+
  next
    fix n ds sc assume x: "coefficient ds" "numberValue s = Some (scaledValue n ds sc)" "writeScaled n ds sc = Inr x"
    show "x = y"
    proof (rule writeNumber_cases [OF assms(2)])
      assume "numberValue t = Some 0"
      then show "x = y" using x eq scaledValue_nonzero by simp
    next
      fix n' ds' sc' assume y: "coefficient ds'" "numberValue t = Some (scaledValue n' ds' sc')"
        "writeScaled n' ds' sc' = Inr y"
      have "n = n' \<and> ds = ds' \<and> sc = sc'" using scaledValue_inj [OF x(1) y(1), of n sc n' sc'] x(2) y(2) eq by simp
      then show "x = y" using x(3) y(3) by simp
    qed
  qed
qed

subsection \<open>The shortest decimal of a float\<close>

declare floatSearch.simps [simp del]

definition candidate :: "nat \<Rightarrow> int \<Rightarrow> int \<Rightarrow> int \<Rightarrow> int \<Rightarrow> bool" where
  "candidate bits m e k c \<longleftrightarrow>
     (c = floatFloor m e k \<or> c = floatFloor m e k + 1) \<and> c \<noteq> 0 \<and> floatRounds bits m e c k"

lemma floatNearest_Some: "floatNearest bits m e k = Some c \<Longrightarrow> candidate bits m e k c"
  by (auto simp: floatNearest_def candidate_def Let_def split: if_splits)

lemma floatNearest_None: "floatNearest bits m e k = None \<Longrightarrow> \<not> candidate bits m e k c"
  by (auto simp: floatNearest_def candidate_def Let_def split: if_splits)

lemma floatDen_pos [simp]: "0 < floatDen e"
  by (simp add: floatDen_def)

lemma floatFloor_nonneg: "0 < m \<Longrightarrow> 0 \<le> floatFloor m e k"
  by (simp add: floatFloor_def floatNum_def pos_imp_zdiv_nonneg_iff)

lemma ten_split: "k < 0 \<Longrightarrow> (10::int) ^ nat (- k) = 10 * 10 ^ nat (- (k + 1))"
  by (simp add: power_Suc [symmetric] Suc_nat_eq_nat_zadd1 del: power_Suc)

lemma ten_split_pos: "0 \<le> k \<Longrightarrow> (10::int) ^ nat (k + 1) = 10 * 10 ^ nat k"
  by (simp add: nat_add_distrib)

lemma floatFloor_step: "floatFloor m e (k + 1) = floatFloor m e k div 10"
proof (cases "0 \<le> k")
  case True
  then show ?thesis
    using zdiv_zmult2_eq [of 10 "floatNum m e" "floatDen e * 10 ^ nat k"]
    by (simp add: floatFloor_def ten_split_pos mult.assoc mult.commute mult.left_commute)
next
  case False
  then have "floatFloor m e k = (10 * (floatNum m e * 10 ^ nat (- (k + 1)))) div floatDen e"
    by (simp add: floatFloor_def ten_split mult.assoc mult.commute mult.left_commute)
  then have "floatFloor m e k div 10 = (10 * (floatNum m e * 10 ^ nat (- (k + 1)))) div (10 * floatDen e)"
    by (metis zdiv_zmult2_eq mult.commute zero_le_numeral)
  also have "\<dots> = floatNum m e * 10 ^ nat (- (k + 1)) div floatDen e" by simp
  finally show ?thesis using False by (simp add: floatFloor_def)
qed

lemma floatRounds_step: "floatRounds bits m e (10 * c) k = floatRounds bits m e c (k + 1)"
proof (cases "0 \<le> k")
  case True
  then show ?thesis by (simp add: floatRounds_def ten_split_pos mult.assoc mult.commute mult.left_commute)
next
  case False
  then have k: "nat k = 0" "nat (k + 1) = 0" by auto
  have le: "l * (10 * q) \<le> 4 * (10 * c * d) \<longleftrightarrow> l * q \<le> 4 * (c * d)"
    and ge: "4 * (10 * c * d) \<le> l * (10 * q) \<longleftrightarrow> 4 * (c * d) \<le> l * q"
    and lt: "l * (10 * q) < 4 * (10 * c * d) \<longleftrightarrow> l * q < 4 * (c * d)"
    and gt: "4 * (10 * c * d) < l * (10 * q) \<longleftrightarrow> 4 * (c * d) < l * q" for l q d :: int
    by (auto simp: algebra_simps)
  show ?thesis
    using False by (simp only: floatRounds_def Let_def k ten_split [of k] power_0 mult_1_right le ge lt gt not_le)
qed

lemma candidate_step: "candidate bits m e k (10 * c) \<Longrightarrow> candidate bits m e (k + 1) c"
  unfolding candidate_def floatRounds_step floatFloor_step by auto

text \<open>At the power of ten of the exact expansion the expansion is a candidate.\<close>

lemma candidate_exact:
  assumes "0 < m"
  shows "\<exists>c. candidate bits m e (min e 0) c"
proof (cases "0 \<le> e")
  case True
  then show ?thesis
    using assms by (intro exI [of _ "floatNum m e"])
      (auto simp: candidate_def floatFloor_def floatDen_def floatRounds_def Let_def floatNum_def algebra_simps)
next
  case False
  let ?n = "nat (- e)"
  have ten: "(10::int) ^ ?n = 2 ^ ?n * 5 ^ ?n" by (simp add: power_mult_distrib [symmetric])
  have fl: "floatFloor m e e = m * 5 ^ ?n"
    using False by (simp add: floatFloor_def floatNum_def floatDen_def ten ac_simps)
  have "floatRounds bits m e (m * 5 ^ ?n) e"
    using False by (auto simp: floatRounds_def Let_def floatDen_def ten algebra_simps)
  then show ?thesis using False fl assms by (auto simp: candidate_def min_def)
qed

lemma floatSearch_spec:
  assumes "0 < m" and "k - int n = min e 0"
  shows "\<exists>c k'. floatSearch bits m e k n = (c, k') \<and> candidate bits m e k' c
           \<and> (k' = k \<or> (\<forall>c. \<not> candidate bits m e (k' + 1) c))"
  using assms(2)
proof (induction n arbitrary: k)
  case 0
  then obtain c where "candidate bits m e k c" using candidate_exact [OF assms(1)] by auto
  then obtain c' where "floatNearest bits m e k = Some c'" using floatNearest_None by fastforce
  then show ?case using floatNearest_Some by (auto simp: floatSearch.simps)
next
  case (Suc n)
  show ?case
  proof (cases "floatNearest bits m e k")
    case (Some c)
    then show ?thesis using floatNearest_Some by (auto simp: floatSearch.simps)
  next
    case None
    have "k - 1 - int n = min e 0" using Suc.prems by simp
    from Suc.IH [OF this] obtain c k' where s: "floatSearch bits m e (k - 1) n = (c, k')"
      "candidate bits m e k' c" "k' = k - 1 \<or> (\<forall>c. \<not> candidate bits m e (k' + 1) c)" by blast
    moreover have "\<forall>c. \<not> candidate bits m e k c" using None floatNearest_None by blast
    ultimately have "\<forall>c. \<not> candidate bits m e (k' + 1) c" by auto
    then show ?thesis using None s by (simp add: floatSearch.simps [of _ _ _ k])
  qed
qed

lemma natDec_length: "n < 10 ^ length (natDec n)"
proof (induction n rule: natDec.induct)
  case (1 n)
  show ?case
  proof (cases "n < 10")
    case True
    then show ?thesis by (simp add: natDec.simps)
  next
    case False
    then have "n div 10 < 10 ^ length (natDec (n div 10))" using 1 by simp
    then have "n < 10 * 10 ^ length (natDec (n div 10))" by linarith
    then show ?thesis using False by (simp add: natDec.simps [of n])
  qed
qed

lemma floatShortest_spec:
  assumes m: "0 < m" and sh: "floatShortest bits m e = (c, k)"
  shows "0 < c" and "\<not> 10 dvd c" and "floatRounds bits m e c k"
proof -
  let ?v = "floatNum m e div floatDen e"
  let ?k0 = "int (length (natDec (nat ?v)))"
  have v: "0 \<le> ?v" using m by (simp add: floatNum_def pos_imp_zdiv_nonneg_iff)
  have "min e 0 \<le> ?k0" by (rule min.coboundedI2) simp
  then have k0: "?k0 - int (nat (?k0 - min e 0)) = min e 0" by linarith
  have spec: "candidate bits m e k c" "k = ?k0 \<or> (\<forall>c. \<not> candidate bits m e (k + 1) c)"
    using floatSearch_spec [OF m k0, of bits] sh by (auto simp: floatShortest_def Let_def)
  show pos: "0 < c" using spec(1) floatFloor_nonneg [OF m, of e k] by (auto simp: candidate_def)
  show "floatRounds bits m e c k" using spec(1) by (simp add: candidate_def)
  have "int (nat ?v) < int (10 ^ nat ?k0)"
    using natDec_length [of "nat ?v"] by (simp only: of_nat_less_iff nat_int)
  then have "?v < 10 ^ nat ?k0" using v by simp
  then have "floatFloor m e ?k0 = 0"
    using v zdiv_zmult2_eq [of "10 ^ nat ?k0" "floatNum m e" "floatDen e"] by (simp add: floatFloor_def)
  then have one: "k = ?k0 \<Longrightarrow> c = 1" using spec(1) by (auto simp: candidate_def)
  show "\<not> 10 dvd c"
  proof
    assume "10 dvd c"
    then obtain q where q: "c = 10 * q" by (auto elim: dvdE)
    then have "k \<noteq> ?k0" using one by presburger
    then show False using spec candidate_step [of bits m e k q] q by auto
  qed
qed

text \<open>The decimal a float is printed as.\<close>

definition floatDecimal :: "nat \<Rightarrow> bool \<Rightarrow> int \<Rightarrow> int \<Rightarrow> rat" where
  "floatDecimal bits neg m e = (case floatShortest bits m e of (c, k) \<Rightarrow> signed neg (of_int c * 10 powi k))"

lemma coefficient_natDec: "0 < n \<Longrightarrow> \<not> 10 dvd n \<Longrightarrow> coefficient (natDec n)"
proof -
  assume n: "0 < n" "\<not> 10 dvd n"
  have ds: "digits_only (natDec n)" by (rule natDec_digits)
  have "hd (natDec n) \<noteq> CHR ''0''" using n(1)
  proof (induction n rule: natDec.induct)
    case (1 n)
    then show ?case
      by (cases "n < 10") (auto simp: natDec.simps [of n] digit_char_def hd_append dest: arg_cong [of _ _ byte_of])
  qed
  moreover have "last (natDec n) \<noteq> CHR ''0''"
  proof
    assume "last (natDec n) = CHR ''0''"
    then have "natDec n = butlast (natDec n) @ [CHR ''0'']" by (metis append_butlast_last_id natDec_nonempty)
    then have "n = 10 * decVal (butlast (natDec n)) + digit_val (CHR ''0'')" by (metis decVal_natDec decVal_snoc)
    then have "10 dvd n" by (metis add.right_neutral digit_val_zero dvd_triv_left)
    then show False using n(2) by blast
  qed
  ultimately show ?thesis using ds by (simp add: coefficient_def)
qed

lemma writeScaled_format:
  "writeScaled neg (natDec d) (- k) = Inr out \<Longrightarrow> out = formatDecimalF neg d k"
  by (auto simp: writeScaled_def formatDecimalF_def Let_def split: if_splits)

text \<open>
  Representation independence: a \<open>json.Number\<close> with the decimal value of a float or of an integer
  prints the bytes of the float or of the integer.
\<close>

lemma writeNumber_float:
  assumes w: "writeNumber s = Inr out" and m: "0 < m" and v: "numberValue s = Some (floatDecimal bits neg m e)"
  shows "out = formatFloatF bits neg m e"
proof -
  obtain c k where ck: "floatShortest bits m e = (c, k)" by fastforce
  note sh = floatShortest_spec [OF m ck]
  have co: "coefficient (natDec (nat c))"
    by (rule coefficient_natDec) (use sh in \<open>auto simp: nat_dvd_iff int_dvd_int_iff [symmetric]\<close>)
  have fv: "floatDecimal bits neg m e = scaledValue neg (natDec (nat c)) (- k)"
    using ck sh(1) by (simp add: floatDecimal_def scaledValue_def)
  show ?thesis
  proof (rule writeNumber_cases [OF w])
    assume "numberValue s = Some 0"
    then show ?thesis using v fv scaledValue_nonzero [OF co] by simp
  next
    fix n ds sc assume x: "coefficient ds" "numberValue s = Some (scaledValue n ds sc)" "writeScaled n ds sc = Inr out"
    have "n = neg \<and> ds = natDec (nat c) \<and> sc = - k"
      using scaledValue_inj [OF x(1) co, of n sc neg "- k"] x(2) v fv by simp
    then show ?thesis using x(3) writeScaled_format ck by (simp add: formatFloatF_def)
  qed
qed

lemma writeNumber_int:
  assumes w: "writeNumber s = Inr out" and v: "numberValue s = Some (of_int i)"
  shows "out = itoa i"
proof (rule writeNumber_cases [OF w])
  assume "numberValue s = Some 0" "out = ''0''"
  then show ?thesis using v by (simp add: itoa_def natDec.simps digit_char_def) code_simp
next
  fix n ds sc assume x: "coefficient ds" "numberValue s = Some (scaledValue n ds sc)" "writeScaled n ds sc = Inr out"
  have c: "digits_only ds" "ds \<noteq> []" "hd ds \<noteq> CHR ''0''" "\<not> 10 dvd decVal ds"
    using x(1) decVal_last by (auto simp: coefficient_def)
  have val: "signed n (of_nat (decVal ds) * 10 powi (- sc)) = of_int i" using x(2) v by (simp add: scaledValue_def)
  have pos: "0 < of_nat (decVal ds) * (10::rat) powi (- sc)" using decVal_pos [OF c(1-3)] by simp
  have "n \<longleftrightarrow> (of_int i :: rat) < 0"
    using val pos by (simp only: signed_def split: if_splits) auto
  then have sg: "n \<longleftrightarrow> i < 0" by simp
  have abs: "of_nat (decVal ds) * 10 powi (- sc) = (of_nat (nat \<bar>i\<bar>) :: rat)"
  proof (cases n)
    case True
    then have "of_nat (decVal ds) * (10::rat) powi (- sc) = - of_int i"
      using val unfolding signed_def by (metis minus_minus)
    then show ?thesis using True sg by simp
  next
    case False
    then show ?thesis using val sg by (simp add: signed_def)
  qed
  have sc: "sc \<le> 0"
  proof (rule ccontr)
    assume "\<not> sc \<le> 0"
    then have "of_nat (decVal ds) = (of_nat (nat \<bar>i\<bar> * 10 ^ nat sc) :: rat)"
      using abs by (simp add: power_int_def field_simps)
    then have "decVal ds = nat \<bar>i\<bar> * 10 ^ nat sc" by (metis of_nat_eq_iff)
    then show False using c(4) \<open>\<not> sc \<le> 0\<close> by (simp add: dvd_mult dvd_power)
  qed
  let ?z = "ds @ replicate (nat (- sc)) (CHR ''0'')"
  have "of_nat (decVal ?z) = (of_nat (nat \<bar>i\<bar>) :: rat)"
    using abs sc by (simp add: decVal_append power_int_def)
  then have "decVal ?z = nat \<bar>i\<bar>" by (metis of_nat_eq_iff)
  moreover have "digits_only ?z" "?z \<noteq> []" "hd ?z \<noteq> CHR ''0''" using c by auto
  ultimately have "natDec (nat \<bar>i\<bar>) = ?z" using natDec_decVal [of ?z] by presburger
  then show ?thesis using x(3) sc sg by (auto simp: writeScaled_def itoa_def Let_def split: if_splits)
qed

subsection \<open>Property\<close>

text \<open>
  C30. Canonical numbers. The text \<open>writeNumber\<close> gives for a JSON number has the value of the number
  and is its own canonical text; two numbers that are accepted get the same bytes exactly when they
  are numerically equal, whatever notation they were written in.
\<close>

theorem number_text_canonical:
  assumes "writeNumber s = Inr x" and "writeNumber t = Inr y"
  shows "numberValue x = numberValue s \<and> writeNumber x = Inr x \<and> (x = y \<longleftrightarrow> numberValue s = numberValue t)"
  using writeNumber_value [OF assms(1)] writeNumber_idem [OF assms(1)] writeNumber_canonical [OF assms] by blast

theorem number_text_canonical_witness:
  "writeNumber ''1.50e2'' = Inr ''150'' \<and> writeNumber ''0.15E+3'' = Inr ''150''
   \<and> numberValue ''150'' = numberValue ''1.50e2'' \<and> numberValue ''1.50e2'' = numberValue ''0.15E+3''"
proof -
  have s: "writeNumber ''1.50e2'' = Inr ''150''" and t: "writeNumber ''0.15E+3'' = Inr ''150''" by code_simp+
  show ?thesis using number_text_canonical [OF s t] s t by simp
qed

end
