(* ===== verification/Canonical.thy ===== *)
theory Canonical
  imports Keys Numbers
begin

section \<open>Canonical JSON: domain/canonical.go\<close>

text \<open>
  The deterministic encoding that every digest, hash and cursor is computed over. A \<open>reflect.Value\<close>
  is a \<open>gval\<close>; \<open>writeCanonical\<close> prints it with map keys and struct fields sorted, times in UTC and
  numbers in one form. Map contents are association lists, so that the theorem that any two orders of
  the same entries print the same bytes is a theorem about Go's map iteration.
\<close>

subsection \<open>Times: UTC().Format(time.RFC3339Nano)\<close>

text \<open>
  A time is the number of nanoseconds since January 1 of the year 1 UTC, the zero time of Go. The
  civil date counts days from March 1 of the year 0, in eras of 400 years.
\<close>

type_synonym time = int

definition ns_per_day :: int where
  "ns_per_day = 86400000000000"

definition civilDate :: "int \<Rightarrow> int \<times> int \<times> int" where
  "civilDate days =
     (let z = days + 306; era = z div 146097; doe = z mod 146097;
          yoe = (doe - doe div 1460 + doe div 36524 - doe div 146096) div 365;
          doy = doe - (365 * yoe + yoe div 4 - yoe div 100);
          mp = (5 * doy + 2) div 153;
          d = doy - (153 * mp + 2) div 5 + 1;
          m = (if mp < 10 then mp + 3 else mp - 9);
          y = yoe + era * 400 + (if m \<le> 2 then 1 else 0)
      in (y, m, d))"

definition padInt :: "nat \<Rightarrow> int \<Rightarrow> string" where
  "padInt w n =
     (let ds = natDec (nat \<bar>n\<bar>)
      in (if n < 0 then ''-'' else '''') @ replicate (w - length ds) (CHR ''0'') @ ds)"

definition fracNano :: "int \<Rightarrow> string" where
  "fracNano ns = (if ns = 0 then '''' else CHR ''.'' # TrimRightZero (padInt 9 ns))"

definition formatRFC3339Nano :: "time \<Rightarrow> string" where
  "formatRFC3339Nano t =
     (let day = t div ns_per_day; tod = t mod ns_per_day; sec = tod div 1000000000; ns = tod mod 1000000000
      in case civilDate day of (y, m, d) \<Rightarrow>
           padInt 4 y @ ''-'' @ padInt 2 m @ ''-'' @ padInt 2 d @ ''T''
           @ padInt 2 (sec div 3600) @ '':'' @ padInt 2 (sec div 60 mod 60) @ '':'' @ padInt 2 (sec mod 60)
           @ fracNano ns @ ''Z'')"

subsection \<open>Strings: json.Marshal of a string\<close>

definition escapeByte :: "nat \<Rightarrow> string" where
  "escapeByte b =
     (if b = 92 \<or> b = 34 then [CHR 0x5C, char_of b]
      else if b = 8 then [CHR 0x5C, CHR ''b'']
      else if b = 12 then [CHR 0x5C, CHR ''f'']
      else if b = 10 then [CHR 0x5C, CHR ''n'']
      else if b = 13 then [CHR 0x5C, CHR ''r'']
      else if b = 9 then [CHR 0x5C, CHR ''t'']
      else if b < 32 \<or> b = 60 \<or> b = 62 \<or> b = 38
        then CHR 0x5C # ''u00'' @ [hexLower (b div 16), hexLower (b mod 16)]
      else [char_of b])"

definition escapeRune :: "nat \<Rightarrow> nat \<Rightarrow> nat list \<Rightarrow> string" where
  \<comment> \<open>the rune \<open>r\<close> of width \<open>w\<close> at the head of the bytes\<close>
  "escapeRune r w bs =
     (if r < 128 \<and> w = 1 then escapeByte r
      else if r = rune_error \<and> w = 1 then CHR 0x5C # ''ufffd''
      else if r = 8232 \<or> r = 8233 then CHR 0x5C # ''u202'' @ [hexLower (r mod 16)]
      else map char_of (take w bs))"

function escapeB :: "nat list \<Rightarrow> string" where
  "escapeB bs = (if bs = [] then [] else
     (case decodeRune bs of (r, w) \<Rightarrow> escapeRune r w bs @ escapeB (drop w bs)))"
  by pat_completeness auto
termination
proof (relation "measure length", goal_cases)
  case 1
  show ?case by simp
next
  case (2 bs r w)
  then have "1 \<le> w \<and> w \<le> length bs" using decodeRune_width [of bs] by (metis snd_conv)
  then show ?case by simp linarith
qed

declare escapeB.simps [simp del]

definition writeString :: "string \<Rightarrow> string" where
  "writeString s = CHR 0x22 # escapeB (map byte_of s) @ [CHR 0x22]"

subsection \<open>Values and struct fields\<close>

datatype sfield = StructField (sf_Name: string) (sf_Exported: bool) (sf_Tag: string)

datatype gval =
    VInvalid
  | VRef "gval option"
  | VTime int
  | VNumber string
  | VString string
  | VBool bool
  | VInt int
  | VUint nat
  | VFloat nat gofloat
  | VSlice "gval list option"
  | VArray "gval list"
  | VMap bool "(string \<times> gval) list option"
  | VStruct "(sfield \<times> gval) list"
  | VUnsupported string

definition jsonFieldName :: "sfield \<Rightarrow> string \<times> bool" where
  "jsonFieldName sf =
     (if sf_Tag sf = ''-'' then ('''', False)
      else
        let parts = SplitByte (CHR '','') (sf_Tag sf);
            name = (if hd parts = '''' then sf_Name sf else hd parts)
        in (name, ''omitempty'' \<in> set (tl parts)))"

fun jsonIsEmptyValue :: "gval \<Rightarrow> bool" where
  "jsonIsEmptyValue (VArray xs) = (xs = [])"
| "jsonIsEmptyValue (VMap _ m) = (m = None \<or> m = Some [])"
| "jsonIsEmptyValue (VSlice xs) = (xs = None \<or> xs = Some [])"
| "jsonIsEmptyValue (VString s) = (s = '''')"
| "jsonIsEmptyValue (VNumber s) = (s = '''')"
| "jsonIsEmptyValue (VBool b) = (\<not> b)"
| "jsonIsEmptyValue (VInt i) = (i = 0)"
| "jsonIsEmptyValue (VUint n) = (n = 0)"
| "jsonIsEmptyValue (VFloat _ f) = (case f of FFin _ m _ \<Rightarrow> m = 0 | _ \<Rightarrow> False)"
| "jsonIsEmptyValue (VRef r) = (r = None)"
| "jsonIsEmptyValue _ = False"

subsection \<open>writeCanonical\<close>

fun joinCommas :: "string result list \<Rightarrow> string result" where
  "joinCommas [] = Inr ''''"
| "joinCommas [r] = r"
| "joinCommas (r # r' # rs) = rbind r (\<lambda>x. rbind (joinCommas (r' # rs)) (\<lambda>y. Inr (x @ '','' @ y)))"

definition writeMember :: "string \<times> string result \<Rightarrow> string result" where
  "writeMember kr = rbind (snd kr) (\<lambda>v. Inr (writeString (fst kr) @ '':'' @ v))"

definition less_key :: "string \<times> 'a \<Rightarrow> string \<times> 'a \<Rightarrow> bool" where
  "less_key a b \<longleftrightarrow> fst a < fst b"

definition writeObject :: "(string \<times> string result) list \<Rightarrow> string result" where
  "writeObject kvs =
     rbind (joinCommas (map writeMember (sort_slice less_key kvs))) (\<lambda>body. Inr (''{'' @ body @ ''}''))"

definition writeArray :: "string result list \<Rightarrow> string result" where
  "writeArray rs = rbind (joinCommas rs) (\<lambda>body. Inr (''['' @ body @ '']''))"

definition writeFloat :: "nat \<Rightarrow> gofloat \<Rightarrow> string result" where
  "writeFloat bits f =
     (case f of
        FFin neg m e \<Rightarrow> if m = 0 then Inr ''0'' else Inr (formatFloatF bits neg m e)
      | _ \<Rightarrow> Inl (Err ErrOther ''non-finite number is not valid JSON''))"

text \<open>The fields of a struct that are emitted: exported, not tagged away, not empty under omitempty.\<close>

definition fieldEntry :: "sfield \<Rightarrow> gval \<Rightarrow> 'a \<Rightarrow> (string \<times> 'a) list" where
  "fieldEntry sf v r =
     (if \<not> sf_Exported sf then []
      else (case jsonFieldName sf of (name, omit) \<Rightarrow>
              if name = '''' then [] else if omit \<and> jsonIsEmptyValue v then [] else [(name, r)]))"

fun writeCanonical :: "gval \<Rightarrow> string result" where
  "writeCanonical VInvalid = Inr ''null''"
| "writeCanonical (VRef None) = Inr ''null''"
| "writeCanonical (VRef (Some v)) = writeCanonical v"
| "writeCanonical (VTime t) = Inr (writeString (formatRFC3339Nano t))"
| "writeCanonical (VNumber s) = writeNumber s"
| "writeCanonical (VString s) = Inr (writeString s)"
| "writeCanonical (VBool b) = Inr (if b then ''true'' else ''false'')"
| "writeCanonical (VInt i) = Inr (itoa i)"
| "writeCanonical (VUint n) = Inr (natDec n)"
| "writeCanonical (VFloat bits f) = writeFloat bits f"
| "writeCanonical (VSlice None) = Inr ''null''"
| "writeCanonical (VSlice (Some vs)) = writeArray (map (\<lambda>v. writeCanonical v) vs)"
| "writeCanonical (VArray vs) = writeArray (map (\<lambda>v. writeCanonical v) vs)"
| "writeCanonical (VMap string_keys m) =
     (if \<not> string_keys then Inl (Err ErrOther ''canonical maps require string keys'')
      else (case m of
              None \<Rightarrow> Inr ''null''
            | Some kvs \<Rightarrow> writeObject (map (\<lambda>kv. (fst kv, writeCanonical (snd kv))) kvs)))"
| "writeCanonical (VStruct fs) =
     writeObject (concat (map (\<lambda>fv. fieldEntry (fst fv) (snd fv) (writeCanonical (snd fv))) fs))"
| "writeCanonical (VUnsupported t) = Inl (Err ErrOther ''unsupported canonical type'')"

definition CanonicalJSON :: "gval \<Rightarrow> string result" where
  "CanonicalJSON v = writeCanonical v"

subsection \<open>Map order does not matter\<close>

text \<open>
  Two values that hold the same data, with the entries of every map at every depth in any order.
\<close>

inductive same_value :: "gval \<Rightarrow> gval \<Rightarrow> bool" where
  same_refl: "same_value v v"
| same_ref: "same_value v w \<Longrightarrow> same_value (VRef (Some v)) (VRef (Some w))"
| same_slice: "list_all2 same_value vs ws \<Longrightarrow> same_value (VSlice (Some vs)) (VSlice (Some ws))"
| same_array: "list_all2 same_value vs ws \<Longrightarrow> same_value (VArray vs) (VArray ws)"
| same_map:
    "list_all2 (\<lambda>a b. fst a = fst b \<and> same_value (snd a) (snd b)) kvs lws \<Longrightarrow> mset lws = mset kws \<Longrightarrow>
     wf_map kvs \<Longrightarrow> same_value (VMap b (Some kvs)) (VMap b (Some kws))"
| same_struct:
    "list_all2 (\<lambda>a b. fst a = fst b \<and> same_value (snd a) (snd b)) fs gs \<Longrightarrow> same_value (VStruct fs) (VStruct gs)"

lemma less_key_alt: "less_key = (\<lambda>a b. fst a < fst b)"
  by (intro ext) (simp add: less_key_def)

lemma writeObject_perm: "mset xs = mset ys \<Longrightarrow> wf_map ys \<Longrightarrow> writeObject xs = writeObject ys"
  unfolding writeObject_def less_key_alt wf_map_def
  by (simp add: sort_slice_perm [of xs ys fst] distinct_map)

lemma same_value_empty: "same_value v w \<Longrightarrow> jsonIsEmptyValue v = jsonIsEmptyValue w"
proof (induction rule: same_value.induct)
  case (same_map kvs lws kws b)
  have "length kvs = length kws"
    using list_all2_lengthD [OF same_map(1)] arg_cong [OF same_map(2), of size] by simp
  then show ?case by (cases kvs; cases kws) simp_all
next
  case (same_slice vs ws)
  from list_all2_lengthD [OF this] show ?case by (cases vs; cases ws) simp_all
next
  case (same_array vs ws)
  from list_all2_lengthD [OF this] show ?case by (cases vs; cases ws) simp_all
qed simp_all

lemma fieldEntry_cong:
  "jsonIsEmptyValue v = jsonIsEmptyValue w \<Longrightarrow> fieldEntry sf v r = fieldEntry sf w r"
  unfolding fieldEntry_def by (simp split: prod.split)

lemma writeCanonical_same: "same_value v w \<Longrightarrow> writeCanonical v = writeCanonical w"
proof (induction rule: same_value.induct)
  case (same_slice vs ws)
  then have "map writeCanonical vs = map writeCanonical ws" by (induction rule: list_all2_induct) auto
  then show ?case by simp
next
  case (same_array vs ws)
  then have "map writeCanonical vs = map writeCanonical ws" by (induction rule: list_all2_induct) auto
  then show ?case by simp
next
  case (same_map kvs lws kws b)
  let ?f = "\<lambda>kv. (fst kv, writeCanonical (snd kv))"
  have eq: "map ?f kvs = map ?f lws" using same_map(1) by (induction rule: list_all2_induct) auto
  have "map fst kvs = map fst lws" using eq by (metis (no_types, lifting) fst_conv list.map_comp map_eq_conv comp_apply)
  then have "distinct (map fst kws)"
    using same_map(2,3) by (metis mset_eq_imp_distinct_iff mset_map wf_map_def)
  then have wf: "wf_map (map ?f kws)" by (simp add: wf_map_def comp_def)
  have "mset (map ?f kvs) = mset (map ?f kws)" using eq same_map(2) by simp
  from writeObject_perm [OF this wf] show ?case
    by (simp only: writeCanonical.simps option.case)
next
  case (same_struct fs gs)
  then have "map (\<lambda>fv. fieldEntry (fst fv) (snd fv) (writeCanonical (snd fv))) fs
    = map (\<lambda>fv. fieldEntry (fst fv) (snd fv) (writeCanonical (snd fv))) gs"
  proof (induction rule: list_all2_induct)
    case (Cons f fs g gs)
    then show ?case using fieldEntry_cong [OF same_value_empty, of "snd f" "snd g"] by simp
  qed simp
  then show ?case by simp
qed simp_all

subsection \<open>Properties\<close>

text \<open>
  One value, one text. A \<open>json.Number\<close> that \<open>writeCanonical\<close> accepts prints the bytes of the Go
  integer it equals, and the bytes of the Go float whose shortest decimal it equals.
\<close>

lemma number_representations:
  assumes "writeCanonical (VNumber s) = Inr out"
  shows "(numberValue s = Some (of_int i) \<longrightarrow> writeCanonical (VInt i) = Inr out)
    \<and> (0 < m \<and> numberValue s = Some (floatDecimal bits neg m e)
         \<longrightarrow> writeCanonical (VFloat bits (FFin neg m e)) = Inr out)"
  using assms writeNumber_int [of s out i] writeNumber_float [of s out m bits neg e]
  by (auto simp: writeFloat_def)

text \<open>
  C29. Map order. Two values that hold the same data, whatever order the maps at any depth are ranged
  over in, have the same canonical JSON.
\<close>

theorem canonical_json_map_order:
  assumes "same_value v w"
  shows "CanonicalJSON v = CanonicalJSON w"
  using writeCanonical_same [OF assms] by (simp add: CanonicalJSON_def)

theorem canonical_json_map_order_witness:
  "CanonicalJSON (VMap True (Some [(''b'', VInt 2), (''a'', VBool True)])) = Inr (''{'' @ writeString ''a'' @ '':true,'' @ writeString ''b'' @ '':2}'')
   \<and> CanonicalJSON (VMap True (Some [(''b'', VInt 2), (''a'', VBool True)]))
       = CanonicalJSON (VMap True (Some [(''a'', VBool True), (''b'', VInt 2)]))"
proof -
  have "same_value (VMap True (Some [(''b'', VInt 2), (''a'', VBool True)]))
          (VMap True (Some [(''a'', VBool True), (''b'', VInt 2)]))"
    by (rule same_map [where lws = "[(''b'', VInt 2), (''a'', VBool True)]"])
      (auto simp: wf_map_def same_refl)
  from canonical_json_map_order [OF this] show ?thesis
    by (intro conjI) code_simp
qed

end
