(* ===== verification/Readback.thy ===== *)
theory Readback
  imports Canonical
begin

section \<open>Reading canonical JSON back\<close>

text \<open>
  Canonical JSON is what digests and hashes are computed over, so two values must not share one text.
  The theory shows that a text has one reading: a quoted string ends where its writer ended it and
  reads back as the runes that were written, and values with equal text have equal normal form (the
  tree of literals, strings, arrays and objects with sorted members).
\<close>

subsection \<open>Strings\<close>

fun scanString :: "string \<Rightarrow> (string \<times> string) option" where
  "scanString [] = None"
| "scanString (c # cs) =
     (if c = CHR 0x22 then Some ([], cs)
      else if c = CHR 0x5C then
        (case cs of [] \<Rightarrow> None | d # ds \<Rightarrow> map_option (\<lambda>(a, b). (c # d # a, b)) (scanString ds))
      else map_option (\<lambda>(a, b). (c # a, b)) (scanString cs))"

definition balanced :: "string \<Rightarrow> bool" where
  "balanced e \<longleftrightarrow> (\<forall>rest. scanString (e @ rest) = map_option (\<lambda>(a, b). (e @ a, b)) (scanString rest))"

lemma balanced_Nil: "balanced []"
  by (simp add: balanced_def option.map_ident split_def)

lemma balanced_append: "balanced a \<Longrightarrow> balanced b \<Longrightarrow> balanced (a @ b)"
  by (simp add: balanced_def option.map_comp comp_def split_def)

lemma balanced_plain: "\<forall>c \<in> set e. c \<noteq> CHR 0x22 \<and> c \<noteq> CHR 0x5C \<Longrightarrow> balanced e"
proof (induction e)
  case Nil
  show ?case by (rule balanced_Nil)
next
  case (Cons c e)
  then show ?case by (auto simp: balanced_def option.map_comp comp_def split_def)
qed

lemma balanced_escape: "balanced e \<Longrightarrow> balanced (CHR 0x5C # d # e)"
  by (simp add: balanced_def option.map_comp comp_def split_def)

lemma decodeRune_one: "decodeRune bs = (r, 1) \<Longrightarrow> r < 128 \<or> r = rune_error"
  by (cases bs) (auto split: if_splits option.splits list.splits simp: lead_info_def)

lemma decodeRune_multi:
  assumes "decodeRune bs = (r, w)" and "2 \<le> w"
  shows "\<forall>b \<in> set (take w bs). 128 \<le> b \<and> b < 256"
  using assms
  by (cases bs) (auto simp: lead_info_def in_range_def is_cont_def split: if_splits option.splits list.splits)

lemma decodeRune_prefix:
  assumes "decodeRune bs = (r, w)" and "2 \<le> w"
  shows "decodeRune (take w bs @ x) = (r, w)"
  using assms
  by (cases bs) (auto split: if_splits option.splits list.splits)

lemma char_of_plain: "128 \<le> (b :: nat) \<Longrightarrow> b < 256 \<Longrightarrow> char_of b \<noteq> CHR 0x22 \<and> char_of b \<noteq> (CHR 0x5C :: char)"
  by (auto dest!: arg_cong [of _ _ byte_of])

lemma hexLower_plain: "d < 16 \<Longrightarrow> hexLower d \<noteq> CHR 0x22 \<and> hexLower d \<noteq> CHR 0x5C"
  by (auto simp: hexLower_def dest!: arg_cong [of _ _ byte_of])

lemma balanced_escapeByte: "b < 128 \<Longrightarrow> balanced (escapeByte b)"
proof -
  assume b: "b < 128"
  have hex: "balanced (''00'' @ [hexLower (b div 16), hexLower (b mod 16)])"
    by (rule balanced_plain) (use b hexLower_plain [of "b div 16"] hexLower_plain [of "b mod 16"] in auto)
  have plain: "balanced [char_of b]" if "b \<noteq> 34" "b \<noteq> 92"
    by (rule balanced_plain) (use that b in \<open>auto dest!: arg_cong [of _ _ byte_of]\<close>)
  show ?thesis
    using hex plain by (auto simp: escapeByte_def intro!: balanced_escape balanced_Nil)
qed

lemma decodeRune_cases:
  assumes "decodeRune bs = (r, w)" and "bs \<noteq> []"
  obtains (ascii) "w = 1" "r < 128" | (invalid) "w = 1" "r = rune_error" | (multi) "2 \<le> w"
  using assms decodeRune_width [of bs] decodeRune_one [of bs r]
  by (metis One_nat_def Suc_1 Suc_leI le_neq_implies_less snd_conv)

lemma balanced_escapeRune:
  assumes "decodeRune bs = (r, w)" and "bs \<noteq> []"
  shows "balanced (escapeRune r w bs)"
  using assms
proof (cases rule: decodeRune_cases)
  case ascii
  then show ?thesis by (simp add: escapeRune_def balanced_escapeByte)
next
  case invalid
  have "balanced ''fffd''" by (rule balanced_plain) simp
  then have "balanced (CHR 0x5C # CHR ''u'' # ''fffd'')" by (rule balanced_escape)
  then show ?thesis using invalid by (simp add: escapeRune_def rune_error_def)
next
  case multi
  have "balanced (map char_of (take w bs))"
    by (rule balanced_plain) (use decodeRune_multi [OF assms(1) multi] char_of_plain in auto)
  moreover have "balanced (''202'' @ [hexLower (r mod 16)])"
    by (rule balanced_plain) (use hexLower_plain [of "r mod 16"] in auto)
  ultimately show ?thesis
    using multi by (auto simp: escapeRune_def intro!: balanced_escape)
qed

lemma balanced_escapeB: "balanced (escapeB bs)"
proof (induction bs rule: escapeB.induct)
  case (1 bs)
  show ?case
  proof (cases "bs = []")
    case True
    then show ?thesis by (simp add: escapeB.simps balanced_Nil)
  next
    case False
    obtain r w where rw: "decodeRune bs = (r, w)" by fastforce
    then show ?thesis
      using balanced_append [OF balanced_escapeRune [OF rw False] "1.IH" [OF False rw [symmetric]]] False
      by (simp add: escapeB.simps [of bs])
  qed
qed

lemma scan_escapeB: "scanString (escapeB bs @ CHR 0x22 # rest) = Some (escapeB bs, rest)"
  using balanced_escapeB [of bs] by (simp add: balanced_def)

lemma writeString_readable:
  assumes "writeString s @ rest = writeString t @ rest'"
  shows "escapeB (map byte_of s) = escapeB (map byte_of t) \<and> rest = rest'"
proof -
  let ?s = "escapeB (map byte_of s)" let ?t = "escapeB (map byte_of t)"
  have eq: "?s @ CHR 0x22 # rest = ?t @ CHR 0x22 # rest'"
    using assms by (simp add: writeString_def)
  have "Some (?s, rest) = scanString (?s @ CHR 0x22 # rest)" by (rule scan_escapeB [symmetric])
  also have "\<dots> = Some (?t, rest')" unfolding eq by (rule scan_escapeB)
  finally show ?thesis by blast
qed

subsection \<open>Runes of an escaped string\<close>

definition hexVal :: "nat \<Rightarrow> nat" where
  "hexVal b = (if b < 58 then b - 48 else b - 87)"

definition hexQuad :: "nat list \<Rightarrow> nat" where
  "hexQuad bs = foldl (\<lambda>a b. 16 * a + hexVal b) 0 bs"

definition unescapeByte :: "nat \<Rightarrow> nat" where
  "unescapeByte b = (if b = 98 then 8 else if b = 102 then 12 else if b = 110 then 10
     else if b = 114 then 13 else if b = 116 then 9 else b)"

function readB :: "nat list \<Rightarrow> nat list" where
  "readB bs =
     (if bs = [] then []
      else if hd bs = 92 then
        (if length bs < 2 then []
         else if bs ! 1 = 117 then hexQuad (take 4 (drop 2 bs)) # readB (drop 6 bs)
         else unescapeByte (bs ! 1) # readB (drop 2 bs))
      else (case decodeRune bs of (r, w) \<Rightarrow> r # readB (drop w bs)))"
  by pat_completeness auto
termination
proof (relation "measure length", goal_cases)
  case (4 bs r w)
  then have "1 \<le> w \<and> w \<le> length bs" using decodeRune_width [of bs] by (metis snd_conv)
  then show ?case by simp linarith
qed auto

declare readB.simps [simp del]

lemma byte_hexLower: "d < 16 \<Longrightarrow> hexVal (byte_of (hexLower d)) = d"
  by (simp add: hexVal_def hexLower_def)

lemma readB_unicode:
  "readB (92 # 117 # a # b # c # d # x) = hexQuad [a, b, c, d] # readB x"
  by (subst readB.simps) (simp add: numeral_eq_Suc)

lemma readB_simple: "c \<noteq> 117 \<Longrightarrow> readB (92 # c # x) = unescapeByte c # readB x"
  by (subst readB.simps) simp

lemma readB_escapeByte:
  assumes "b < 128"
  shows "readB (map byte_of (escapeByte b) @ x) = b # readB x"
proof -
  have plain: "readB (b # x) = b # readB x" if "b \<noteq> 92"
    using that assms by (subst readB.simps) simp
  have "b div 16 * 16 + b mod 16 = b" by simp
  then have hex: "hexQuad [48, 48, byte_of (hexLower (b div 16)), byte_of (hexLower (b mod 16))] = b"
    using assms byte_hexLower [of "b div 16"] byte_hexLower [of "b mod 16"]
    by (simp add: hexQuad_def) (simp add: hexVal_def)
  show ?thesis
    using plain assms hex
    by (auto simp: escapeByte_def readB_unicode readB_simple unescapeByte_def)
qed

lemma readB_escapeRune:
  assumes "decodeRune bs = (r, w)" and "bs \<noteq> []" and "\<forall>b \<in> set bs. b < 256"
  shows "readB (map byte_of (escapeRune r w bs) @ x) = r # readB x"
  using assms(1,2)
proof (cases rule: decodeRune_cases)
  case ascii
  then show ?thesis by (simp add: escapeRune_def readB_escapeByte)
next
  case invalid
  have "hexQuad [102, 102, 102, 100] = 65533" by (simp add: hexQuad_def hexVal_def)
  then show ?thesis using invalid by (simp add: escapeRune_def rune_error_def readB_unicode)
next
  case multi
  have sep: "hexQuad [50, 48, 50, byte_of (hexLower (r mod 16))] = r" if "r = 8232 \<or> r = 8233"
    using that by (auto simp: hexQuad_def hexVal_def hexLower_def)
  let ?b = "take w bs"
  have "map (\<lambda>b. byte_of (char_of b)) ?b = ?b"
    by (rule map_idI) (use assms(3) in \<open>auto dest: in_set_takeD\<close>)
  moreover have "readB (?b @ x) = r # readB x"
  proof -
    have ne: "?b \<noteq> []" using multi assms(2) by simp
    then have "hd ?b \<in> set ?b" by (rule hd_in_set)
    then have "128 \<le> hd ?b" using decodeRune_multi [OF assms(1) multi] by blast
    then have "?b @ x \<noteq> []" "hd (?b @ x) \<noteq> 92" using ne by auto
    moreover have "w = length ?b" using decodeRune_width [OF assms(2)] assms(1) by simp
    ultimately show ?thesis
      using decodeRune_prefix [OF assms(1) multi, of x] by (subst readB.simps) simp
  qed
  ultimately show ?thesis
    using multi sep by (auto simp: escapeRune_def readB_unicode comp_def)
qed

theorem readB_escapeB: "\<forall>b \<in> set bs. b < 256 \<Longrightarrow> readB (map byte_of (escapeB bs)) = runesB bs"
proof (induction bs rule: escapeB.induct)
  case (1 bs)
  show ?case
  proof (cases "bs = []")
    case True
    then show ?thesis by (simp add: escapeB.simps runesB.simps readB.simps)
  next
    case False
    obtain r w where rw: "decodeRune bs = (r, w)" by fastforce
    have "readB (map byte_of (escapeB (drop w bs))) = runesB (drop w bs)"
      using "1.IH" [OF False rw [symmetric]] "1.prems" by (auto dest: in_set_dropD)
    then show ?thesis
      using readB_escapeRune [OF rw False "1.prems"] rw False
      by (simp add: escapeB.simps [of bs] runesB.simps [of bs])
  qed
qed

lemma escape_runes: "escapeB (map byte_of s) = escapeB (map byte_of t) \<Longrightarrow> runes s = runes t"
  unfolding runes_def
  using readB_escapeB [of "map byte_of s"] readB_escapeB [of "map byte_of t"] by simp

text \<open>A string whose bytes are all ASCII is its runes.\<close>

definition ascii :: "string \<Rightarrow> bool" where
  "ascii s \<longleftrightarrow> (\<forall>c \<in> set s. byte_of c < 128)"

lemma runes_ascii_inj: "ascii s \<Longrightarrow> ascii t \<Longrightarrow> runes s = runes t \<Longrightarrow> s = t"
  unfolding runes_def ascii_def
  using runesB_ascii [of "map byte_of s"] runesB_ascii [of "map byte_of t"]
  by (simp add: inj_map_eq_map inj_on_def)

subsection \<open>Values\<close>

datatype jnorm = JLit string | JStr string | JArr "jnorm list" | JObj "(string \<times> jnorm) list"

fun intercal :: "string list \<Rightarrow> string" where
  "intercal [] = []"
| "intercal [x] = x"
| "intercal (x # y # xs) = x @ '','' @ intercal (y # xs)"

fun jprint :: "jnorm \<Rightarrow> string" where
  "jprint (JLit s) = s"
| "jprint (JStr e) = CHR 0x22 # e @ [CHR 0x22]"
| "jprint (JArr xs) = ''['' @ intercal (map (\<lambda>x. jprint x) xs) @ '']''"
| "jprint (JObj kvs) = ''{'' @ intercal (map (\<lambda>kv. CHR 0x22 # fst kv @ CHR 0x22 # '':'' @ jprint (snd kv)) kvs) @ ''}''"

definition delims :: "char set" where
  "delims = {CHR '','', CHR '']'', CHR ''}''}"

fun wfj :: "jnorm \<Rightarrow> bool" where
  "wfj (JLit s) = (s \<noteq> [] \<and> hd s \<notin> {CHR 0x22, CHR ''['', CHR ''{''} \<and> set s \<inter> delims = {})"
| "wfj (JStr e) = balanced e"
| "wfj (JArr xs) = (\<forall>x \<in> set xs. wfj x)"
| "wfj (JObj kvs) = (\<forall>kv \<in> set kvs. balanced (fst kv) \<and> wfj (snd kv))"

definition ends :: "string \<Rightarrow> bool" where
  "ends r \<longleftrightarrow> r = [] \<or> hd r \<in> delims"

definition readsAs :: "('a \<Rightarrow> string) \<Rightarrow> ('a \<Rightarrow> bool) \<Rightarrow> 'a \<Rightarrow> bool" where
  "readsAs p ok a \<longleftrightarrow>
     (\<forall>b r r'. ok b \<longrightarrow> p a @ r = p b @ r' \<longrightarrow> ends r \<longrightarrow> ends r' \<longrightarrow> a = b \<and> r = r')"

lemma readsAsD:
  "readsAs p ok a \<Longrightarrow> ok b \<Longrightarrow> p a @ r = p b @ r' \<Longrightarrow> ends r \<Longrightarrow> ends r' \<Longrightarrow> a = b \<and> r = r'"
  by (simp add: readsAs_def)

lemma balanced_readable:
  assumes "balanced e" and "balanced e'" and "e @ CHR 0x22 # r = e' @ CHR 0x22 # r'"
  shows "e = e' \<and> r = r'"
proof -
  have "Some (e, r) = scanString (e @ CHR 0x22 # r)" using assms(1) by (simp add: balanced_def)
  also have "\<dots> = scanString (e' @ CHR 0x22 # r')" using assms(3) by simp
  also have "\<dots> = Some (e', r')" using assms(2) by (simp add: balanced_def)
  finally show ?thesis by simp
qed

lemma jprint_hd: "wfj j \<Longrightarrow> jprint j \<noteq> [] \<and> hd (jprint j) \<notin> delims"
  by (cases j) (auto simp: delims_def dest: hd_in_set)

lemma literal_readable:
  "set s \<inter> delims = {} \<Longrightarrow> set t \<inter> delims = {} \<Longrightarrow> s @ r = t @ r' \<Longrightarrow> ends r \<Longrightarrow> ends r' \<Longrightarrow> s = t \<and> r = r'"
proof (induction s arbitrary: t)
  case Nil
  then show ?case by (cases t; cases r) (auto simp: ends_def)
next
  case (Cons c s)
  show ?case
  proof (cases t)
    case Nil
    then have "r' = c # s @ r" using Cons.prems(3) by simp
    then show ?thesis using Cons.prems(1,5) by (simp add: ends_def)
  next
    case (Cons d t')
    then have "s @ r = t' @ r'" "c = d" "set s \<inter> delims = {}" "set t' \<inter> delims = {}"
      using Cons.prems by auto
    then show ?thesis using Cons.IH [of t'] Cons Cons.prems(4,5) by simp
  qed
qed

text \<open>A comma-separated list between brackets has one reading when its items have.\<close>

lemma intercal_readable:
  assumes hd: "\<And>y. ok y \<Longrightarrow> p y \<noteq> [] \<and> hd (p y) \<notin> delims" and c: "c = CHR '']'' \<or> c = CHR ''}''"
  shows "\<forall>x \<in> set xs. ok x \<and> readsAs p ok x \<Longrightarrow> \<forall>y \<in> set ys. ok y \<Longrightarrow>
     intercal (map p xs) @ c # r = intercal (map p ys) @ c # r' \<Longrightarrow> xs = ys \<and> r = r'"
proof (induction xs arbitrary: ys)
  case Nil
  show ?case
  proof (cases ys)
    case (Cons y zs)
    have "intercal (map p ys) \<noteq> [] \<and> hd (intercal (map p ys)) = hd (p y)"
      using Cons hd [of y] Nil.prems(2) by (cases zs) auto
    then have "hd (p y) = c" using Nil.prems(3) by (metis append_self_conv2 hd_append2 intercal.simps(1) list.sel(1) list.simps(8))
    then show ?thesis using hd [of y] Nil.prems(2) Cons c by (auto simp: delims_def)
  qed (use Nil in auto)
next
  case (Cons x xs)
  have okx: "ok x" "readsAs p ok x" using Cons.prems by auto
  let ?xr = "(if xs = [] then c # r else CHR '','' # intercal (map p xs) @ c # r)"
  have px: "intercal (map p (x # xs)) @ c # r = p x @ ?xr" by (cases xs) auto
  have endx: "ends ?xr" using c by (auto simp: ends_def delims_def)
  show ?case
  proof (cases ys)
    case Nil
    then have "hd (p x) = c" using Cons.prems(3) hd [OF okx(1)] px by (metis append_Nil hd_append2 intercal.simps(1) list.sel(1) list.simps(8))
    then show ?thesis using hd [OF okx(1)] c by (auto simp: delims_def)
  next
    case (Cons y zs)
    let ?yr = "(if zs = [] then c # r' else CHR '','' # intercal (map p zs) @ c # r')"
    have py: "intercal (map p ys) @ c # r' = p y @ ?yr" using Cons by (cases zs) auto
    have endy: "ends ?yr" using c by (auto simp: ends_def delims_def)
    have "p x @ ?xr = p y @ ?yr" using Cons.prems(3) px py by simp
    moreover have "ok y" using Cons Cons.prems(2) by simp
    ultimately have xy: "x = y" "?xr = ?yr"
      using readsAsD [OF okx(2) _ _ endx endy] by blast+
    have comma: "c \<noteq> CHR '',''" using c by auto
    show ?thesis
    proof (cases "xs = [] \<or> zs = []")
      case True
      then show ?thesis using xy comma Cons by (auto split: if_splits)
    next
      case False
      then have "intercal (map p xs) @ c # r = intercal (map p zs) @ c # r'" using xy(2) by simp
      then show ?thesis using Cons.IH [of zs] Cons.prems(1,2) Cons xy(1) by auto
    qed
  qed
qed

lemma jprint_shape:
  "wfj j \<Longrightarrow> (hd (jprint j) = CHR 0x22 \<longleftrightarrow> (\<exists>e. j = JStr e))
     \<and> (hd (jprint j) = CHR ''['' \<longleftrightarrow> (\<exists>xs. j = JArr xs)) \<and> (hd (jprint j) = CHR ''{'' \<longleftrightarrow> (\<exists>kvs. j = JObj kvs))"
  by (cases j) auto

lemma jprint_same_shape:
  assumes "wfj a" and "wfj b" and "jprint a @ r = jprint b @ r'"
  shows "hd (jprint a) = hd (jprint b)"
  using assms jprint_hd [of a] jprint_hd [of b] by (metis hd_append2)

definition pmember :: "string \<times> jnorm \<Rightarrow> string" where
  "pmember kv = CHR 0x22 # fst kv @ CHR 0x22 # '':'' @ jprint (snd kv)"

definition okmember :: "string \<times> jnorm \<Rightarrow> bool" where
  "okmember kv \<longleftrightarrow> balanced (fst kv) \<and> wfj (snd kv)"

lemma readsAs_member:
  assumes "balanced k" and "readsAs jprint wfj j"
  shows "readsAs pmember okmember (k, j)"
  unfolding readsAs_def
proof (intro allI impI)
  fix b r r' assume b: "okmember b" and eq: "pmember (k, j) @ r = pmember b @ r'" and e: "ends r" "ends r'"
  have "k = fst b \<and> CHR '':'' # jprint j @ r = CHR '':'' # jprint (snd b) @ r'"
    by (rule balanced_readable) (use assms(1) b eq in \<open>auto simp: okmember_def pmember_def\<close>)
  then show "(k, j) = b \<and> r = r'"
    using readsAsD [OF assms(2) _ _ e, of "snd b"] b by (auto simp: okmember_def)
qed

theorem jprint_readable: "wfj a \<Longrightarrow> readsAs jprint wfj a"
proof (induction a)
  case (JLit s)
  have "JLit s = b \<and> r = r'" if b: "wfj b" "jprint (JLit s) @ r = jprint b @ r'" "ends r" "ends r'" for b r r'
  proof -
    have "hd s = hd (jprint b)" using jprint_same_shape [OF JLit b(1,2)] by simp
    then obtain t where t: "b = JLit t" using JLit jprint_shape [OF b(1)] by (cases b) auto
    then show ?thesis using literal_readable [of s t r r'] JLit b by simp
  qed
  then show ?case unfolding readsAs_def by blast
next
  case (JStr e)
  have "JStr e = b \<and> r = r'" if b: "wfj b" "jprint (JStr e) @ r = jprint b @ r'" "ends r" "ends r'" for b r r'
  proof -
    obtain t where t: "b = JStr t" using jprint_same_shape [OF JStr b(1,2)] jprint_shape [OF b(1)] by auto
    then show ?thesis using balanced_readable [of e t r r'] JStr b by simp
  qed
  then show ?case unfolding readsAs_def by blast
next
  case (JArr xs)
  have "JArr xs = b \<and> r = r'" if b: "wfj b" "jprint (JArr xs) @ r = jprint b @ r'" "ends r" "ends r'" for b r r'
  proof -
    obtain ys where t: "b = JArr ys" using jprint_same_shape [OF JArr.prems b(1,2)] jprint_shape [OF b(1)] by auto
    have "xs = ys \<and> r = r'"
      by (rule intercal_readable [where p = jprint and ok = wfj and c = "CHR '']''"])
        (use JArr b t jprint_hd in auto)
    then show ?thesis using t by simp
  qed
  then show ?case unfolding readsAs_def by blast
next
  case (JObj kvs)
  have "JObj kvs = b \<and> r = r'" if b: "wfj b" "jprint (JObj kvs) @ r = jprint b @ r'" "ends r" "ends r'" for b r r'
  proof -
    obtain ys where t: "b = JObj ys" using jprint_same_shape [OF JObj.prems b(1,2)] jprint_shape [OF b(1)] by auto
    have items: "okmember kv \<and> readsAs pmember okmember kv" if "kv \<in> set kvs" for kv
      using that JObj readsAs_member [of "fst kv" "snd kv"]
      by (auto simp: okmember_def snds.simps)
    have "kvs = ys \<and> r = r'"
    proof (rule intercal_readable [where p = pmember and ok = okmember and c = "CHR ''}''"])
      show "pmember y \<noteq> [] \<and> hd (pmember y) \<notin> delims" for y by (simp add: pmember_def delims_def)
      show "\<forall>y \<in> set ys. okmember y" using b(1) t by (auto simp: okmember_def)
      show "intercal (map pmember kvs) @ CHR ''}'' # r = intercal (map pmember ys) @ CHR ''}'' # r'"
        using b(2) t by (simp add: pmember_def [abs_def])
    qed (use items in auto)
    then show ?thesis using t by simp
  qed
  then show ?case unfolding readsAs_def by blast
qed

lemma jprint_inj: "wfj a \<Longrightarrow> wfj b \<Longrightarrow> jprint a = jprint b \<Longrightarrow> a = b"
  using readsAsD [OF jprint_readable, of a b "[]" "[]"] by (simp add: ends_def)

subsection \<open>The normal form of a value\<close>

definition esc :: "string \<Rightarrow> string" where
  "esc s = escapeB (map byte_of s)"

definition members :: "(string \<times> jnorm) list \<Rightarrow> jnorm" where
  "members kvs = JObj (map (\<lambda>kv. (esc (fst kv), snd kv)) (sort_slice less_key kvs))"

definition text_of :: "string result \<Rightarrow> string" where
  "text_of r = (case r of Inr s \<Rightarrow> s | Inl _ \<Rightarrow> [])"

fun normV :: "gval \<Rightarrow> jnorm" where
  "normV (VRef (Some v)) = normV v"
| "normV (VTime t) = JStr (esc (formatRFC3339Nano t))"
| "normV (VString s) = JStr (esc s)"
| "normV (VSlice (Some vs)) = JArr (map (\<lambda>v. normV v) vs)"
| "normV (VArray vs) = JArr (map (\<lambda>v. normV v) vs)"
| "normV (VMap b (Some kvs)) = members (map (\<lambda>kv. (fst kv, normV (snd kv))) kvs)"
| "normV (VStruct fs) = members (concat (map (\<lambda>fv. fieldEntry (fst fv) (snd fv) (normV (snd fv))) fs))"
| "normV v = JLit (text_of (writeCanonical v))"

subsubsection \<open>Literals\<close>

definition number_chars :: "string \<Rightarrow> bool" where
  "number_chars s \<longleftrightarrow> s \<noteq> [] \<and> (\<forall>c \<in> set s. is_digit c \<or> c = CHR ''-'' \<or> c = CHR ''.'')"

lemma not_digits [simp]:
  "\<not> is_digit (CHR 0x22)" "\<not> is_digit (CHR ''['')" "\<not> is_digit (CHR ''{'')"
  "\<not> is_digit (CHR '','')" "\<not> is_digit (CHR '']'')" "\<not> is_digit (CHR ''}'')"
  by (simp_all add: is_digit_def)

lemma number_chars_wfj: "number_chars s \<Longrightarrow> wfj (JLit s)"
proof -
  assume n: "number_chars s"
  then have "is_digit (hd s) \<or> hd s = CHR ''-'' \<or> hd s = CHR ''.''" by (simp add: number_chars_def)
  then have "hd s \<notin> {CHR 0x22, CHR ''['', CHR ''{''}" by auto
  moreover have "set s \<inter> delims = {}" using n by (fastforce simp: number_chars_def delims_def)
  ultimately show ?thesis using n by (simp add: number_chars_def)
qed

lemma number_chars_natDec: "number_chars (natDec n)"
  using natDec_digits [of n] by (simp add: number_chars_def)

lemma number_chars_itoa: "number_chars (itoa i)"
  using natDec_digits [of "nat (- i)"] natDec_digits [of "nat i"] by (simp add: number_chars_def itoa_def)

lemma number_chars_formatDecimalF: "number_chars (formatDecimalF neg d k)"
  using natDec_digits [of d]
  by (auto simp: number_chars_def formatDecimalF_def Let_def dest: in_set_takeD in_set_dropD)

lemma number_chars_writeScaled:
  assumes "digits_only ds" and "ds \<noteq> []" and "writeScaled neg ds sc = Inr out"
  shows "number_chars out"
proof -
  let ?n = "nat (int (length ds) - sc)"
  have "digits_only (take ?n ds)" "digits_only (drop ?n ds)"
    using assms(1) by (auto dest: in_set_takeD in_set_dropD)
  then show ?thesis
    using assms by (auto simp: number_chars_def writeScaled_def Let_def split: if_splits)
qed

lemma number_chars_writeNumber: "writeNumber s = Inr out \<Longrightarrow> number_chars out"
proof (erule writeNumber_cases)
  assume "out = ''0''" then show ?thesis by (simp add: number_chars_def)
next
  fix neg ds sc assume "coefficient ds" "writeScaled neg ds sc = Inr out"
  then show ?thesis by (auto simp: coefficient_def intro: number_chars_writeScaled)
qed

lemma wfj_words: "wfj (JLit ''null'')" "wfj (JLit ''true'')" "wfj (JLit ''false'')" "wfj (JLit ''0'')"
  by (simp_all add: delims_def)

subsubsection \<open>Composition\<close>

lemma joinCommas_Inr:
  "joinCommas rs = Inr s \<Longrightarrow> (\<forall>r \<in> set rs. \<exists>x. r = Inr x) \<and> s = intercal (map text_of rs)"
  by (induction rs arbitrary: s rule: joinCommas.induct) (auto simp: rbind_eq_Inr text_of_def)

lemma insert_less_map:
  "(\<And>a b. lt (f a) (f b) = lt' a b) \<Longrightarrow> insert_less lt (f x) (map f ys) = map f (insert_less lt' x ys)"
  by (induction ys) auto

lemma sort_slice_map: "(\<And>a b. lt (f a) (f b) = lt' a b) \<Longrightarrow> sort_slice lt (map f ys) = map f (sort_slice lt' ys)"
  by (induction ys) (simp_all add: insert_less_map)

lemma balanced_esc [simp]: "balanced (esc s)"
  by (simp add: esc_def balanced_escapeB)

lemma writeString_esc: "writeString s = CHR 0x22 # esc s @ [CHR 0x22]"
  by (simp add: writeString_def esc_def)

text \<open>Writing an object prints the tree of its sorted members.\<close>

lemma writeObject_norm:
  assumes w: "writeObject (map (\<lambda>e. (key e, res e)) es) = Inr s"
    and item: "\<And>e x. e \<in> set es \<Longrightarrow> res e = Inr x \<Longrightarrow> x = jprint (nf e) \<and> wfj (nf e)"
  shows "s = jprint (members (map (\<lambda>e. (key e, nf e)) es)) \<and> wfj (members (map (\<lambda>e. (key e, nf e)) es))"
proof -
  let ?lt = "\<lambda>a b. key a < key b" let ?ss = "sort_slice ?lt es"
  have so: "sort_slice less_key (map (\<lambda>e. (key e, res e)) es) = map (\<lambda>e. (key e, res e)) ?ss"
    "sort_slice less_key (map (\<lambda>e. (key e, nf e)) es) = map (\<lambda>e. (key e, nf e)) ?ss"
    by (rule sort_slice_map, simp add: less_key_def)+
  obtain body where j: "joinCommas (map writeMember (map (\<lambda>e. (key e, res e)) ?ss)) = Inr body"
    and s: "s = ''{'' @ body @ ''}''"
    using w by (auto simp: writeObject_def so rbind_eq_Inr)
  have ok: "\<exists>x. res e = Inr x \<and> x = jprint (nf e) \<and> wfj (nf e)" if "e \<in> set es" for e
    using joinCommas_Inr [OF j] item that by (fastforce simp: writeMember_def rbind_eq_Inr)
  have texts: "map text_of (map writeMember (map (\<lambda>e. (key e, res e)) ?ss))
      = map (\<lambda>kv. CHR 0x22 # fst kv @ CHR 0x22 # '':'' @ jprint (snd kv)) (map (\<lambda>e. (esc (key e), nf e)) ?ss)"
    using ok by (fastforce simp: writeMember_def text_of_def writeString_esc)
  have body: "body = intercal (map (\<lambda>kv. CHR 0x22 # fst kv @ CHR 0x22 # '':'' @ jprint (snd kv)) (map (\<lambda>e. (esc (key e), nf e)) ?ss))"
    using conjunct2 [OF joinCommas_Inr [OF j]] unfolding texts .
  have mem: "members (map (\<lambda>e. (key e, nf e)) es) = JObj (map (\<lambda>e. (esc (key e), nf e)) ?ss)"
    by (simp add: members_def so comp_def)
  show ?thesis unfolding mem s body using ok by auto
qed

text \<open>The emitted fields of a struct, with their values.\<close>

definition emitted :: "(sfield \<times> gval) list \<Rightarrow> (string \<times> gval) list" where
  "emitted fs = concat (map (\<lambda>fv. fieldEntry (fst fv) (snd fv) (snd fv)) fs)"

lemma fieldEntry_map: "fieldEntry sf v (g v) = map (\<lambda>e. (fst e, g (snd e))) (fieldEntry sf v v)"
  unfolding fieldEntry_def by (auto split: prod.split)

lemma fieldEntry_emitted:
  "concat (map (\<lambda>fv. fieldEntry (fst fv) (snd fv) (g (snd fv))) fs) = map (\<lambda>e. (fst e, g (snd e))) (emitted fs)"
  unfolding emitted_def fieldEntry_map [of _ _ g] by (induction fs) auto

lemma fieldEntry_snd: "e \<in> set (fieldEntry sf v r) \<Longrightarrow> snd e = r"
  unfolding fieldEntry_def by (auto split: if_splits prod.splits)

lemma emitted_values: "e \<in> set (emitted fs) \<Longrightarrow> \<exists>fv \<in> set fs. snd e = snd fv"
  unfolding emitted_def by (auto dest: fieldEntry_snd)

lemma writeArray_norm:
  assumes "writeArray (map res vs) = Inr s"
    and "\<And>v x. v \<in> set vs \<Longrightarrow> res v = Inr x \<Longrightarrow> x = jprint (nf v) \<and> wfj (nf v)"
  shows "s = jprint (JArr (map nf vs)) \<and> wfj (JArr (map nf vs))"
proof -
  obtain body where j: "joinCommas (map res vs) = Inr body" and s: "s = ''['' @ body @ '']''"
    using assms(1) by (auto simp: writeArray_def rbind_eq_Inr)
  have ok: "res v = Inr (jprint (nf v)) \<and> wfj (nf v)" if "v \<in> set vs" for v
    using joinCommas_Inr [OF j] assms(2) that by fastforce
  have texts: "map text_of (map res vs) = map jprint (map nf vs)"
    using ok by (simp add: text_of_def)
  have "body = intercal (map jprint (map nf vs))"
    using conjunct2 [OF joinCommas_Inr [OF j]] unfolding texts .
  then show ?thesis using s ok by auto
qed

theorem writeCanonical_norm:
  "writeCanonical v = Inr s \<Longrightarrow> s = jprint (normV v) \<and> wfj (normV v)"
proof (induction v arbitrary: s rule: writeCanonical.induct)
  case (5 n)
  then show ?case using number_chars_wfj [OF number_chars_writeNumber] by (simp add: text_of_def)
next
  case (8 i)
  then show ?case using number_chars_wfj [OF number_chars_itoa] by (auto simp: text_of_def)
next
  case (9 n)
  then show ?case using number_chars_wfj [OF number_chars_natDec] by (auto simp: text_of_def)
next
  case (10 bits f)
  then show ?case
    using number_chars_wfj [OF number_chars_formatDecimalF] wfj_words
    by (auto simp: text_of_def writeFloat_def formatFloatF_def split: gofloat.splits if_splits prod.splits simp del: wfj.simps)
next
  case (12 vs)
  have "s = jprint (JArr (map normV vs)) \<and> wfj (JArr (map normV vs))"
    by (rule writeArray_norm [where res = writeCanonical]) (use 12 in auto)
  then show ?case by simp
next
  case (13 vs)
  have "s = jprint (JArr (map normV vs)) \<and> wfj (JArr (map normV vs))"
    by (rule writeArray_norm [where res = writeCanonical]) (use 13 in auto)
  then show ?case by simp
next
  case (14 b m)
  show ?case
  proof (cases m)
    case None
    then show ?thesis using 14 wfj_words by (auto simp: text_of_def split: if_splits)
  next
    case (Some kvs)
    have "s = jprint (members (map (\<lambda>kv. (fst kv, normV (snd kv))) kvs))
        \<and> wfj (members (map (\<lambda>kv. (fst kv, normV (snd kv))) kvs))"
      by (rule writeObject_norm [where res = "\<lambda>kv. writeCanonical (snd kv)"])
        (use 14 Some in \<open>auto split: if_splits\<close>)
    then show ?thesis using Some by simp
  qed
next
  case (15 fs)
  have "s = jprint (members (map (\<lambda>e. (fst e, normV (snd e))) (emitted fs)))
      \<and> wfj (members (map (\<lambda>e. (fst e, normV (snd e))) (emitted fs)))"
  proof (rule writeObject_norm [where res = "\<lambda>e. writeCanonical (snd e)"])
    show "writeObject (map (\<lambda>e. (fst e, writeCanonical (snd e))) (emitted fs)) = Inr s"
      using 15(2) by (simp add: fieldEntry_emitted)
    fix e x assume "e \<in> set (emitted fs)" "writeCanonical (snd e) = Inr x"
    then show "x = jprint (normV (snd e)) \<and> wfj (normV (snd e))"
      using emitted_values [of e fs] 15(1) by metis
  qed
  then show ?case by (simp add: fieldEntry_emitted)
qed (use wfj_words in \<open>auto simp: text_of_def writeString_esc simp del: wfj.simps(1)\<close>)

lemma writeCanonical_inj:
  "writeCanonical v = Inr s \<Longrightarrow> writeCanonical w = Inr s \<Longrightarrow> normV v = normV w"
  using writeCanonical_norm [of v s] writeCanonical_norm [of w s] jprint_inj by metis

subsection \<open>Fields of a struct\<close>

lemma esc_ascii_inj: "ascii s \<Longrightarrow> ascii t \<Longrightarrow> esc s = esc t \<Longrightarrow> s = t"
  unfolding esc_def by (rule runes_ascii_inj) (auto intro: escape_runes)

lemma map_key_inj:
  assumes "\<forall>a \<in> set xs. ascii (fst a)" and "\<forall>b \<in> set ys. ascii (fst b)"
    and "map (\<lambda>kv. (esc (fst kv), snd kv)) xs = map (\<lambda>kv. (esc (fst kv), snd kv)) ys"
  shows "xs = ys"
  using assms
proof (induction xs arbitrary: ys)
  case (Cons x xs)
  then obtain y zs where ys: "ys = y # zs" by (cases ys) auto
  have "esc (fst x) = esc (fst y)" "snd x = snd y" using Cons.prems(3) ys by simp_all
  then have "x = y"
    using esc_ascii_inj [of "fst x" "fst y"] Cons.prems(1,2) ys by (simp add: prod_eq_iff)
  moreover have "xs = zs" by (rule Cons.IH) (use Cons.prems ys in simp_all)
  ultimately show ?case using ys by simp
qed simp

lemma members_inj:
  assumes "members xs = members ys" and "wf_map xs" and "wf_map ys"
    and "\<forall>a \<in> set xs. ascii (fst a)" and "\<forall>b \<in> set ys. ascii (fst b)"
  shows "map_of xs = map_of ys"
proof -
  have "sort_slice less_key xs = sort_slice less_key ys"
    by (rule map_key_inj) (use assms(1,4,5) in \<open>simp_all add: members_def\<close>)
  from arg_cong [OF this, of set] have "set xs = set ys" by simp
  then show ?thesis using assms(2,3) by (simp add: wf_map_def map_of_inject_set)
qed

definition structNames :: "sfield list \<Rightarrow> bool" where
  \<comment> \<open>the fields of a Go struct as encoding/json sees them: exported, named, distinct names\<close>
  "structNames sfs \<longleftrightarrow> (\<forall>sf \<in> set sfs. sf_Exported sf \<and> fst (jsonFieldName sf) \<noteq> '''' \<and> ascii (fst (jsonFieldName sf)))
     \<and> distinct (map (\<lambda>sf. fst (jsonFieldName sf)) sfs)"

definition omitted :: "sfield \<Rightarrow> gval \<Rightarrow> bool" where
  "omitted sf v \<longleftrightarrow> snd (jsonFieldName sf) \<and> jsonIsEmptyValue v"

lemma fieldEntry_named:
  "sf_Exported sf \<Longrightarrow> fst (jsonFieldName sf) \<noteq> '''' \<Longrightarrow>
     fieldEntry sf v r = (if omitted sf v then [] else [(fst (jsonFieldName sf), r)])"
  unfolding fieldEntry_def omitted_def by (auto split: prod.split)

lemma entries_fst: "a \<in> set (emitted fs) \<Longrightarrow> structNames (map fst fs) \<Longrightarrow>
   \<exists>fv \<in> set fs. fst a = fst (jsonFieldName (fst fv)) \<and> snd a = snd fv \<and> \<not> omitted (fst fv) (snd fv)"
proof -
  assume a: "a \<in> set (emitted fs)" and n: "structNames (map fst fs)"
  then obtain fv where fv: "fv \<in> set fs" "a \<in> set (fieldEntry (fst fv) (snd fv) (snd fv))"
    by (auto simp: emitted_def)
  have "sf_Exported (fst fv)" "fst (jsonFieldName (fst fv)) \<noteq> ''''"
    using n fv(1) by (auto simp: structNames_def)
  then have "\<not> omitted (fst fv) (snd fv) \<and> a = (fst (jsonFieldName (fst fv)), snd fv)"
    using fv(2) by (simp add: fieldEntry_named split: if_splits)
  then show ?thesis using fv(1) by auto
qed

lemma wf_emitted: "structNames (map fst fs) \<Longrightarrow> wf_map (emitted fs)"
proof (induction fs)
  case Nil
  then show ?case by (simp add: emitted_def)
next
  case (Cons fv fs)
  have names: "structNames (map fst fs)" using Cons.prems by (simp add: structNames_def)
  have hd: "emitted (fv # fs) = (if omitted (fst fv) (snd fv) then [] else [(fst (jsonFieldName (fst fv)), snd fv)]) @ emitted fs"
    using Cons.prems by (simp add: emitted_def structNames_def fieldEntry_named)
  have "fst (jsonFieldName (fst fv)) \<notin> fst ` set (emitted fs)"
    using entries_fst [OF _ names] Cons.prems by (fastforce simp: structNames_def)
  then show ?case using Cons.IH [OF names] by (simp add: hd wf_map_def)
qed

lemma emitted_lookup:
  assumes "structNames (map fst fs)" and "(sf, v) \<in> set fs"
  shows "map_of (emitted fs) (fst (jsonFieldName sf)) = (if omitted sf v then None else Some v)"
  using assms
proof (induction fs)
  case (Cons fv fs)
  have names: "structNames (map fst fs)" using Cons.prems(1) by (simp add: structNames_def)
  have hd: "emitted (fv # fs) = (if omitted (fst fv) (snd fv) then [] else [(fst (jsonFieldName (fst fv)), snd fv)]) @ emitted fs"
    using Cons.prems(1) by (simp add: emitted_def structNames_def fieldEntry_named)
  have tl: "fst (jsonFieldName (fst fv)) \<notin> fst ` set (emitted fs)"
    using entries_fst [OF _ names] Cons.prems(1) by (fastforce simp: structNames_def)
  show ?case
  proof (cases "(sf, v) = fv")
    case True
    then have fv: "fst fv = sf" "snd fv = v" by auto
    have "map_of (emitted fs) (fst (jsonFieldName sf)) = None" using tl fv by (simp add: map_of_eq_None_iff)
    then show ?thesis unfolding hd fv by simp
  next
    case False
    then have mem: "(sf, v) \<in> set fs" using Cons.prems(2) by simp
    then have "fst (jsonFieldName sf) \<in> (\<lambda>fv. fst (jsonFieldName (fst fv))) ` set fs"
      by (rule rev_image_eqI) simp
    moreover have "fst (jsonFieldName (fst fv)) \<notin> (\<lambda>fv. fst (jsonFieldName (fst fv))) ` set fs"
      using Cons.prems(1) by (simp add: structNames_def image_image)
    ultimately have "fst (jsonFieldName sf) \<noteq> fst (jsonFieldName (fst fv))" by metis
    then show ?thesis using Cons.IH [OF names mem] by (simp add: hd)
  qed
qed simp

text \<open>Structs of one type with equal text agree on every field: both omit it, or its values have equal normal form.\<close>

theorem struct_fields_equal:
  assumes eq: "normV (VStruct fs) = normV (VStruct gs)" and names: "structNames (map fst fs)" "structNames (map fst gs)"
    and "(sf, v) \<in> set fs" and "(sf, w) \<in> set gs"
  shows "(omitted sf v \<and> omitted sf w) \<or> (\<not> omitted sf v \<and> \<not> omitted sf w \<and> normV v = normV w)"
proof -
  let ?n = "\<lambda>e. (fst e, normV (snd e))"
  have wf: "wf_map (map ?n (emitted hs))" if "structNames (map fst hs)" for hs
    using wf_emitted [OF that] by (simp add: wf_map_def comp_def)
  have asc: "\<forall>a \<in> set (map ?n (emitted hs)). ascii (fst a)" if "structNames (map fst hs)" for hs
    using entries_fst [OF _ that] that by (fastforce simp: structNames_def)
  have "map_of (map ?n (emitted fs)) = map_of (map ?n (emitted gs))"
    using eq by (intro members_inj wf asc names) (simp add: fieldEntry_emitted)
  moreover have "map_of (map ?n es) k = map_option normV (map_of es k)" for es :: "(string \<times> gval) list" and k
    by (induction es) auto
  ultimately have "map_option normV (map_of (emitted fs) (fst (jsonFieldName sf)))
      = map_option normV (map_of (emitted gs) (fst (jsonFieldName sf)))" by metis
  then show ?thesis
    unfolding emitted_lookup [OF names(1) assms(4)] emitted_lookup [OF names(2) assms(5)]
    by (auto split: if_splits)
qed

end
