(* ===== verification/Domain.thy ===== *)
theory Domain
  imports Readback Sha256
begin

section \<open>Domain model: domain/models.go, domain/canonical.go (digests), domain/clone.go\<close>

text \<open>
  The records of the ledger with the fields of their Go structs in order (a prefix keeps the field
  names of different structs apart), the values they are as structs for canonical JSON, and the
  operations on an event: boundary validation, the stream it belongs to, its content digest.
  A nil map or slice and an empty one are one value where every use of the field treats them alike;
  \<open>Payload\<close> keeps the difference, which \<open>ValidateBasic\<close> observes.
\<close>

type_synonym any = "gval option"
type_synonym payload = "any gomap"

subsection \<open>Records\<close>

record Actor =
  ac_ID :: string
  ac_Type :: string
  ac_Name :: string
  ac_Department :: string
  ac_Roles :: "string list"

record Target =
  tg_Type :: string
  tg_ID :: string
  tg_Name :: string

record FieldChange =
  fc_Before :: any
  fc_After :: any

record Event =
  ev_EventID :: string
  ev_TenantID :: string
  ev_SourceSystem :: string
  ev_EventType :: string
  ev_SchemaID :: string
  ev_SchemaVersion :: int
  ev_OccurredAt :: time
  ev_ReceivedAt :: time
  ev_OperationID :: string
  ev_CausationID :: string
  ev_CorrelationID :: string
  ev_TraceID :: string
  ev_SpanID :: string
  ev_Actor :: Actor
  ev_Targets :: "Target list"
  ev_AggregateType :: string
  ev_AggregateID :: string
  ev_AggregateVersion :: int
  ev_WorkflowInstanceID :: string
  ev_ExecutionRunID :: string
  ev_Action :: string
  ev_Outcome :: string
  ev_Reason :: string
  ev_ChangedFields :: "FieldChange gomap"
  ev_Payload :: "payload option"
  ev_PayloadRef :: string
  ev_SourceDigest :: string
  ev_DataClassification :: string
  ev_RetentionClass :: string
  ev_IdempotencyKey :: string
  ev_StreamID :: string
  ev_Sequence :: int
  ev_PrevHash :: string
  ev_Hash :: string
  ev_ServerVersion :: string

record EventReceipt =
  rc_EventID :: string
  rc_TenantID :: string
  rc_IdempotencyKey :: string
  rc_Status :: string
  rc_AcceptedAt :: time
  rc_LedgeredAt :: time
  rc_IndexedAt :: time
  rc_ArchivedAt :: time
  rc_StreamID :: string
  rc_Sequence :: int
  rc_Hash :: string
  rc_Duplicate :: bool
  rc_Conflict :: bool
  rc_ErrorCode :: string
  rc_ErrorMessage :: string

record DeadLetter =
  dl_TenantID :: string
  dl_EventID :: string
  dl_StreamID :: string
  dl_Sequence :: int
  dl_Reason :: string
  dl_ErrorMessage :: string
  dl_At :: time

record EventSchema =
  es_TenantID :: string
  es_SchemaID :: string
  es_Version :: int
  es_EventType :: string
  es_RequiredFields :: "string list"
  es_AllowedFields :: "string list"
  es_EncryptedFields :: "string list"
  es_SearchableFields :: "string list"
  es_Classification :: string
  es_Active :: bool
  es_CreatedAt :: time

record SourceSystem =
  ss_ID :: string
  ss_TenantID :: string
  ss_Name :: string
  ss_AllowedClientIDs :: "string list"
  ss_Active :: bool
  ss_CreatedAt :: time

record Tenant =
  tn_ID :: string
  tn_Name :: string
  tn_HomeRegion :: string
  tn_DataRegion :: string
  tn_Active :: bool
  tn_EventsPerSecond :: int
  tn_Burst :: int
  tn_CreatedAt :: time

record RetentionPolicy =
  rp_TenantID :: string
  rp_HotDays :: int
  rp_WarmDays :: int
  rp_ArchiveDays :: int
  rp_RetentionClass :: string

record RetentionReport =
  rr_TenantID :: string
  rr_EvaluatedAt :: time
  rr_Policy :: RetentionPolicy
  rr_EligibleEvents :: int
  rr_ProtectedEvents :: int
  rr_HoldIDs :: "string list"
  rr_Action :: string

record Query =
  qy_From :: time
  qy_To :: time
  qy_EventType :: string
  qy_SourceSystem :: string
  qy_ActorID :: string
  qy_TargetID :: string
  qy_AggregateType :: string
  qy_AggregateID :: string
  qy_OperationID :: string
  qy_CausationID :: string
  qy_CorrelationID :: string
  qy_TraceID :: string
  qy_Outcome :: string
  qy_PayloadField :: string
  qy_PayloadDigest :: string
  qy_StreamID :: string
  qy_Cursor :: string
  qy_PageSize :: int

record LegalHold =
  lh_ID :: string
  lh_TenantID :: string
  lh_Name :: string
  lh_Reason :: string
  lh_Filter :: Query
  lh_CreatedBy :: string
  lh_CreatedAt :: time
  lh_ReleasedAt :: "time option"
  lh_ReleasedBy :: string

record OperationSummary =
  os_OperationID :: string
  os_TenantID :: string
  os_EventCount :: int
  os_FirstAt :: time
  os_LastAt :: time
  os_Outcomes :: "string list"

record Segment =
  sg_TenantID :: string
  sg_StreamID :: string
  sg_FirstSequence :: int
  sg_LastSequence :: int
  sg_FirstPrevHash :: string
  sg_LastHash :: string
  sg_EventCount :: int
  sg_MerkleRoot :: string
  sg_ManifestHash :: string
  sg_Signature :: string
  sg_CreatedAt :: time

record Checkpoint =
  cp_ID :: string
  cp_TenantID :: string
  cp_StreamID :: string
  cp_Sequence :: int
  cp_MerkleRoot :: string
  cp_Signature :: string
  cp_Algorithm :: string
  cp_CreatedAt :: time

record CheckpointRef =
  cr_StreamID :: string
  cr_CheckpointID :: string
  cr_Sequence :: int
  cr_MerkleRoot :: string

record AggregateCheckpoint =
  ag_ID :: string
  ag_TenantID :: string
  ag_StreamCount :: int
  ag_Root :: string
  ag_Signature :: string
  ag_Algorithm :: string
  ag_CreatedAt :: time
  ag_StreamRoots :: "string list"
  ag_AttestationVersion :: int
  ag_CheckpointRefs :: "CheckpointRef list"

record ExportJob =
  ej_ID :: string
  ej_TenantID :: string
  ej_RequestedBy :: string
  ej_Query :: Query
  ej_Status :: string
  ej_RetryOf :: string
  ej_FailureCode :: string
  ej_CreatedAt :: time
  ej_StartedAt :: "time option"
  ej_FinishedAt :: "time option"
  ej_ObjectPath :: string
  ej_Digest :: string
  ej_EventCount :: int
  ej_Error :: string

record ReplayResult =
  re_TenantID :: string
  re_OperationID :: string
  re_AggregateID :: string
  re_EventCount :: int
  re_State :: "payload option"
  re_LastSequence :: int

record RestoreRequest =
  rq_OperationID :: string
  rq_Reason :: string

record RestorePreview =
  rv_ID :: string
  rv_TenantID :: string
  rv_OperationID :: string
  rv_ProposedState :: "payload option"
  rv_ExternalCalls :: "string list"
  rv_RequiresApproval :: bool

record RestoreRun =
  rn_ID :: string
  rn_TenantID :: string
  rn_OperationID :: string
  rn_Status :: string
  rn_Reason :: string
  rn_CreatedBy :: string
  rn_CreatedAt :: time
  rn_ApprovedBy :: string
  rn_ApprovedAt :: "time option"
  rn_RejectedBy :: string
  rn_RejectedAt :: "time option"

record AdminAction =
  aa_ID :: string
  aa_TenantID :: string
  aa_Actor :: string
  aa_Action :: string
  aa_TargetType :: string
  aa_TargetID :: string
  aa_Detail :: string
  aa_CreatedAt :: time
subsection \<open>Status vocabulary\<close>

definition StatusReceived :: string where "StatusReceived = ''received''"
definition StatusAccepted :: string where "StatusAccepted = ''accepted''"
definition StatusLedgered :: string where "StatusLedgered = ''ledgered''"
definition StatusIndexed :: string where "StatusIndexed = ''indexed''"
definition StatusArchived :: string where "StatusArchived = ''archived''"
definition StatusFailed :: string where "StatusFailed = ''failed''"
definition MaxEventBytes :: int where "MaxEventBytes = 256 * 1024"
definition DefaultPageSize :: int where "DefaultPageSize = 100"
definition MaxPageSize :: int where "MaxPageSize = 1000"
definition MaxTimelineEvents :: int where "MaxTimelineEvents = 10000"
definition RestoreStatusPendingApproval :: string where "RestoreStatusPendingApproval = ''pending_approval''"
definition RestoreStatusApproved :: string where "RestoreStatusApproved = ''approved''"
definition RestoreStatusRejected :: string where "RestoreStatusRejected = ''rejected''"

lemmas status_defs = StatusReceived_def StatusAccepted_def StatusLedgered_def StatusIndexed_def
  StatusArchived_def StatusFailed_def

definition MinOccurredAt :: time where "MinOccurredAt = 693595 * ns_per_day"
definition MaxOccurredAt :: time where "MaxOccurredAt = 839691 * ns_per_day + 86399999000000"

subsection \<open>The structs as values\<close>

definition strings_value :: "string list \<Rightarrow> gval" where
  "strings_value xs = VSlice (Some (map VString xs))"

definition slice_value :: "('a \<Rightarrow> gval) \<Rightarrow> 'a list \<Rightarrow> gval" where
  "slice_value f xs = VSlice (Some (map f xs))"

definition map_value :: "('a \<Rightarrow> gval) \<Rightarrow> 'a gomap \<Rightarrow> gval" where
  "map_value f m = VMap True (Some (map (\<lambda>kv. (fst kv, f (snd kv))) m))"

definition payload_value :: "payload option \<Rightarrow> gval" where
  "payload_value p = VMap True (map_option (\<lambda>m. map (\<lambda>kv. (fst kv, VRef (snd kv))) m) p)"

definition Actor_value :: "Actor \<Rightarrow> gval" where
  "Actor_value x = VStruct
      [(StructField ''ID'' True ''id'', VString (ac_ID x)),
       (StructField ''Type'' True ''type,omitempty'', VString (ac_Type x)),
       (StructField ''Name'' True ''name,omitempty'', VString (ac_Name x)),
       (StructField ''Department'' True ''department,omitempty'', VString (ac_Department x)),
       (StructField ''Roles'' True ''roles,omitempty'', strings_value (ac_Roles x))]"

definition Target_value :: "Target \<Rightarrow> gval" where
  "Target_value x = VStruct
      [(StructField ''Type'' True ''type'', VString (tg_Type x)),
       (StructField ''ID'' True ''id'', VString (tg_ID x)),
       (StructField ''Name'' True ''name,omitempty'', VString (tg_Name x))]"

definition FieldChange_value :: "FieldChange \<Rightarrow> gval" where
  "FieldChange_value x = VStruct
      [(StructField ''Before'' True ''before,omitempty'', VRef (fc_Before x)),
       (StructField ''After'' True ''after,omitempty'', VRef (fc_After x))]"

definition Event_fields :: "Event \<Rightarrow> (sfield \<times> gval) list" where
  "Event_fields x =
      [(StructField ''EventID'' True ''event_id'', VString (ev_EventID x)),
       (StructField ''TenantID'' True ''tenant_id'', VString (ev_TenantID x)),
       (StructField ''SourceSystem'' True ''source_system'', VString (ev_SourceSystem x)),
       (StructField ''EventType'' True ''event_type'', VString (ev_EventType x)),
       (StructField ''SchemaID'' True ''schema_id'', VString (ev_SchemaID x)),
       (StructField ''SchemaVersion'' True ''schema_version'', VInt (ev_SchemaVersion x)),
       (StructField ''OccurredAt'' True ''occurred_at'', VTime (ev_OccurredAt x)),
       (StructField ''ReceivedAt'' True ''received_at'', VTime (ev_ReceivedAt x)),
       (StructField ''OperationID'' True ''operation_id,omitempty'', VString (ev_OperationID x)),
       (StructField ''CausationID'' True ''causation_id,omitempty'', VString (ev_CausationID x)),
       (StructField ''CorrelationID'' True ''correlation_id,omitempty'', VString (ev_CorrelationID x)),
       (StructField ''TraceID'' True ''trace_id,omitempty'', VString (ev_TraceID x)),
       (StructField ''SpanID'' True ''span_id,omitempty'', VString (ev_SpanID x)),
       (StructField ''Actor'' True ''actor'', Actor_value (ev_Actor x)),
       (StructField ''Targets'' True ''targets,omitempty'', slice_value Target_value (ev_Targets x)),
       (StructField ''AggregateType'' True ''aggregate_type,omitempty'', VString (ev_AggregateType x)),
       (StructField ''AggregateID'' True ''aggregate_id,omitempty'', VString (ev_AggregateID x)),
       (StructField ''AggregateVersion'' True ''aggregate_version,omitempty'', VInt (ev_AggregateVersion x)),
       (StructField ''WorkflowInstanceID'' True ''workflow_instance_id,omitempty'', VString (ev_WorkflowInstanceID x)),
       (StructField ''ExecutionRunID'' True ''execution_run_id,omitempty'', VString (ev_ExecutionRunID x)),
       (StructField ''Action'' True ''action'', VString (ev_Action x)),
       (StructField ''Outcome'' True ''outcome'', VString (ev_Outcome x)),
       (StructField ''Reason'' True ''reason,omitempty'', VString (ev_Reason x)),
       (StructField ''ChangedFields'' True ''changed_fields,omitempty'', map_value FieldChange_value (ev_ChangedFields x)),
       (StructField ''Payload'' True ''payload,omitempty'', payload_value (ev_Payload x)),
       (StructField ''PayloadRef'' True ''payload_ref,omitempty'', VString (ev_PayloadRef x)),
       (StructField ''SourceDigest'' True ''source_digest,omitempty'', VString (ev_SourceDigest x)),
       (StructField ''DataClassification'' True ''data_classification'', VString (ev_DataClassification x)),
       (StructField ''RetentionClass'' True ''retention_class'', VString (ev_RetentionClass x)),
       (StructField ''IdempotencyKey'' True ''idempotency_key'', VString (ev_IdempotencyKey x)),
       (StructField ''StreamID'' True ''stream_id,omitempty'', VString (ev_StreamID x)),
       (StructField ''Sequence'' True ''sequence,omitempty'', VInt (ev_Sequence x)),
       (StructField ''PrevHash'' True ''prev_hash,omitempty'', VString (ev_PrevHash x)),
       (StructField ''Hash'' True ''hash,omitempty'', VString (ev_Hash x)),
       (StructField ''ServerVersion'' True ''server_version,omitempty'', VString (ev_ServerVersion x))]"

definition Event_value :: "Event \<Rightarrow> gval" where
  "Event_value x = VStruct (Event_fields x)"

definition Segment_value :: "Segment \<Rightarrow> gval" where
  "Segment_value x = VStruct
      [(StructField ''TenantID'' True ''tenant_id'', VString (sg_TenantID x)),
       (StructField ''StreamID'' True ''stream_id'', VString (sg_StreamID x)),
       (StructField ''FirstSequence'' True ''first_sequence'', VInt (sg_FirstSequence x)),
       (StructField ''LastSequence'' True ''last_sequence'', VInt (sg_LastSequence x)),
       (StructField ''FirstPrevHash'' True ''first_prev_hash'', VString (sg_FirstPrevHash x)),
       (StructField ''LastHash'' True ''last_hash'', VString (sg_LastHash x)),
       (StructField ''EventCount'' True ''event_count'', VInt (sg_EventCount x)),
       (StructField ''MerkleRoot'' True ''merkle_root'', VString (sg_MerkleRoot x)),
       (StructField ''ManifestHash'' True ''manifest_hash'', VString (sg_ManifestHash x)),
       (StructField ''Signature'' True ''signature'', VString (sg_Signature x)),
       (StructField ''CreatedAt'' True ''created_at'', VTime (sg_CreatedAt x))]"

definition CheckpointRef_value :: "CheckpointRef \<Rightarrow> gval" where
  "CheckpointRef_value x = VStruct
      [(StructField ''StreamID'' True ''stream_id'', VString (cr_StreamID x)),
       (StructField ''CheckpointID'' True ''checkpoint_id'', VString (cr_CheckpointID x)),
       (StructField ''Sequence'' True ''sequence'', VInt (cr_Sequence x)),
       (StructField ''MerkleRoot'' True ''merkle_root'', VString (cr_MerkleRoot x))]"

subsection \<open>Boundary validation: Event.ValidateBasic\<close>

text \<open>
  The required fields are the values of a map literal, ranged over in an unspecified order; the
  reported error names one field, and the name is not part of the modelled error.
\<close>

definition requiredFields :: "Event \<Rightarrow> (string \<times> string) list" where
  "requiredFields e =
     [(''event_id'', ev_EventID e), (''source_system'', ev_SourceSystem e), (''event_type'', ev_EventType e),
      (''schema_id'', ev_SchemaID e), (''action'', ev_Action e), (''outcome'', ev_Outcome e),
      (''data_classification'', ev_DataClassification e), (''retention_class'', ev_RetentionClass e),
      (''idempotency_key'', ev_IdempotencyKey e)]"

definition checkRequired :: "string \<times> string \<Rightarrow> error option" where
  "checkRequired nv = (if TrimSpace (snd nv) = '''' then Some (Err ErrInvalid ''is required'') else None)"

definition ifPresent :: "(string \<Rightarrow> error option) \<Rightarrow> string \<Rightarrow> error option" where
  "ifPresent f v = (if v \<noteq> '''' then f v else None)"

definition basicChecks :: "Event \<Rightarrow> error option list" where
  "basicChecks e =
     [ValidKeyComponent (ev_EventID e), ValidKeyComponent (ev_SourceSystem e),
      ValidArchiveComponentLength (ev_EventID e), ValidArchiveComponentLength (ev_SourceSystem e),
      ifPresent ValidStreamComponent (ev_AggregateType e), ifPresent ValidStreamComponent (ev_AggregateID e),
      ifPresent ValidKeyComponent (ev_OperationID e), ifPresent ValidArchiveComponentLength (ev_OperationID e),
      if ev_SchemaVersion e \<le> 0 then Some (Err ErrInvalid ''schema_version must be positive'') else None,
      if ev_OccurredAt e = 0 then Some (Err ErrInvalid ''occurred_at is required'') else None,
      if ev_OccurredAt e < MinOccurredAt \<or> ev_OccurredAt e > MaxOccurredAt
        then Some (Err ErrOccurredAtOutOfRange ''occurred_at is outside the ledger horizon'') else None,
      if ac_ID (ev_Actor e) = '''' then Some (Err ErrInvalid ''actor.id is required'') else None,
      if ev_Payload e = None \<and> ev_PayloadRef e = ''''
        then Some (Err ErrInvalid ''payload or payload_ref is required'') else None]"

definition ValidateBasic :: "Event \<Rightarrow> error option" where
  "ValidateBasic e = firstErr (map checkRequired (requiredFields e) @ basicChecks e)"

subsection \<open>Streams: Event.Stream\<close>

definition Stream :: "Event \<Rightarrow> string" where
  "Stream e =
     (if ev_StreamID e \<noteq> '''' then ev_StreamID e
      else if ev_AggregateType e \<noteq> '''' \<and> ev_AggregateID e \<noteq> ''''
        then ev_TenantID e @ '':aggregate:'' @ ev_AggregateType e @ '':'' @ ev_AggregateID e
      else if ev_OperationID e \<noteq> '''' then ev_TenantID e @ '':operation:'' @ ev_OperationID e
      else ev_TenantID e @ '':source:'' @ ev_SourceSystem e)"

subsection \<open>Content digest: EventContentDigest, EventDigest\<close>

definition contentOnly :: "Event \<Rightarrow> Event" where
  "contentOnly e = e\<lparr>ev_SourceDigest := '''', ev_ReceivedAt := 0, ev_ServerVersion := '''', ev_Hash := '''',
                     ev_PrevHash := '''', ev_Sequence := 0, ev_StreamID := ''''\<rparr>"

definition EventContentDigest :: "Event \<Rightarrow> string result" where
  "EventContentDigest e = rbind (CanonicalJSON (Event_value (contentOnly e))) (\<lambda>data. Inr (HashBytes data))"

definition EventDigest :: "Event \<Rightarrow> string result" where
  "EventDigest e = (if ev_SourceDigest e \<noteq> '''' then Inr (ev_SourceDigest e) else EventContentDigest e)"

datatype DigestEncoding = DigestEncodingNone | DigestEncodingLossless | DigestEncodingLegacy

text \<open>
  \<open>MatchEventContentDigest\<close> over the frozen pre-lossless digest, which is an argument: its writer goes
  through \<open>json.Marshal\<close> and a \<open>float64\<close> decode, and every theorem holds whatever it computes.
\<close>

definition MatchEventContentDigest :: "(Event \<Rightarrow> string result) \<Rightarrow> Event \<Rightarrow> string \<Rightarrow> DigestEncoding result" where
  "MatchEventContentDigest legacyDigest e expected =
     rbind (EventContentDigest e) (\<lambda>current.
       if current = expected then Inr DigestEncodingLossless
       else rbind (legacyDigest e) (\<lambda>legacy.
         Inr (if legacy = expected then DigestEncodingLegacy else DigestEncodingNone)))"

subsection \<open>Clones: CloneEvent\<close>

text \<open>
  A value is a finite tree, so the cycle check of the source never fires on it. What is left is the
  rejection of the kinds that cannot be copied safely.
\<close>

fun cloneValue :: "gval \<Rightarrow> gval result" where
  "cloneValue (VRef (Some v)) = rbind (cloneValue v) (\<lambda>w. Inr (VRef (Some w)))"
| "cloneValue (VMap string_keys m) =
     (if \<not> string_keys then Inl (Err ErrOther ''unsupported map key type'')
      else (case m of
              None \<Rightarrow> Inr (VMap string_keys None)
            | Some kvs \<Rightarrow> (if \<exists>kv \<in> set kvs. isl (cloneValue (snd kv))
                           then Inl (Err ErrOther ''event graph clone failed'') else Inr (VMap string_keys (Some kvs)))))"
| "cloneValue (VSlice (Some vs)) =
     (if \<exists>v \<in> set vs. isl (cloneValue v) then Inl (Err ErrOther ''event graph clone failed'') else Inr (VSlice (Some vs)))"
| "cloneValue (VArray vs) =
     (if \<exists>v \<in> set vs. isl (cloneValue v) then Inl (Err ErrOther ''event graph clone failed'') else Inr (VArray vs))"
| "cloneValue (VStruct fs) =
     (if \<exists>fv \<in> set fs. \<not> sf_Exported (fst fv) then Inl (Err ErrOther ''unsupported struct field'')
      else if \<exists>fv \<in> set fs. isl (cloneValue (snd fv)) then Inl (Err ErrOther ''event graph clone failed'') else Inr (VStruct fs))"
| "cloneValue (VUnsupported t) = Inl (Err ErrOther ''unsupported value kind'')"
| "cloneValue v = Inr v"

definition CloneEvent :: "Event \<Rightarrow> Event result" where
  "CloneEvent e = rbind (cloneValue (Event_value e)) (\<lambda>_. Inr e)"

lemma cloneValue_same: "cloneValue v = Inr w \<Longrightarrow> w = v"
  by (induction v arbitrary: w rule: cloneValue.induct) (auto simp: rbind_eq_Inr split: if_splits option.splits)

lemma CloneEvent_same: "CloneEvent e = Inr e' \<Longrightarrow> e' = e"
  by (auto simp: CloneEvent_def rbind_eq_Inr)

subsection \<open>Source binding: SourceSystem.AllowsClient\<close>

definition AllowsClient :: "SourceSystem \<Rightarrow> string \<Rightarrow> bool" where
  "AllowsClient s clientID =
     (if clientID = '''' then False
      else if ss_AllowedClientIDs s = [] then clientID = ss_ID s
      else clientID \<in> set (ss_AllowedClientIDs s))"

subsection \<open>What validation guarantees\<close>

lemma ifPresent_None: "ifPresent f v = None \<longleftrightarrow> v = '''' \<or> f v = None"
  by (simp add: ifPresent_def)

lemma ValidateBasic_None:
  assumes "ValidateBasic e = None"
  shows "ValidKeyComponent (ev_EventID e) = None" and "ValidKeyComponent (ev_SourceSystem e) = None"
    and "length (ev_EventID e) \<le> 85" and "length (ev_SourceSystem e) \<le> 85"
    and "ev_AggregateType e = '''' \<or> ValidStreamComponent (ev_AggregateType e) = None"
    and "ev_AggregateID e = '''' \<or> ValidStreamComponent (ev_AggregateID e) = None"
    and "ev_OperationID e = '''' \<or> ValidKeyComponent (ev_OperationID e) = None"
    and "length (ev_OperationID e) \<le> 85"
    and "0 < ev_SchemaVersion e" and "MinOccurredAt \<le> ev_OccurredAt e" and "ev_OccurredAt e \<le> MaxOccurredAt"
    and "ac_ID (ev_Actor e) \<noteq> ''''" and "ev_Payload e \<noteq> None \<or> ev_PayloadRef e \<noteq> ''''"
    and "\<forall>nv \<in> set (requiredFields e). snd nv \<noteq> ''''"
proof -
  have all: "\<forall>c \<in> set (map checkRequired (requiredFields e) @ basicChecks e). c = None"
    using assms unfolding ValidateBasic_def firstErr_None_iff .
  have "snd nv \<noteq> ''''" if "nv \<in> set (requiredFields e)" for nv
  proof -
    have "checkRequired nv = None" using all that by simp
    then show ?thesis by (auto simp: checkRequired_def)
  qed
  then show "\<forall>nv \<in> set (requiredFields e). snd nv \<noteq> ''''" by blast
  have "\<forall>c \<in> set (basicChecks e). c = None" using all by simp
  note facts = this [unfolded basicChecks_def, simplified]
  show "ValidKeyComponent (ev_EventID e) = None" "ValidKeyComponent (ev_SourceSystem e) = None"
    using facts by auto
  show "length (ev_EventID e) \<le> 85" "length (ev_SourceSystem e) \<le> 85"
    using facts by (auto simp: ValidArchiveComponentLength_def MaxArchiveComponentBytes_def split: if_splits)
  show "length (ev_OperationID e) \<le> 85"
    using facts by (auto simp: ifPresent_None ValidArchiveComponentLength_def MaxArchiveComponentBytes_def split: if_splits)
  show "ev_AggregateType e = '''' \<or> ValidStreamComponent (ev_AggregateType e) = None"
    "ev_AggregateID e = '''' \<or> ValidStreamComponent (ev_AggregateID e) = None"
    "ev_OperationID e = '''' \<or> ValidKeyComponent (ev_OperationID e) = None"
    using facts by (auto simp: ifPresent_None)
  show "0 < ev_SchemaVersion e" "MinOccurredAt \<le> ev_OccurredAt e" "ev_OccurredAt e \<le> MaxOccurredAt"
    "ac_ID (ev_Actor e) \<noteq> ''''" "ev_Payload e \<noteq> None \<or> ev_PayloadRef e \<noteq> ''''"
    using facts by (auto split: if_splits)
qed

subsection \<open>Streams do not collide\<close>

text \<open>Where an event's stream comes from, when no stream was assigned.\<close>

datatype stream_origin = OfAggregate string string string | OfOperation string string | OfSource string string

definition streamOrigin :: "Event \<Rightarrow> stream_origin" where
  "streamOrigin e =
     (if ev_AggregateType e \<noteq> '''' \<and> ev_AggregateID e \<noteq> ''''
        then OfAggregate (ev_TenantID e) (ev_AggregateType e) (ev_AggregateID e)
      else if ev_OperationID e \<noteq> '''' then OfOperation (ev_TenantID e) (ev_OperationID e)
      else OfSource (ev_TenantID e) (ev_SourceSystem e))"

fun originStream :: "stream_origin \<Rightarrow> string" where
  "originStream (OfAggregate t a i) = t @ '':aggregate:'' @ a @ '':'' @ i"
| "originStream (OfOperation t i) = t @ '':operation:'' @ i"
| "originStream (OfSource t i) = t @ '':source:'' @ i"

fun originOK :: "stream_origin \<Rightarrow> bool" where
  "originOK (OfAggregate t a i) = (CHR '':'' \<notin> set t \<and> CHR '':'' \<notin> set a)"
| "originOK (OfOperation t i) = (CHR '':'' \<notin> set t)"
| "originOK (OfSource t i) = (CHR '':'' \<notin> set t)"

lemma originStream_inj:
  assumes "originOK a" and "originOK b" and "originStream a = originStream b"
  shows "a = b"
  using assms
  by (cases a; cases b) (auto simp: append_sep_inj)

lemma Stream_origin: "ev_StreamID e = '''' \<Longrightarrow> Stream e = originStream (streamOrigin e)"
  by (simp add: Stream_def streamOrigin_def)

lemma ValidStreamComponent_colon: "ValidStreamComponent v = None \<Longrightarrow> CHR '':'' \<notin> set v"
  by (auto simp: ValidStreamComponent_def split: option.splits if_splits)

lemma ValidTenantID_colon: "ValidTenantID v = None \<Longrightarrow> CHR '':'' \<notin> set v"
  by (auto simp: ValidTenantID_def ValidTenantIDComponent_def split: option.splits if_splits)

lemma streamOrigin_OK: "ValidateBasic e = None \<Longrightarrow> ValidTenantID (ev_TenantID e) = None \<Longrightarrow> originOK (streamOrigin e)"
  using ValidateBasic_None(5) [of e] ValidStreamComponent_colon ValidTenantID_colon
  by (auto simp: streamOrigin_def)

subsection \<open>The digest binds the content\<close>

lemma structNames_Event: "structNames (map fst (Event_fields e))"
  unfolding Event_fields_def by (simp only: list.map fst_conv) code_simp

text \<open>Fields of two structs of one type with equal normal form, by the kind of the field.\<close>

lemma required_field_equal:
  assumes "normV (VStruct fs) = normV (VStruct gs)" "structNames (map fst fs)" "structNames (map fst gs)"
    and "(sf, v) \<in> set fs" and "(sf, w) \<in> set gs" and "\<not> snd (jsonFieldName sf)"
  shows "normV v = normV w"
  using struct_fields_equal [OF assms(1-5)] assms(6) by (simp add: omitted_def)

lemma string_field_equal:
  assumes "normV (VStruct fs) = normV (VStruct gs)" "structNames (map fst fs)" "structNames (map fst gs)"
    and "(sf, VString a) \<in> set fs" and "(sf, VString b) \<in> set gs"
  shows "runes a = runes b"
  using struct_fields_equal [OF assms] escape_runes [of a b] by (auto simp: omitted_def esc_def)

lemma int_field_equal:
  assumes "normV (VStruct fs) = normV (VStruct gs)" "structNames (map fst fs)" "structNames (map fst gs)"
    and "(sf, VInt a) \<in> set fs" and "(sf, VInt b) \<in> set gs"
  shows "a = b"
  using struct_fields_equal [OF assms] itoa_inj [of a b] by (auto simp: omitted_def text_of_def)

lemma time_field_equal:
  assumes "normV (VStruct fs) = normV (VStruct gs)" "structNames (map fst fs)" "structNames (map fst gs)"
    and "(sf, VTime a) \<in> set fs" and "(sf, VTime b) \<in> set gs"
  shows "runes (formatRFC3339Nano a) = runes (formatRFC3339Nano b)"
  using struct_fields_equal [OF assms] escape_runes [of "formatRFC3339Nano a" "formatRFC3339Nano b"]
  by (auto simp: omitted_def esc_def)

lemma payload_field_equal:
  assumes "normV (VStruct fs) = normV (VStruct gs)" "structNames (map fst fs)" "structNames (map fst gs)"
    and "(sf, payload_value a) \<in> set fs" and "(sf, payload_value b) \<in> set gs"
  shows "normV (payload_value a) = normV (payload_value b) \<or> (a \<in> {None, Some []} \<and> b \<in> {None, Some []})"
  using struct_fields_equal [OF assms] by (auto simp: omitted_def payload_value_def)

definition sameContent :: "Event \<Rightarrow> Event \<Rightarrow> bool" where
  "sameContent e e' \<longleftrightarrow>
     runes (ev_EventID e) = runes (ev_EventID e') \<and> runes (ev_TenantID e) = runes (ev_TenantID e')
     \<and> runes (ev_SourceSystem e) = runes (ev_SourceSystem e') \<and> runes (ev_EventType e) = runes (ev_EventType e')
     \<and> runes (ev_SchemaID e) = runes (ev_SchemaID e') \<and> ev_SchemaVersion e = ev_SchemaVersion e'
     \<and> runes (formatRFC3339Nano (ev_OccurredAt e)) = runes (formatRFC3339Nano (ev_OccurredAt e'))
     \<and> runes (ev_OperationID e) = runes (ev_OperationID e') \<and> runes (ev_CausationID e) = runes (ev_CausationID e')
     \<and> runes (ev_CorrelationID e) = runes (ev_CorrelationID e') \<and> runes (ev_TraceID e) = runes (ev_TraceID e')
     \<and> runes (ev_SpanID e) = runes (ev_SpanID e') \<and> runes (ev_AggregateType e) = runes (ev_AggregateType e')
     \<and> runes (ev_AggregateID e) = runes (ev_AggregateID e') \<and> ev_AggregateVersion e = ev_AggregateVersion e'
     \<and> runes (ev_WorkflowInstanceID e) = runes (ev_WorkflowInstanceID e')
     \<and> runes (ev_ExecutionRunID e) = runes (ev_ExecutionRunID e')
     \<and> runes (ev_Action e) = runes (ev_Action e') \<and> runes (ev_Outcome e) = runes (ev_Outcome e')
     \<and> runes (ev_Reason e) = runes (ev_Reason e') \<and> runes (ev_PayloadRef e) = runes (ev_PayloadRef e')
     \<and> runes (ev_DataClassification e) = runes (ev_DataClassification e')
     \<and> runes (ev_RetentionClass e) = runes (ev_RetentionClass e')
     \<and> runes (ev_IdempotencyKey e) = runes (ev_IdempotencyKey e')
     \<and> (normV (payload_value (ev_Payload e)) = normV (payload_value (ev_Payload e'))
         \<or> ev_Payload e \<in> {None, Some []} \<and> ev_Payload e' \<in> {None, Some []})
     \<and> normV (Actor_value (ev_Actor e)) = normV (Actor_value (ev_Actor e'))
     \<and> normV (slice_value Target_value (ev_Targets e)) = normV (slice_value Target_value (ev_Targets e'))
     \<and> normV (map_value FieldChange_value (ev_ChangedFields e)) = normV (map_value FieldChange_value (ev_ChangedFields e'))"

lemma event_text_content:
  assumes "normV (Event_value e) = normV (Event_value e')"
  shows "sameContent e e'"
proof -
  have eq: "normV (VStruct (Event_fields e)) = normV (VStruct (Event_fields e'))"
    using assms by (simp only: Event_value_def)
  note str = string_field_equal [OF eq structNames_Event structNames_Event]
  note int = int_field_equal [OF eq structNames_Event structNames_Event]
  note tim = time_field_equal [OF eq structNames_Event structNames_Event]
  note pay = payload_field_equal [OF eq structNames_Event structNames_Event]
  have act: "normV (Actor_value (ev_Actor e)) = normV (Actor_value (ev_Actor e'))"
    by (rule required_field_equal [OF eq structNames_Event structNames_Event, of "StructField ''Actor'' True ''actor''"])
      (simp_all add: Event_fields_def jsonFieldName_def)
  have tgt: "normV (slice_value Target_value (ev_Targets e)) = normV (slice_value Target_value (ev_Targets e'))"
    using struct_fields_equal [OF eq structNames_Event structNames_Event,
        of "StructField ''Targets'' True ''targets,omitempty''" "slice_value Target_value (ev_Targets e)"
          "slice_value Target_value (ev_Targets e')"]
    by (simp add: Event_fields_def) (auto simp: omitted_def slice_value_def)
  have chg: "normV (map_value FieldChange_value (ev_ChangedFields e)) = normV (map_value FieldChange_value (ev_ChangedFields e'))"
    using struct_fields_equal [OF eq structNames_Event structNames_Event,
        of "StructField ''ChangedFields'' True ''changed_fields,omitempty''" "map_value FieldChange_value (ev_ChangedFields e)"
          "map_value FieldChange_value (ev_ChangedFields e')"]
    by (simp add: Event_fields_def) (auto simp: omitted_def map_value_def)
  have f0: "runes (ev_EventID e) = runes (ev_EventID e')"
    by (rule str [of "StructField ''EventID'' True ''event_id''"]) (simp_all add: Event_fields_def)
  have f1: "runes (ev_TenantID e) = runes (ev_TenantID e')"
    by (rule str [of "StructField ''TenantID'' True ''tenant_id''"]) (simp_all add: Event_fields_def)
  have f2: "runes (ev_SourceSystem e) = runes (ev_SourceSystem e')"
    by (rule str [of "StructField ''SourceSystem'' True ''source_system''"]) (simp_all add: Event_fields_def)
  have f3: "runes (ev_EventType e) = runes (ev_EventType e')"
    by (rule str [of "StructField ''EventType'' True ''event_type''"]) (simp_all add: Event_fields_def)
  have f4: "runes (ev_SchemaID e) = runes (ev_SchemaID e')"
    by (rule str [of "StructField ''SchemaID'' True ''schema_id''"]) (simp_all add: Event_fields_def)
  have f5: "ev_SchemaVersion e = ev_SchemaVersion e'"
    by (rule int [of "StructField ''SchemaVersion'' True ''schema_version''"]) (simp_all add: Event_fields_def)
  have f6: "runes (formatRFC3339Nano (ev_OccurredAt e)) = runes (formatRFC3339Nano (ev_OccurredAt e'))"
    by (rule tim [of "StructField ''OccurredAt'' True ''occurred_at''"]) (simp_all add: Event_fields_def)
  have f7: "runes (ev_OperationID e) = runes (ev_OperationID e')"
    by (rule str [of "StructField ''OperationID'' True ''operation_id,omitempty''"]) (simp_all add: Event_fields_def)
  have f8: "runes (ev_CausationID e) = runes (ev_CausationID e')"
    by (rule str [of "StructField ''CausationID'' True ''causation_id,omitempty''"]) (simp_all add: Event_fields_def)
  have f9: "runes (ev_CorrelationID e) = runes (ev_CorrelationID e')"
    by (rule str [of "StructField ''CorrelationID'' True ''correlation_id,omitempty''"]) (simp_all add: Event_fields_def)
  have f10: "runes (ev_TraceID e) = runes (ev_TraceID e')"
    by (rule str [of "StructField ''TraceID'' True ''trace_id,omitempty''"]) (simp_all add: Event_fields_def)
  have f11: "runes (ev_SpanID e) = runes (ev_SpanID e')"
    by (rule str [of "StructField ''SpanID'' True ''span_id,omitempty''"]) (simp_all add: Event_fields_def)
  have f12: "runes (ev_AggregateType e) = runes (ev_AggregateType e')"
    by (rule str [of "StructField ''AggregateType'' True ''aggregate_type,omitempty''"]) (simp_all add: Event_fields_def)
  have f13: "runes (ev_AggregateID e) = runes (ev_AggregateID e')"
    by (rule str [of "StructField ''AggregateID'' True ''aggregate_id,omitempty''"]) (simp_all add: Event_fields_def)
  have f14: "ev_AggregateVersion e = ev_AggregateVersion e'"
    by (rule int [of "StructField ''AggregateVersion'' True ''aggregate_version,omitempty''"]) (simp_all add: Event_fields_def)
  have f15: "runes (ev_WorkflowInstanceID e) = runes (ev_WorkflowInstanceID e')"
    by (rule str [of "StructField ''WorkflowInstanceID'' True ''workflow_instance_id,omitempty''"]) (simp_all add: Event_fields_def)
  have f16: "runes (ev_ExecutionRunID e) = runes (ev_ExecutionRunID e')"
    by (rule str [of "StructField ''ExecutionRunID'' True ''execution_run_id,omitempty''"]) (simp_all add: Event_fields_def)
  have f17: "runes (ev_Action e) = runes (ev_Action e')"
    by (rule str [of "StructField ''Action'' True ''action''"]) (simp_all add: Event_fields_def)
  have f18: "runes (ev_Outcome e) = runes (ev_Outcome e')"
    by (rule str [of "StructField ''Outcome'' True ''outcome''"]) (simp_all add: Event_fields_def)
  have f19: "runes (ev_Reason e) = runes (ev_Reason e')"
    by (rule str [of "StructField ''Reason'' True ''reason,omitempty''"]) (simp_all add: Event_fields_def)
  have f20: "normV (payload_value (ev_Payload e)) = normV (payload_value (ev_Payload e')) \<or> (ev_Payload e \<in> {None, Some []} \<and> ev_Payload e' \<in> {None, Some []})"
    by (rule pay [of "StructField ''Payload'' True ''payload,omitempty''"]) (simp_all add: Event_fields_def)
  have f21: "runes (ev_PayloadRef e) = runes (ev_PayloadRef e')"
    by (rule str [of "StructField ''PayloadRef'' True ''payload_ref,omitempty''"]) (simp_all add: Event_fields_def)
  have f22: "runes (ev_DataClassification e) = runes (ev_DataClassification e')"
    by (rule str [of "StructField ''DataClassification'' True ''data_classification''"]) (simp_all add: Event_fields_def)
  have f23: "runes (ev_RetentionClass e) = runes (ev_RetentionClass e')"
    by (rule str [of "StructField ''RetentionClass'' True ''retention_class''"]) (simp_all add: Event_fields_def)
  have f24: "runes (ev_IdempotencyKey e) = runes (ev_IdempotencyKey e')"
    by (rule str [of "StructField ''IdempotencyKey'' True ''idempotency_key''"]) (simp_all add: Event_fields_def)
  show ?thesis
    unfolding sameContent_def by (intro conjI act tgt chg f0 f1 f2 f3 f4 f5 f6 f7 f8 f9 f10 f11 f12 f13 f14 f15 f16 f17 f18 f19 f20 f21 f22 f23 f24)
qed

text \<open>
  Equal content digests: the producer's content is the same, or the two encodings are a collision of
  the hash.
\<close>

lemma EventContentDigest_binds:
  assumes "EventContentDigest e = Inr d" and "EventContentDigest e' = Inr d"
  shows "sameContent e e' \<or> (\<exists>a b. collision a b
     \<and> CanonicalJSON (Event_value (contentOnly e)) = Inr a \<and> CanonicalJSON (Event_value (contentOnly e')) = Inr b)"
proof -
  obtain a b where a: "CanonicalJSON (Event_value (contentOnly e)) = Inr a" "d = HashBytes a"
    and b: "CanonicalJSON (Event_value (contentOnly e')) = Inr b" "d = HashBytes b"
    using assms by (auto simp: EventContentDigest_def rbind_eq_Inr)
  show ?thesis
  proof (cases "a = b")
    case True
    then have "normV (Event_value (contentOnly e)) = normV (Event_value (contentOnly e'))"
      using writeCanonical_inj [OF a(1) [unfolded CanonicalJSON_def]] b(1) [unfolded CanonicalJSON_def] by blast
    from event_text_content [OF this] show ?thesis
      by (simp add: sameContent_def contentOnly_def)
  next
    case False
    then have "collision a b" using a(2) b(2) by (simp add: collision_def)
    then show ?thesis using a(1) b(1) by blast
  qed
qed

text \<open>Processing fields are not content.\<close>

lemma EventContentDigest_processing:
  "EventContentDigest (e\<lparr>ev_SourceDigest := a, ev_ReceivedAt := b, ev_ServerVersion := c, ev_Hash := d,
     ev_PrevHash := f, ev_Sequence := g, ev_StreamID := h\<rparr>) = EventContentDigest e"
  by (simp add: EventContentDigest_def contentOnly_def)

subsection \<open>Properties\<close>


text \<open>
  C28. Streams keep their origins apart. Two validated events of validated tenants that carry no
  assigned stream and land in one stream come from the same aggregate, or the same operation, or the
  same source system, of the same tenant.
\<close>

theorem streams_do_not_collide:
  assumes "ValidateBasic e = None" and "ValidTenantID (ev_TenantID e) = None" and "ev_StreamID e = ''''"
    and "ValidateBasic e' = None" and "ValidTenantID (ev_TenantID e') = None" and "ev_StreamID e' = ''''"
    and "Stream e = Stream e'"
  shows "streamOrigin e = streamOrigin e' \<and> ev_TenantID e = ev_TenantID e'"
proof -
  have "streamOrigin e = streamOrigin e'"
    using originStream_inj [OF streamOrigin_OK streamOrigin_OK] Stream_origin assms by metis
  then show ?thesis by (auto simp: streamOrigin_def split: if_splits)
qed

text \<open>The event the witnesses use.\<close>

definition exampleEvent :: Event where
  "exampleEvent = \<lparr>ev_EventID = ''e1'', ev_TenantID = ''t1'', ev_SourceSystem = ''crm'', ev_EventType = ''user.updated'',
     ev_SchemaID = ''user'', ev_SchemaVersion = 1, ev_OccurredAt = 700000 * ns_per_day, ev_ReceivedAt = 0,
     ev_OperationID = ''op1'', ev_CausationID = '''', ev_CorrelationID = '''', ev_TraceID = '''', ev_SpanID = '''',
     ev_Actor = \<lparr>ac_ID = ''alice'', ac_Type = '''', ac_Name = '''', ac_Department = '''', ac_Roles = []\<rparr>,
     ev_Targets = [], ev_AggregateType = '''', ev_AggregateID = '''', ev_AggregateVersion = 0,
     ev_WorkflowInstanceID = '''', ev_ExecutionRunID = '''', ev_Action = ''update'', ev_Outcome = ''success'',
     ev_Reason = '''', ev_ChangedFields = [], ev_Payload = Some [(''name'', Some (VString ''x''))], ev_PayloadRef = '''',
     ev_SourceDigest = '''', ev_DataClassification = ''internal'', ev_RetentionClass = ''standard'',
     ev_IdempotencyKey = ''k1'', ev_StreamID = '''', ev_Sequence = 0, ev_PrevHash = '''', ev_Hash = '''',
     ev_ServerVersion = ''''\<rparr>"

lemma exampleEvent_valid: "ValidateBasic exampleEvent = None" "ValidTenantID (ev_TenantID exampleEvent) = None"
  by code_simp+

theorem streams_do_not_collide_witness:
  "ValidateBasic exampleEvent = None
   \<and> Stream exampleEvent = Stream (exampleEvent\<lparr>ev_ReceivedAt := 5\<rparr>)
   \<and> streamOrigin exampleEvent = streamOrigin (exampleEvent\<lparr>ev_ReceivedAt := 5\<rparr>)"
proof -
  have v: "ValidateBasic (exampleEvent\<lparr>ev_ReceivedAt := 5\<rparr>) = None" by code_simp
  have t: "ValidTenantID (ev_TenantID (exampleEvent\<lparr>ev_ReceivedAt := 5\<rparr>)) = None" by code_simp
  have s: "Stream exampleEvent = Stream (exampleEvent\<lparr>ev_ReceivedAt := 5\<rparr>)" by (simp add: Stream_def)
  have o: "ev_StreamID exampleEvent = ''''" "ev_StreamID (exampleEvent\<lparr>ev_ReceivedAt := 5\<rparr>) = ''''"
    by (simp_all add: exampleEvent_def)
  show ?thesis
    using streams_do_not_collide [OF exampleEvent_valid o(1) v t o(2) s] s exampleEvent_valid by blast
qed

text \<open>
  C20. The content digest binds the content. When two events have one content digest, everything the
  producer supplied agrees, field by field: identifiers and texts rune by rune, versions, the instant
  as written, and payload, actor, targets and changed fields as canonical values; or else the two
  canonical texts are a collision of SHA-256.
\<close>

theorem content_digest_binds_content:
  assumes "EventContentDigest e = Inr d" and "EventContentDigest e' = Inr d"
  shows "sameContent e e' \<or> (\<exists>a b. collision a b
     \<and> CanonicalJSON (Event_value (contentOnly e)) = Inr a \<and> CanonicalJSON (Event_value (contentOnly e')) = Inr b)"
  by (rule EventContentDigest_binds [OF assms])

theorem content_digest_binds_content_witness:
  "\<exists>d. EventContentDigest exampleEvent = Inr d
     \<and> EventContentDigest (exampleEvent\<lparr>ev_ReceivedAt := 7, ev_Sequence := 3, ev_Hash := ''h''\<rparr>) = Inr d
     \<and> sameContent exampleEvent (exampleEvent\<lparr>ev_ReceivedAt := 7, ev_Sequence := 3, ev_Hash := ''h''\<rparr>)"
proof -
  let ?e' = "exampleEvent\<lparr>ev_ReceivedAt := 7, ev_Sequence := 3, ev_Hash := ''h''\<rparr>"
  have "\<not> isl (CanonicalJSON (Event_value (contentOnly exampleEvent)))" by code_simp
  then obtain a where a: "CanonicalJSON (Event_value (contentOnly exampleEvent)) = Inr a"
    by (cases "CanonicalJSON (Event_value (contentOnly exampleEvent))") auto
  have c: "contentOnly ?e' = contentOnly exampleEvent" by (simp add: contentOnly_def)
  have d: "EventContentDigest exampleEvent = Inr (HashBytes a)" "EventContentDigest ?e' = Inr (HashBytes a)"
    using a c by (simp_all add: EventContentDigest_def)
  from content_digest_binds_content [OF this] have "sameContent exampleEvent ?e'"
    using a c by (auto simp: collision_def)
  with d show ?thesis by blast
qed


end
