(* ===== verification/Store.thy ===== *)
theory Store
  imports Domain
begin

section \<open>The snapshot store: store/store.go\<close>

text \<open>
  The control-plane snapshot with the maps of the Go struct, and the optimistic update loop every
  mutation goes through. A backend is the persisted snapshot and its version; \<open>LoadForUpdate\<close> hands
  out a private copy, \<open>Save\<close> succeeds when the version is the one that was loaded. Other replicas may
  commit between the two: \<open>others i\<close> are the snapshots they commit during attempt \<open>i\<close>.
\<close>

subsection \<open>Records\<close>

record StreamState =
  st_TenantID :: string
  st_StreamID :: string
  st_NextSequence :: int
  st_HeadHash :: string
  st_PendingPrevHash :: string
  st_PendingHashes :: "string list"
  st_PendingEvents :: "string list"

record ExportLease =
  xl_Version :: int
  xl_JobID :: string
  xl_TenantID :: string
  xl_Owner :: string
  xl_HeartbeatAt :: time
  xl_ExpiresAt :: time

record ExportCheckpoint =
  xc_Version :: int
  xc_SealVersion :: int
  xc_JobID :: string
  xc_TenantID :: string
  xc_Binding :: string
  xc_ObjectPath :: string
  xc_SealedDigest :: string
  xc_Digest :: string
  xc_EventCount :: int
  xc_CreatedAt :: time
  xc_Signature :: string

record EventReference =
  er_OccurredAt :: time
  er_EventID :: string
  er_StreamID :: string
  er_Sequence :: int
  er_Hash :: string

record ExportPlanMember =
  pm_Reference :: EventReference
  pm_SchemaID :: string
  pm_SchemaVersion :: int
  pm_SchemaDigest :: string

record ExportPlanChunk =
  pc_SealVersion :: int
  pc_First :: int
  pc_Count :: int
  pc_ObjectPath :: string
  pc_SealedDigest :: string
  pc_Digest :: string
  pc_CreatedAt :: time

record ExportPlan =
  xp_Version :: int
  xp_FormatVersion :: int
  xp_JobID :: string
  xp_TenantID :: string
  xp_Binding :: string
  xp_CreatedAt :: time
  xp_Members :: "ExportPlanMember list"
  xp_Chunks :: "ExportPlanChunk list"
  xp_Signature :: string

record Snapshot =
  sn_LayoutVersion :: int
  sn_Tenants :: "Tenant gomap"
  sn_Sources :: "SourceSystem gomap"
  sn_Schemas :: "EventSchema gomap"
  sn_Policies :: "RetentionPolicy gomap"
  sn_Events :: "Event gomap"
  sn_Receipts :: "EventReceipt gomap"
  sn_Streams :: "StreamState gomap"
  sn_Segments :: "Segment list gomap"
  sn_Checkpoints :: "Checkpoint list gomap"
  sn_LegalHolds :: "LegalHold gomap"
  sn_Exports :: "ExportJob gomap"
  sn_ExportLeases :: "ExportLease gomap"
  sn_ExportCheckpoints :: "ExportCheckpoint gomap"
  sn_ExportPlans :: "ExportPlan gomap"
  sn_RestoreRuns :: "RestoreRun gomap"
  sn_LedgeredOutbox :: "Event gomap"
  sn_AdminActions :: "AdminAction list"
  sn_AggregateCheckpoints :: "AggregateCheckpoint list"
  sn_ArchiveConflictFailures :: "int gomap"
  sn_DeadLetters :: "DeadLetter gomap"

definition NewSnapshot :: Snapshot where
  "NewSnapshot = \<lparr>sn_LayoutVersion = 0, sn_Tenants = [], sn_Sources = [], sn_Schemas = [], sn_Policies = [],
     sn_Events = [], sn_Receipts = [], sn_Streams = [], sn_Segments = [], sn_Checkpoints = [],
     sn_LegalHolds = [], sn_Exports = [], sn_ExportLeases = [], sn_ExportCheckpoints = [],
     sn_ExportPlans = [], sn_RestoreRuns = [], sn_LedgeredOutbox = [], sn_AdminActions = [],
     sn_AggregateCheckpoints = [], sn_ArchiveConflictFailures = [], sn_DeadLetters = []\<rparr>"

text \<open>The zero values of the structs a map lookup or a composite literal leaves unset.\<close>

definition zeroReceipt :: EventReceipt where
  "zeroReceipt = \<lparr>rc_EventID = '''', rc_TenantID = '''', rc_IdempotencyKey = '''', rc_Status = '''',
     rc_AcceptedAt = 0, rc_LedgeredAt = 0, rc_IndexedAt = 0, rc_ArchivedAt = 0, rc_StreamID = '''',
     rc_Sequence = 0, rc_Hash = '''', rc_Duplicate = False, rc_Conflict = False, rc_ErrorCode = '''',
     rc_ErrorMessage = ''''\<rparr>"

definition zeroStream :: StreamState where
  "zeroStream = \<lparr>st_TenantID = '''', st_StreamID = '''', st_NextSequence = 0, st_HeadHash = '''',
     st_PendingPrevHash = '''', st_PendingHashes = [], st_PendingEvents = []\<rparr>"

subsection \<open>The PostgreSQL row: LoadForUpdate and Save\<close>

text \<open>
  The single row carries a version and the snapshot; an absent row is an empty snapshot. The baseline
  version is remembered by \<open>LoadForUpdate\<close>. \<open>Save\<close> inserts the row only from baseline zero and
  updates it only at the baseline version.
\<close>

record 'a pgBackend =
  pg_row :: "(int \<times> 'a) option"
  pg_lastVersion :: int

definition pgLoadForUpdate :: "'a \<Rightarrow> 'a pgBackend \<Rightarrow> 'a \<times> 'a pgBackend" where
  "pgLoadForUpdate emp b =
     (case pg_row b of None \<Rightarrow> (emp, b) | Some (version, data) \<Rightarrow> (data, b\<lparr>pg_lastVersion := version\<rparr>))"

definition pgUpdateRow :: "'a \<Rightarrow> 'a pgBackend \<Rightarrow> error option \<times> 'a pgBackend" where
  "pgUpdateRow data b =
     (case pg_row b of
        Some (version, _) \<Rightarrow>
          if version = pg_lastVersion b
          then (None, b\<lparr>pg_row := Some (version + 1, data), pg_lastVersion := pg_lastVersion b + 1\<rparr>)
          else (Some (Err ErrSnapshotConflict ''''), b)
      | None \<Rightarrow> (Some (Err ErrSnapshotConflict ''''), b))"

definition pgSave :: "'a \<Rightarrow> 'a \<Rightarrow> 'a pgBackend \<Rightarrow> error option \<times> 'a pgBackend" where
  "pgSave emp data b =
     (if pg_lastVersion b = 0 then
        (case pg_row b of
           Some _ \<Rightarrow> (Some (Err ErrSnapshotConflict ''''), b)
         | None \<Rightarrow> pgUpdateRow data (b\<lparr>pg_row := Some (1, emp), pg_lastVersion := 1\<rparr>))
      else pgUpdateRow data b)"

text \<open>A commit of another replica: it wins whatever version is current.\<close>

definition otherCommit :: "'a \<Rightarrow> 'a pgBackend \<Rightarrow> 'a pgBackend" where
  "otherCommit d b = b\<lparr>pg_row := Some ((case pg_row b of None \<Rightarrow> 2 | Some (v, _) \<Rightarrow> v + 1), d)\<rparr>"

subsection \<open>Update\<close>

definition snapshotConflictRetries :: nat where
  "snapshotConflictRetries = 3"

text \<open>
  The retry loop of \<open>updateLocked\<close>. \<open>attempt\<close> counts up to the retry bound, so the recursion is on
  what is left of it. The backoff sleep may be interrupted by the caller's context (\<open>sleepErr\<close>).
\<close>

fun updateLoop :: "'a \<Rightarrow> (nat \<Rightarrow> 'a list) \<Rightarrow> (nat \<Rightarrow> error option) \<Rightarrow> ('a \<Rightarrow> 'a result) \<Rightarrow> nat \<Rightarrow> nat
     \<Rightarrow> 'a pgBackend \<Rightarrow> error option \<times> 'a pgBackend" where
  "updateLoop emp others sleepErr fn attempt left b =
     (case pgLoadForUpdate emp b of (data, b1) \<Rightarrow>
        (case fn data of
           Inl e \<Rightarrow> (Some e, b1)
         | Inr data' \<Rightarrow>
             (case pgSave emp data' (fold otherCommit (others attempt) b1) of
                (None, b2) \<Rightarrow> (None, b2)
              | (Some e, b2) \<Rightarrow>
                  (case left of
                     0 \<Rightarrow> (Some e, b2)
                   | Suc left' \<Rightarrow>
                       (if errors_is e ErrSnapshotConflict then
                          (case sleepErr attempt of
                             Some e' \<Rightarrow> (Some e', b2)
                           | None \<Rightarrow> updateLoop emp others sleepErr fn (Suc attempt) left' b2)
                        else (Some e, b2))))))"

definition updateLocked :: "'a \<Rightarrow> (nat \<Rightarrow> 'a list) \<Rightarrow> (nat \<Rightarrow> error option) \<Rightarrow> ('a \<Rightarrow> 'a result)
     \<Rightarrow> 'a pgBackend \<Rightarrow> error option \<times> 'a pgBackend" where
  "updateLocked emp others sleepErr fn b = updateLoop emp others sleepErr fn 0 snapshotConflictRetries b"

fun updateCheckedLoop :: "'a \<Rightarrow> (nat \<Rightarrow> 'a list) \<Rightarrow> (nat \<Rightarrow> error option) \<Rightarrow> ('a \<Rightarrow> (bool \<times> 'a) result) \<Rightarrow> nat \<Rightarrow> nat
     \<Rightarrow> 'a pgBackend \<Rightarrow> error option \<times> 'a pgBackend" where
  "updateCheckedLoop emp others sleepErr fn attempt left b =
     (case pgLoadForUpdate emp b of (data, b1) \<Rightarrow>
        (case fn data of
           Inl e \<Rightarrow> (Some e, b1)
         | Inr (mutated, data') \<Rightarrow>
             if \<not> mutated then (None, b1)
             else
             (case pgSave emp data' (fold otherCommit (others attempt) b1) of
                (None, b2) \<Rightarrow> (None, b2)
              | (Some e, b2) \<Rightarrow>
                  (case left of
                     0 \<Rightarrow> (Some e, b2)
                   | Suc left' \<Rightarrow>
                       (if errors_is e ErrSnapshotConflict then
                          (case sleepErr attempt of
                             Some e' \<Rightarrow> (Some e', b2)
                           | None \<Rightarrow> updateCheckedLoop emp others sleepErr fn (Suc attempt) left' b2)
                        else (Some e, b2))))))"

definition updateChecked :: "'a \<Rightarrow> (nat \<Rightarrow> 'a list) \<Rightarrow> (nat \<Rightarrow> error option) \<Rightarrow> ('a \<Rightarrow> (bool \<times> 'a) result)
     \<Rightarrow> 'a pgBackend \<Rightarrow> error option \<times> 'a pgBackend" where
  "updateChecked emp others sleepErr fn b = updateCheckedLoop emp others sleepErr fn 0 snapshotConflictRetries b"

declare updateLoop.simps [simp del] updateCheckedLoop.simps [simp del]

subsection \<open>What an update commits\<close>

text \<open>
  The content a reader sees. A backend reached from another by other replicas' commits only has one of
  their snapshots, or the original content.
\<close>

definition content :: "'a \<Rightarrow> 'a pgBackend \<Rightarrow> 'a" where
  "content emp b = (case pg_row b of None \<Rightarrow> emp | Some (_, d) \<Rightarrow> d)"

definition pgOK :: "'a pgBackend \<Rightarrow> bool" where
  "pgOK b \<longleftrightarrow> (case pg_row b of None \<Rightarrow> pg_lastVersion b = 0 | Some (v, _) \<Rightarrow> 1 \<le> v)"

lemma pgOK_load: "pgOK b \<Longrightarrow> pgLoadForUpdate emp b = (d, b1) \<Longrightarrow>
    d = content emp b \<and> pgOK b1 \<and> pg_row b1 = pg_row b
    \<and> pg_lastVersion b1 = (case pg_row b of None \<Rightarrow> 0 | Some (v, _) \<Rightarrow> v)"
  by (auto simp: pgOK_def pgLoadForUpdate_def content_def split: option.splits)

lemma otherCommit_row:
  "pg_row (otherCommit d b) = Some ((case pg_row b of None \<Rightarrow> 2 | Some (v, _) \<Rightarrow> v + 1), d)"
  by (simp add: otherCommit_def)

lemma otherCommits_row:
  "pgOK b \<Longrightarrow> ds \<noteq> [] \<Longrightarrow> \<exists>v. pg_row (fold otherCommit ds b) = Some (v, last ds)
     \<and> (case pg_row b of None \<Rightarrow> 0 | Some (v0, _) \<Rightarrow> v0) < v \<and> 1 \<le> v"
proof (induction ds rule: rev_induct)
  case (snoc d ds)
  show ?case
  proof (cases "ds = []")
    case True
    then show ?thesis using snoc.prems by (auto simp: otherCommit_row pgOK_def split: option.splits)
  next
    case False
    then obtain v where "pg_row (fold otherCommit ds b) = Some (v, last ds)"
      "(case pg_row b of None \<Rightarrow> 0 | Some (v0, _) \<Rightarrow> v0) < v" "1 \<le> v"
      using snoc by blast
    then show ?thesis by (simp add: otherCommit_row)
  qed
qed simp

lemma otherCommits_last [simp]: "pg_lastVersion (fold otherCommit ds b) = pg_lastVersion b"
  by (induction ds arbitrary: b) (auto simp: otherCommit_def)

text \<open>A save succeeds exactly when no other replica committed since the load.\<close>

lemma pgSave_after_others:
  assumes ok: "pgOK b" and load: "pgLoadForUpdate emp b = (d, b1)"
  shows "ds = [] \<Longrightarrow> \<exists>b2. pgSave emp d' (fold otherCommit ds b1) = (None, b2) \<and> pgOK b2 \<and> content emp b2 = d'"
    and "ds \<noteq> [] \<Longrightarrow> pgSave emp d' (fold otherCommit ds b1)
           = (Some (Err ErrSnapshotConflict ''''), fold otherCommit ds b1)
         \<and> pgOK (fold otherCommit ds b1) \<and> content emp (fold otherCommit ds b1) = last ds"
proof -
  note l = pgOK_load [OF ok load]
  show "ds = [] \<Longrightarrow> \<exists>b2. pgSave emp d' (fold otherCommit ds b1) = (None, b2) \<and> pgOK b2 \<and> content emp b2 = d'"
    using l ok by (auto simp: pgSave_def pgUpdateRow_def pgOK_def content_def split: option.splits)
  assume ne: "ds \<noteq> []"
  then obtain v where "pg_row (fold otherCommit ds b1) = Some (v, last ds)"
    "(case pg_row b1 of None \<Rightarrow> 0 | Some (v0, _) \<Rightarrow> v0) < v" "1 \<le> v"
    using otherCommits_row [of b1 ds] l by blast
  then show "pgSave emp d' (fold otherCommit ds b1) = (Some (Err ErrSnapshotConflict ''''), fold otherCommit ds b1)
         \<and> pgOK (fold otherCommit ds b1) \<and> content emp (fold otherCommit ds b1) = last ds"
    using l by (auto simp: pgSave_def pgUpdateRow_def pgOK_def content_def split: option.splits)
qed

text \<open>
  The specification the loop refines: versions and rows are gone. An attempt without interference
  commits on the content of that moment; an attempt with interference leaves the last of the others'
  snapshots and is repeated while retries are left.
\<close>

fun absUpdate :: "(nat \<Rightarrow> 'a list) \<Rightarrow> (nat \<Rightarrow> error option) \<Rightarrow> ('a \<Rightarrow> 'a result) \<Rightarrow> nat \<Rightarrow> nat \<Rightarrow> 'a \<Rightarrow> error option \<times> 'a" where
  "absUpdate others sleepErr fn attempt left d =
     (case fn d of
        Inl e \<Rightarrow> (Some e, d)
      | Inr d' \<Rightarrow>
          (if others attempt = [] then (None, d')
           else (case left of
                   0 \<Rightarrow> (Some (Err ErrSnapshotConflict ''''), last (others attempt))
                 | Suc left' \<Rightarrow>
                     (case sleepErr attempt of
                        Some e \<Rightarrow> (Some e, last (others attempt))
                      | None \<Rightarrow> absUpdate others sleepErr fn (Suc attempt) left' (last (others attempt))))))"

declare absUpdate.simps [simp del]

lemma updateLoop_refines:
  "pgOK b \<Longrightarrow> \<exists>r b'. updateLoop emp others sl fn a left b = (r, b') \<and> pgOK b'
     \<and> absUpdate others sl fn a left (content emp b) = (r, content emp b')"
proof (induction left arbitrary: a b)
  case 0
  obtain d b1 where l: "pgLoadForUpdate emp b = (d, b1)" by fastforce
  note load = pgOK_load [OF 0 l]
  note quiet = pgSave_after_others(1) [OF 0 l, where ds = "others a"]
  note busy = pgSave_after_others(2) [OF 0 l, where ds = "others a"]
  have row: "content emp b1 = content emp b" using load by (simp add: content_def)
  show ?case
  proof (cases "fn d")
    case (Inl e)
    then show ?thesis using load l row by (simp add: updateLoop.simps absUpdate.simps)
  next
    case (Inr d')
    then show ?thesis
      using load l quiet [of d'] busy [of d'] by (cases "others a = []") (auto simp: updateLoop.simps absUpdate.simps)
  qed
next
  case (Suc left)
  obtain d b1 where l: "pgLoadForUpdate emp b = (d, b1)" by fastforce
  note load = pgOK_load [OF Suc.prems l]
  note quiet = pgSave_after_others(1) [OF Suc.prems l, where ds = "others a"]
  note busy = pgSave_after_others(2) [OF Suc.prems l, where ds = "others a"]
  have row: "content emp b1 = content emp b" using load by (simp add: content_def)
  show ?case
  proof (cases "fn d")
    case (Inl e)
    then show ?thesis using load l row by (simp add: updateLoop.simps absUpdate.simps)
  next
    case (Inr d')
    show ?thesis
    proof (cases "others a = []")
      case True
      then show ?thesis using Inr load l quiet [of d'] by (auto simp: updateLoop.simps absUpdate.simps)
    next
      case False
      note c = busy [OF False, of d']
      show ?thesis
      proof (cases "sl a")
        case None
        then show ?thesis
          using Suc.IH [of "fold otherCommit (others a) b1" "Suc a"] c Inr load l False
          by (simp add: updateLoop.simps [of _ _ _ _ a] absUpdate.simps [of _ _ _ a])
      next
        case (Some e)
        then show ?thesis
          using c Inr load l False by (simp add: updateLoop.simps absUpdate.simps)
      qed
    qed
  qed
qed

lemma updateChecked_unmutated:
  assumes "pgOK b" and "fn (content emp b) = Inr (False, d')"
  shows "\<exists>b'. updateChecked emp others sl fn b = (None, b') \<and> pg_row b' = pg_row b"
proof -
  obtain d b1 where l: "pgLoadForUpdate emp b = (d, b1)" by fastforce
  then show ?thesis
    using pgOK_load [OF assms(1) l] assms(2)
    by (simp add: updateChecked_def updateCheckedLoop.simps [of _ _ _ _ 0])
qed

text \<open>What the specification commits, and when.\<close>

definition loaded :: "(nat \<Rightarrow> 'a list) \<Rightarrow> nat \<Rightarrow> 'a \<Rightarrow> nat \<Rightarrow> 'a" where
  \<comment> \<open>the content the attempt \<open>n\<close> after attempt \<open>a\<close> loads\<close>
  "loaded others a d n = (case n of 0 \<Rightarrow> d | Suc k \<Rightarrow> last (others (a + k)))"

lemma loaded_Suc: "loaded others (Suc a) (last (others a)) n = loaded others a d (Suc n)"
  by (cases n) (simp_all add: loaded_def)

lemma absUpdate_success:
  "absUpdate others sl fn a left d = (None, d') \<Longrightarrow>
     \<exists>n \<le> left. (\<forall>i < n. others (a + i) \<noteq> []) \<and> others (a + n) = [] \<and> fn (loaded others a d n) = Inr d'"
proof (induction left arbitrary: a d)
  case 0
  then show ?case by (auto simp: absUpdate.simps loaded_def split: sum.splits if_splits)
next
  case (Suc left)
  show ?case
  proof (cases "others a = []")
    case True
    then show ?thesis
      using Suc.prems by (intro exI [of _ 0]) (auto simp: absUpdate.simps loaded_def split: sum.splits)
  next
    case False
    then have "absUpdate others sl fn (Suc a) left (last (others a)) = (None, d')"
      using Suc.prems by (auto simp: absUpdate.simps [of _ _ _ a] split: sum.splits option.splits)
    from Suc.IH [OF this] obtain n where n: "n \<le> left" "\<forall>i < n. others (Suc a + i) \<noteq> []" "others (Suc a + n) = []"
      "fn (loaded others (Suc a) (last (others a)) n) = Inr d'" by blast
    have "others (a + i) \<noteq> []" if "i < Suc n" for i
      using that n(2) False by (cases i) auto
    then show ?thesis using n loaded_Suc [of others a n d] by (intro exI [of _ "Suc n"]) auto
  qed
qed

lemma absUpdate_failure:
  "absUpdate others sl fn a left d = (Some e, d') \<Longrightarrow> d' = d \<or> (\<exists>i. others i \<noteq> [] \<and> d' = last (others i))"
proof (induction left arbitrary: a d)
  case 0
  then show ?case by (auto simp: absUpdate.simps split: sum.splits if_splits)
next
  case (Suc left)
  then show ?case
    by (auto simp: absUpdate.simps [of _ _ _ a] split: sum.splits if_splits option.splits)
qed

subsection \<open>Property\<close>

text \<open>
  C13. Update under concurrent replicas. Whatever other replicas commit between load and save, an
  update either succeeds within four attempts, and then the stored snapshot is the mutation applied
  to what was current when nobody interfered (so no commit of another replica is lost), or it fails
  and the stored snapshot is the one from before or one another replica committed.
\<close>

theorem update_is_atomic:
  assumes "pgOK b"
  shows "\<exists>r b'. updateLocked emp others sleepErr fn b = (r, b') \<and> pgOK b' \<and>
    (case r of
       None \<Rightarrow> (\<exists>n \<le> 3. (\<forall>i < n. others i \<noteq> []) \<and> others n = []
                  \<and> fn (loaded others 0 (content emp b) n) = Inr (content emp b'))
     | Some e \<Rightarrow> content emp b' = content emp b \<or> (\<exists>i. others i \<noteq> [] \<and> content emp b' = last (others i)))"
proof -
  obtain r b' where u: "updateLocked emp others sleepErr fn b = (r, b')" "pgOK b'"
    and a: "absUpdate others sleepErr fn 0 3 (content emp b) = (r, content emp b')"
    using updateLoop_refines [OF assms, of emp others sleepErr fn 0 3]
    by (auto simp: updateLocked_def snapshotConflictRetries_def)
  show ?thesis
  proof (cases r)
    case None
    then show ?thesis using u absUpdate_success [OF a [unfolded None]] by auto
  next
    case (Some e)
    then show ?thesis using u absUpdate_failure [OF a [unfolded Some]] by auto
  qed
qed

theorem update_is_atomic_witness:
  "\<exists>r b'. updateLocked (0::int) (\<lambda>i. if i = 0 then [10] else []) (\<lambda>_. None) (\<lambda>d. Inr (d + 1))
       \<lparr>pg_row = Some (1, 5), pg_lastVersion = 0\<rparr> = (r, b') \<and> pgOK b'
     \<and> updateLocked (0::int) (\<lambda>i. if i = 0 then [10] else []) (\<lambda>_. None) (\<lambda>d. Inr (d + 1))
         \<lparr>pg_row = Some (1, 5), pg_lastVersion = 0\<rparr> = (None, \<lparr>pg_row = Some (3, 11), pg_lastVersion = 3\<rparr>)"
proof -
  have ok: "pgOK \<lparr>pg_row = Some (1, 5 :: int), pg_lastVersion = 0\<rparr>" by (simp add: pgOK_def)
  have run: "updateLocked (0::int) (\<lambda>i. if i = 0 then [10] else []) (\<lambda>_. None) (\<lambda>d. Inr (d + 1))
         \<lparr>pg_row = Some (1, 5), pg_lastVersion = 0\<rparr> = (None, \<lparr>pg_row = Some (3, 11), pg_lastVersion = 3\<rparr>)"
    by code_simp
  show ?thesis using update_is_atomic [OF ok, of 0 "\<lambda>i. if i = 0 then [10] else []" "\<lambda>_. None" "\<lambda>d. Inr (d + 1)"] run
    by auto
qed

end
