(* ===== verification/Merkle.thy ===== *)
theory Merkle
  imports Sha256
begin

section \<open>Merkle roots: service/query_match.go, merkleRoot\<close>

text \<open>
  The root over a segment's event hashes and over a tenant's stream roots. An odd last node is paired
  with itself. Among lists of one length the root binds the leaves, up to an explicit collision
  between two strings the two computations hash; across lengths it does not, which is why the
  verifier compares the number of events as well.
\<close>

subsection \<open>Definition\<close>

fun merkleLevel :: "string list \<Rightarrow> string list" where
  "merkleLevel [] = []"
| "merkleLevel [left] = [HashBytes (left @ left)]"
| "merkleLevel (left # right # rest) = HashBytes (left @ right) # merkleLevel rest"

lemma length_merkleLevel: "length (merkleLevel xs) = (length xs + 1) div 2"
  by (induction xs rule: merkleLevel.induct) auto

function merkleLoop :: "string list \<Rightarrow> string list" where
  "merkleLoop level = (if length level > 1 then merkleLoop (merkleLevel level) else level)"
  by pat_completeness auto
termination
  by (relation "measure length") (auto simp: length_merkleLevel)

declare merkleLoop.simps [simp del]

definition merkleRoot :: "string list \<Rightarrow> string" where
  "merkleRoot hashes = (if hashes = [] then HashBytes [] else hd (merkleLoop hashes))"

subsection \<open>What the loop hashes\<close>

fun levelPairs :: "string list \<Rightarrow> string list" where
  "levelPairs [] = []"
| "levelPairs [left] = [left @ left]"
| "levelPairs (left # right # rest) = (left @ right) # levelPairs rest"

function merklePairs :: "string list \<Rightarrow> string list" where
  "merklePairs level = (if length level > 1 then levelPairs level @ merklePairs (merkleLevel level) else [])"
  by pat_completeness auto
termination
  by (relation "measure length") (auto simp: length_merkleLevel)

declare merklePairs.simps [simp del]

lemma merkleLevel_pairs: "merkleLevel xs = map HashBytes (levelPairs xs)"
  by (induction xs rule: merkleLevel.induct) auto

definition hash_sized :: "string list \<Rightarrow> bool" where
  "hash_sized xs \<longleftrightarrow> (\<forall>x \<in> set xs. length x = 64)"

lemma hash_sized_level [simp]: "hash_sized (merkleLevel xs)"
  by (auto simp: hash_sized_def merkleLevel_pairs)

lemma levelPairs_inj:
  "length xs = length ys \<Longrightarrow> hash_sized xs \<Longrightarrow> hash_sized ys \<Longrightarrow> levelPairs xs = levelPairs ys \<Longrightarrow> xs = ys"
proof (induction xs arbitrary: ys rule: levelPairs.induct)
  case 1
  then show ?case by simp
next
  case (2 left)
  then obtain y where "ys = [y]" by (cases ys) auto
  with 2 show ?case by (auto simp: hash_sized_def)
next
  case (3 left right rest)
  then obtain l r zs where ys: "ys = l # r # zs" by (cases ys; cases "tl ys") auto
  have "left = l \<and> right = r" using 3 ys by (auto simp: hash_sized_def)
  moreover have "rest = zs" by (rule "3.IH") (use 3 ys in \<open>auto simp: hash_sized_def\<close>)
  ultimately show ?case using ys by simp
qed

lemma map_hash_eq:
  "length as = length bs \<Longrightarrow> map HashBytes as = map HashBytes bs \<Longrightarrow>
     as = bs \<or> (\<exists>a \<in> set as. \<exists>b \<in> set bs. collision a b)"
proof (induction as arbitrary: bs)
  case (Cons a as)
  then obtain b cs where bs: "bs = b # cs" by (cases bs) auto
  have "a = b \<or> collision a b" using Cons.prems(2) bs by (auto simp: collision_def)
  moreover have "as = cs \<or> (\<exists>a \<in> set as. \<exists>b \<in> set cs. collision a b)"
    by (rule Cons.IH) (use Cons.prems bs in auto)
  ultimately show ?case using bs by auto
qed simp

lemma length_levelPairs: "length (levelPairs xs) = (length xs + 1) div 2"
  by (metis length_map length_merkleLevel merkleLevel_pairs)

lemma merkleLoop_length: "xs \<noteq> [] \<Longrightarrow> length (merkleLoop xs) = 1"
proof (induction xs rule: merkleLoop.induct)
  case (1 level)
  show ?case
  proof (cases "length level > 1")
    case True
    then have "merkleLevel level \<noteq> []" using length_merkleLevel [of level] by force
    then show ?thesis using 1(1) [OF True] True by (simp add: merkleLoop.simps [of level])
  next
    case False
    then show ?thesis using "1.prems" by (cases level) (auto simp: merkleLoop.simps)
  qed
qed

lemma merkleLoop_binds:
  assumes "length xs = length ys" and "hash_sized xs" and "hash_sized ys" and "merkleLoop xs = merkleLoop ys"
  shows "xs = ys \<or> (\<exists>a \<in> set (merklePairs xs). \<exists>b \<in> set (merklePairs ys). collision a b)"
  using assms
proof (induction xs arbitrary: ys rule: merkleLoop.induct)
  case (1 level)
  show ?case
  proof (cases "length level > 1")
    case False
    then show ?thesis using "1.prems" by (simp add: merkleLoop.simps)
  next
    case True
    have up: "merkleLoop (merkleLevel level) = merkleLoop (merkleLevel ys)"
      using "1.prems"(1,4) True by (simp add: merkleLoop.simps [of level] merkleLoop.simps [of ys])
    have mp: "merklePairs level = levelPairs level @ merklePairs (merkleLevel level)"
      "merklePairs ys = levelPairs ys @ merklePairs (merkleLevel ys)"
      using True "1.prems"(1) by (simp_all add: merklePairs.simps [of level] merklePairs.simps [of ys])
    have "merkleLevel level = merkleLevel ys
        \<or> (\<exists>a \<in> set (merklePairs (merkleLevel level)). \<exists>b \<in> set (merklePairs (merkleLevel ys)). collision a b)"
      by (rule "1.IH" [OF True]) (use "1.prems"(1) up in \<open>simp_all add: length_merkleLevel\<close>)
    moreover have "level = ys \<or> (\<exists>a \<in> set (levelPairs level). \<exists>b \<in> set (levelPairs ys). collision a b)"
      if "merkleLevel level = merkleLevel ys"
      using map_hash_eq [of "levelPairs level" "levelPairs ys"] levelPairs_inj [of level ys] that "1.prems"(1-3)
      by (auto simp: merkleLevel_pairs length_levelPairs)
    ultimately show ?thesis unfolding mp by auto
  qed
qed

lemma merkleRoot_binds:
  assumes len: "length xs = length ys" and "hash_sized xs" and "hash_sized ys" and eq: "merkleRoot xs = merkleRoot ys"
  shows "xs = ys \<or> (\<exists>a \<in> set (merklePairs xs). \<exists>b \<in> set (merklePairs ys). collision a b)"
proof (cases "xs = []")
  case True
  then show ?thesis using len by simp
next
  case False
  then have ne: "ys \<noteq> []" using len by auto
  obtain a b where ab: "merkleLoop xs = [a]" "merkleLoop ys = [b]"
    using merkleLoop_length [OF False] merkleLoop_length [OF ne]
    by (metis One_nat_def length_0_conv length_Suc_conv)
  then have "merkleLoop xs = merkleLoop ys" using eq False ne by (simp add: merkleRoot_def)
  then show ?thesis using merkleLoop_binds assms by blast
qed

text \<open>Across lengths: repeating the odd last leaf keeps the root.\<close>

lemma merkleRoot_duplicate_last: "merkleRoot [a, b, c] = merkleRoot [a, b, c, c]"
  by (simp add: merkleRoot_def merkleLoop.simps)

subsection \<open>Property\<close>



end
