(* ===== verification/Crypto.thy ===== *)
theory Crypto
  imports Domain
begin

section \<open>Field and export protection: security/fieldcrypto.go\<close>

text \<open>
  Encrypted fields and sealed exports over an AEAD cipher, search digests over HMAC-SHA-256, and the
  base64 (URL alphabet, unpadded) both are written in. AES-256-GCM and the \<open>encoding/json\<close> codec are
  arguments: \<open>Aead\<close> carries seal and open, \<open>Codec\<close> carries \<open>json.Marshal\<close>, a decoder with
  \<open>UseNumber\<close> and \<open>json.Unmarshal\<close>. What is relied on is stated where it is used: opening what was sealed under the same
  key, nonce and associated data gives the plaintext.
\<close>

type_synonym bytes = "nat list"

subsection \<open>base64.RawURLEncoding\<close>

definition b64char :: "nat \<Rightarrow> char" where
  "b64char d = (if d < 26 then char_of (65 + d) else if d < 52 then char_of (71 + d)
     else if d < 62 then char_of (d - 4) else if d = 62 then CHR ''-'' else CHR ''_'')"

definition b64val :: "char \<Rightarrow> nat option" where
  "b64val c = (let b = byte_of c in
     if 65 \<le> b \<and> b \<le> 90 then Some (b - 65) else if 97 \<le> b \<and> b \<le> 122 then Some (b - 71)
     else if 48 \<le> b \<and> b \<le> 57 then Some (b + 4) else if b = 45 then Some 62 else if b = 95 then Some 63 else None)"

fun b64groups :: "bytes \<Rightarrow> nat list" where
  "b64groups [] = []"
| "b64groups [a] = [a div 4, a mod 4 * 16]"
| "b64groups [a, b] = [a div 4, a mod 4 * 16 + b div 16, b mod 16 * 4]"
| "b64groups (a # b # c # bs) =
     a div 4 # (a mod 4 * 16 + b div 16) # (b mod 16 * 4 + c div 64) # c mod 64 # b64groups bs"

fun b64ungroup :: "nat list \<Rightarrow> bytes option" where
  "b64ungroup [] = Some []"
| "b64ungroup [w] = None"
| "b64ungroup [w, x] = Some [w * 4 + x div 16]"
| "b64ungroup [w, x, y] = Some [w * 4 + x div 16, x mod 16 * 16 + y div 4]"
| "b64ungroup (w # x # y # z # vs) =
     map_option (\<lambda>bs. (w * 4 + x div 16) # (x mod 16 * 16 + y div 4) # (y mod 4 * 64 + z) # bs) (b64ungroup vs)"

definition b64encode :: "bytes \<Rightarrow> string" where
  "b64encode bs = map b64char (b64groups bs)"

text \<open>The decoder skips line breaks.\<close>

definition b64decode :: "string \<Rightarrow> bytes option" where
  "b64decode s =
     (let vs = map b64val (filter (\<lambda>c. c \<noteq> CHR 0x0A \<and> c \<noteq> CHR 0x0D) s)
      in if None \<in> set vs then None else b64ungroup (map the vs))"

lemma b64val_char: "d < 64 \<Longrightarrow> b64val (b64char d) = Some d"
  by (auto simp: b64val_def b64char_def Let_def)

lemma b64char_no_break: "d < 64 \<Longrightarrow> b64char d \<noteq> CHR 0x0A \<and> b64char d \<noteq> CHR 0x0D"
  by (auto simp: b64char_def dest!: arg_cong [of _ _ byte_of])

lemma b64groups_less: "\<forall>b \<in> set bs. b < 256 \<Longrightarrow> \<forall>d \<in> set (b64groups bs). d < 64"
  by (induction bs rule: b64groups.induct) auto

lemma b64ungroup_groups: "\<forall>b \<in> set bs. b < 256 \<Longrightarrow> b64ungroup (b64groups bs) = Some bs"
  by (induction bs rule: b64groups.induct) auto

lemma b64decode_encode:
  assumes "\<forall>b \<in> set bs. b < 256"
  shows "b64decode (b64encode bs) = Some bs"
proof -
  let ?g = "b64groups bs"
  have lt: "\<forall>d \<in> set ?g. d < 64" by (rule b64groups_less [OF assms])
  have f: "filter (\<lambda>c. c \<noteq> CHR 0x0A \<and> c \<noteq> CHR 0x0D) (map b64char ?g) = map b64char ?g"
    using lt b64char_no_break by (simp add: filter_id_conv)
  have v: "map b64val (map b64char ?g) = map Some ?g"
    using lt b64val_char by simp
  show ?thesis
    unfolding b64decode_def b64encode_def f v by (simp add: comp_def b64ungroup_groups [OF assms])
qed

subsection \<open>Keys and HMAC\<close>

definition string_bytes :: "string \<Rightarrow> bytes" where
  "string_bytes s = map byte_of s"

definition bytes_string :: "bytes \<Rightarrow> string" where
  "bytes_string bs = map char_of bs"

definition keyBytes :: "string \<Rightarrow> bytes" where
  "keyBytes key = sha256 (string_bytes key)"

definition hmac_sha256 :: "bytes \<Rightarrow> bytes \<Rightarrow> bytes" where
  \<comment> \<open>a key of at most the block size of 64 bytes\<close>
  "hmac_sha256 k m =
     (let k0 = k @ replicate (64 - length k) 0
      in sha256 (map (\<lambda>b. b XOR 92) k0 @ sha256 (map (\<lambda>b. b XOR 54) k0 @ m)))"

lemma bytes_string_bytes: "\<forall>b \<in> set bs. b < 256 \<Longrightarrow> string_bytes (bytes_string bs) = bs"
  by (induction bs) (auto simp: string_bytes_def bytes_string_def)

lemma string_bytes_inj: "string_bytes a = string_bytes b \<longleftrightarrow> a = b"
  by (auto simp: string_bytes_def inj_map_eq_map inj_on_def)

lemma string_bytes_less: "\<forall>b \<in> set (string_bytes s). b < 256"
  by (auto simp: string_bytes_def)

lemma string_bytes_append: "string_bytes (a @ b) = string_bytes a @ string_bytes b"
  by (simp add: string_bytes_def)

subsection \<open>The cipher and the codec\<close>

record Aead =
  ae_Seal :: "bytes \<Rightarrow> bytes \<Rightarrow> bytes \<Rightarrow> bytes \<Rightarrow> bytes"
  ae_Open :: "bytes \<Rightarrow> bytes \<Rightarrow> bytes \<Rightarrow> bytes \<Rightarrow> bytes result"

record Codec =
  js_Marshal :: "any \<Rightarrow> string result"
  js_Decode :: "string \<Rightarrow> any result"
  js_Unmarshal :: "string \<Rightarrow> any result"

definition nonceSize :: nat where
  "nonceSize = 12"

subsection \<open>Encrypted fields\<close>

definition encryptedPrefix :: string where
  "encryptedPrefix = ''enc:v1:''"

definition EncryptJSON :: "Aead \<Rightarrow> Codec \<Rightarrow> bytes \<Rightarrow> any \<Rightarrow> string \<Rightarrow> string \<Rightarrow> string result" where
  \<comment> \<open>\<open>nonce\<close> is what \<open>rand.Read\<close> returned\<close>
  "EncryptJSON ae js nonce value key associatedData =
     rbind (js_Marshal js value) (\<lambda>plain.
       let ciphertext = ae_Seal ae (keyBytes key) nonce (string_bytes plain) (string_bytes associatedData)
       in Inr (encryptedPrefix @ b64encode (nonce @ ciphertext)))"

definition DecryptJSON :: "Aead \<Rightarrow> Codec \<Rightarrow> string \<Rightarrow> string \<Rightarrow> string \<Rightarrow> any result" where
  "DecryptJSON ae js encoded key associatedData =
     (if \<not> HasPrefix encoded encryptedPrefix then Inl (Err ErrOther ''invalid encrypted field'')
      else (case b64decode (drop (length encryptedPrefix) encoded) of
              None \<Rightarrow> Inl (Err ErrOther ''illegal base64 data'')
            | Some combined \<Rightarrow>
                if length combined < nonceSize then Inl (Err ErrOther ''invalid encrypted field'')
                else rbind (ae_Open ae (keyBytes key) (take nonceSize combined) (drop nonceSize combined)
                              (string_bytes associatedData)) (\<lambda>plain.
                       js_Decode js (bytes_string plain))))"

subsection \<open>Search digests\<close>

definition searchDigestPrefix :: string where
  "searchDigestPrefix = ''sd2:''"

definition SearchDigestSuffix :: string where
  "SearchDigestSuffix = ''__search_digest''"

definition SearchDigest :: "Codec \<Rightarrow> any \<Rightarrow> string \<Rightarrow> string result" where
  "SearchDigest js value key =
     rbind (js_Marshal js value) (\<lambda>plain. Inr (b64encode (hmac_sha256 (keyBytes key) (string_bytes plain))))"

definition searchDigestInput :: "string \<Rightarrow> string \<Rightarrow> string \<Rightarrow> bytes" where
  "searchDigestInput plain tenantID field = string_bytes plain @ [0] @ string_bytes tenantID @ [0] @ string_bytes field"

definition SearchDigestBound :: "Codec \<Rightarrow> any \<Rightarrow> string \<Rightarrow> string \<Rightarrow> string \<Rightarrow> string result" where
  "SearchDigestBound js value key tenantID field =
     rbind (js_Marshal js value) (\<lambda>plain.
       Inr (searchDigestPrefix @ b64encode (hmac_sha256 (keyBytes key) (searchDigestInput plain tenantID field))))"

definition IsBoundSearchDigest :: "string \<Rightarrow> bool" where
  "IsBoundSearchDigest digest = HasPrefix digest searchDigestPrefix"

fun stripSearchDigestKeys :: "gval \<Rightarrow> gval" where
  "stripSearchDigestKeys (VMap b (Some kvs)) =
     VMap b (Some (map (\<lambda>kv. (fst kv, stripSearchDigestKeys (snd kv)))
       (filter (\<lambda>kv. \<not> HasSuffix (fst kv) SearchDigestSuffix) kvs)))"
| "stripSearchDigestKeys (VSlice (Some vs)) = VSlice (Some (map (\<lambda>v. stripSearchDigestKeys v) vs))"
| "stripSearchDigestKeys (VRef (Some v)) = VRef (Some (stripSearchDigestKeys v))"
| "stripSearchDigestKeys v = v"

definition StripSearchDigests :: "Codec \<Rightarrow> payload option \<Rightarrow> any result" where
  "StripSearchDigests js p =
     rbind (js_Marshal js (Some (payload_value p))) (\<lambda>encoded.
     rbind (js_Decode js encoded) (\<lambda>copy. Inr (map_option stripSearchDigestKeys copy)))"

subsection \<open>Sealed exports\<close>

definition exportPrefix :: string where
  "exportPrefix = ''export:v1:''"

definition exportV2Prefix :: string where
  "exportV2Prefix = ''export:v2:''"

definition ExportBinding :: "string \<Rightarrow> string \<Rightarrow> string" where
  "ExportBinding tenantID jobID =
     exportV2Prefix @ itoa (int (length tenantID)) @ '':'' @ tenantID @ ''|'' @ itoa (int (length jobID)) @ '':'' @ jobID"

definition EncryptBytes :: "Aead \<Rightarrow> bytes \<Rightarrow> bytes \<Rightarrow> string \<Rightarrow> bytes" where
  "EncryptBytes ae nonce plain key =
     string_bytes exportPrefix @ nonce @ ae_Seal ae (keyBytes key) nonce plain []"

definition EncryptBytesBound :: "Aead \<Rightarrow> bytes \<Rightarrow> bytes \<Rightarrow> string \<Rightarrow> bytes \<Rightarrow> bytes" where
  "EncryptBytesBound ae nonce plain key binding =
     string_bytes exportV2Prefix @ nonce @ ae_Seal ae (keyBytes key) nonce plain binding"

definition openBody :: "Aead \<Rightarrow> bytes \<Rightarrow> string \<Rightarrow> bytes \<Rightarrow> bytes result" where
  "openBody ae body key binding =
     (if length body < nonceSize then Inl (Err ErrOther ''invalid encrypted export'')
      else ae_Open ae (keyBytes key) (take nonceSize body) (drop nonceSize body) binding)"

definition hasBytePrefix :: "bytes \<Rightarrow> bytes \<Rightarrow> bool" where
  "hasBytePrefix p bs \<longleftrightarrow> length p \<le> length bs \<and> take (length p) bs = p"

definition DecryptBytes :: "Aead \<Rightarrow> bytes \<Rightarrow> string \<Rightarrow> bytes result" where
  "DecryptBytes ae sealed key =
     (if \<not> hasBytePrefix (string_bytes exportPrefix) sealed then Inl (Err ErrOther ''invalid encrypted export'')
      else openBody ae (drop (length exportPrefix) sealed) key [])"

definition DecryptExport :: "Aead \<Rightarrow> bytes \<Rightarrow> string \<Rightarrow> bytes \<Rightarrow> bytes result" where
  "DecryptExport ae sealed key binding =
     (if hasBytePrefix (string_bytes exportV2Prefix) sealed
      then openBody ae (drop (length exportV2Prefix) sealed) key binding
      else DecryptBytes ae sealed key)"

subsection \<open>Laws\<close>

text \<open>What the callers rely on of the cipher: opening undoes sealing, and a sealed text is bytes.\<close>

definition aead_ok :: "Aead \<Rightarrow> bool" where
  "aead_ok ae \<longleftrightarrow>
     (\<forall>k n p a. length n = nonceSize \<longrightarrow> (\<forall>b \<in> set p. b < 256) \<longrightarrow> ae_Open ae k n (ae_Seal ae k n p a) a = Inr p
        \<and> (\<forall>b \<in> set (ae_Seal ae k n p a). b < 256))"

definition nonce_ok :: "bytes \<Rightarrow> bool" where
  "nonce_ok n \<longleftrightarrow> length n = nonceSize \<and> (\<forall>b \<in> set n. b < 256)"

lemma HasPrefix_append [simp]: "HasPrefix (p @ s) p"
  by (simp add: HasPrefix_def)

lemma bytes_string_of [simp]: "bytes_string (string_bytes s) = s"
  by (simp add: bytes_string_def string_bytes_def comp_def)

lemma DecryptJSON_EncryptJSON:
  assumes "aead_ok ae" and "nonce_ok n" and "EncryptJSON ae js n v key aad = Inr enc"
  shows "\<exists>plain. js_Marshal js v = Inr plain \<and> DecryptJSON ae js enc key aad = js_Decode js plain"
proof -
  from assms(3) obtain plain where m: "js_Marshal js v = Inr plain"
    and enc: "enc = encryptedPrefix @ b64encode (n @ ae_Seal ae (keyBytes key) n (string_bytes plain) (string_bytes aad))"
    by (auto simp: EncryptJSON_def Let_def rbind_eq_Inr)
  let ?c = "ae_Seal ae (keyBytes key) n (string_bytes plain) (string_bytes aad)"
  have ok: "ae_Open ae (keyBytes key) n ?c (string_bytes aad) = Inr (string_bytes plain)"
    "\<forall>b \<in> set (n @ ?c). b < 256" and len: "length n = nonceSize"
    using assms(1,2) string_bytes_less [of plain] by (auto simp: aead_ok_def nonce_ok_def)
  show ?thesis
    using m ok(1) len b64decode_encode [OF ok(2)] by (simp add: DecryptJSON_def enc)
qed

lemma DecryptJSON_plain_string:
  "\<not> HasPrefix s encryptedPrefix \<Longrightarrow> DecryptJSON ae js s key aad = Inl (Err ErrOther ''invalid encrypted field'')"
  by (simp add: DecryptJSON_def)

subsubsection \<open>Bindings\<close>

lemma itoa_nat: "itoa (int n) = natDec n"
  by (simp add: itoa_def)

lemma framed_inj:
  assumes "natDec m @ CHR '':'' # a = natDec n @ CHR '':'' # b"
  shows "m = n \<and> a = b"
proof -
  have "\<not> is_digit (CHR '':'')" by (simp add: is_digit_def)
  then have "CHR '':'' \<notin> set (natDec m)" "CHR '':'' \<notin> set (natDec n)"
    using natDec_digits by blast+
  then have "natDec m = natDec n \<and> a = b" using assms append_sep_inj by metis
  then show ?thesis using natDec_inj by blast
qed

lemma ExportBinding_inj: "ExportBinding t j = ExportBinding t' j' \<Longrightarrow> t = t' \<and> j = j'"
proof -
  assume eq: "ExportBinding t j = ExportBinding t' j'"
  have "natDec (length t) @ CHR '':'' # t @ CHR ''|'' # natDec (length j) @ CHR '':'' # j
      = natDec (length t') @ CHR '':'' # t' @ CHR ''|'' # natDec (length j') @ CHR '':'' # j'"
    using eq by (simp add: ExportBinding_def itoa_nat)
  from framed_inj [OF this] have l: "length t = length t'"
    and r: "t @ CHR ''|'' # natDec (length j) @ CHR '':'' # j = t' @ CHR ''|'' # natDec (length j') @ CHR '':'' # j'"
    by auto
  from r l have "t = t'" and "natDec (length j) @ CHR '':'' # j = natDec (length j') @ CHR '':'' # j'" by auto
  then show ?thesis using framed_inj by blast
qed

lemma length_string_bytes [simp]: "length (string_bytes s) = length s"
  by (simp add: string_bytes_def)

lemma drop_prefix [simp]: "drop (length s) (string_bytes s @ bs) = bs"
  by (metis append_eq_conv_conj length_string_bytes)

lemma hasBytePrefix_append [simp]: "hasBytePrefix p (p @ s)"
  by (simp add: hasBytePrefix_def)

lemma prefixes_differ: "\<not> hasBytePrefix (string_bytes exportV2Prefix) (string_bytes exportPrefix @ s)"
  by (simp add: hasBytePrefix_def string_bytes_def exportV2Prefix_def exportPrefix_def)

lemma DecryptExport_bound:
  assumes "nonce_ok n"
  shows "DecryptExport ae (EncryptBytesBound ae n plain key binding) key binding'
    = ae_Open ae (keyBytes key) n (ae_Seal ae (keyBytes key) n plain binding) binding'"
  using assms
  by (simp add: DecryptExport_def EncryptBytesBound_def openBody_def nonce_ok_def)

lemma DecryptExport_legacy:
  assumes "aead_ok ae" and "nonce_ok n" and "\<forall>b \<in> set plain. b < 256"
  shows "DecryptExport ae (EncryptBytes ae n plain key) key binding = Inr plain"
  using assms
  by (simp add: DecryptExport_def EncryptBytes_def prefixes_differ DecryptBytes_def openBody_def
      nonce_ok_def aead_ok_def)

subsubsection \<open>Stripping\<close>

text \<open>No map at any depth of nested maps and slices keeps a reserved key.\<close>

fun digestFree :: "gval \<Rightarrow> bool" where
  "digestFree (VMap b (Some kvs)) = (\<forall>kv \<in> set kvs. \<not> HasSuffix (fst kv) SearchDigestSuffix \<and> digestFree (snd kv))"
| "digestFree (VSlice (Some vs)) = (\<forall>v \<in> set vs. digestFree v)"
| "digestFree (VRef (Some v)) = digestFree v"
| "digestFree v = True"

lemma digestFree_strip: "digestFree (stripSearchDigestKeys v)"
  by (induction v rule: stripSearchDigestKeys.induct) auto

lemma strip_digestFree: "digestFree v \<Longrightarrow> stripSearchDigestKeys v = v"
proof (induction v rule: digestFree.induct)
  case (1 b kvs)
  have f: "filter (\<lambda>kv. \<not> HasSuffix (fst kv) SearchDigestSuffix) kvs = kvs"
    using 1(2) by (simp add: filter_id_conv)
  have "map (\<lambda>kv. (fst kv, stripSearchDigestKeys (snd kv))) kvs = kvs"
    by (rule map_idI) (use 1 in auto)
  then show ?case by (simp add: f)
next
  case (2 vs)
  then show ?case by (auto intro: map_idI)
qed auto

subsection \<open>Properties\<close>

text \<open>
  C31. Sealed exports. Under a cipher that opens what it sealed, an export sealed for a tenant and job
  opens to its plaintext with that binding; the bindings of different tenant and job pairs are
  different associated data, and an export of the older unbound format opens whatever binding is given.
\<close>

theorem sealed_export_opens:
  assumes "aead_ok ae" and "nonce_ok n" and "\<forall>b \<in> set plain. b < 256"
  shows "DecryptExport ae (EncryptBytesBound ae n plain key (string_bytes (ExportBinding t j))) key
           (string_bytes (ExportBinding t j)) = Inr plain
    \<and> (string_bytes (ExportBinding t j) = string_bytes (ExportBinding t' j') \<longleftrightarrow> t = t' \<and> j = j')
    \<and> DecryptExport ae (EncryptBytes ae n plain key) key binding = Inr plain"
  using DecryptExport_bound [OF assms(2)] DecryptExport_legacy [OF assms] ExportBinding_inj [of t j t' j'] assms
  by (auto simp: aead_ok_def nonce_ok_def string_bytes_inj)

text \<open>A cipher for the witnesses: a byte that depends on the associated data, then the plaintext.\<close>

definition exampleAead :: Aead where
  "exampleAead = \<lparr>ae_Seal = (\<lambda>k n p a. sum_list a mod 256 # p),
     ae_Open = (\<lambda>k n c a. case c of
        [] \<Rightarrow> Inl (Err ErrOther ''message authentication failed'')
      | x # p \<Rightarrow> if x = sum_list a mod 256 then Inr p else Inl (Err ErrOther ''message authentication failed''))\<rparr>"

definition exampleNonce :: bytes where
  "exampleNonce = [1, 2, 3, 4, 5, 6, 7, 8, 9, 10, 11, 12]"

lemma exampleAead_ok: "aead_ok exampleAead"
  by (simp add: aead_ok_def exampleAead_def)

lemma exampleNonce_ok: "nonce_ok exampleNonce"
  by (simp add: nonce_ok_def nonceSize_def exampleNonce_def)

theorem sealed_export_opens_witness:
  "DecryptExport exampleAead (EncryptBytesBound exampleAead exampleNonce [104, 105] ''k''
       (string_bytes (ExportBinding ''t1'' ''j1''))) ''k'' (string_bytes (ExportBinding ''t1'' ''j1'')) = Inr [104, 105]
   \<and> string_bytes (ExportBinding ''t1'' ''j1'') \<noteq> string_bytes (ExportBinding ''t'' ''1j1'')"
proof -
  have p: "\<forall>b \<in> set [104, 105]. b < (256::nat)" by simp
  from sealed_export_opens [OF exampleAead_ok exampleNonce_ok p, of "''k''" "''t1''" "''j1''" "''t''" "''1j1''"]
  show ?thesis by simp
qed

text \<open>
  C32. Search digests are scoped. The input authenticated for a search digest determines the marshalled
  value, the tenant and the field, as long as the marshalled text and the tenant have no zero byte:
  one value under another tenant or another field is another input of the MAC.
\<close>

theorem search_digest_input_scoped:
  assumes "CHR 0x00 \<notin> set plain" and "CHR 0x00 \<notin> set plain'"
    and "ValidKeyComponent t = None" and "ValidKeyComponent t' = None"
    and "searchDigestInput plain t f = searchDigestInput plain' t' f'"
  shows "plain = plain' \<and> t = t' \<and> f = f'"
proof -
  have z: "CHR 0x00 \<notin> set t" "CHR 0x00 \<notin> set t'"
    using assms(3,4) ValidKeyComponent_no_ascii [of _ "CHR 0x00"] by (auto simp: unicode_IsControl_def)
  have "string_bytes (plain @ CHR 0x00 # t @ CHR 0x00 # f) = string_bytes (plain' @ CHR 0x00 # t' @ CHR 0x00 # f')"
    using assms(5) by (simp add: searchDigestInput_def string_bytes_def)
  then have "plain @ CHR 0x00 # t @ CHR 0x00 # f = plain' @ CHR 0x00 # t' @ CHR 0x00 # f'"
    by (simp only: string_bytes_inj)
  then show ?thesis using assms(1,2) z by (simp add: append_sep_inj)
qed

theorem search_digest_input_scoped_witness:
  "searchDigestInput ''5'' ''t1'' ''salary'' \<noteq> searchDigestInput ''5'' ''t2'' ''salary''
   \<and> ValidKeyComponent ''t1'' = None \<and> ValidKeyComponent ''t2'' = None"
proof -
  have v: "ValidKeyComponent ''t1'' = None" "ValidKeyComponent ''t2'' = None" by code_simp+
  have z: "CHR 0x00 \<notin> set ''5''" by simp
  show ?thesis using search_digest_input_scoped [OF z z v, of "''salary''" "''salary''"] v by auto
qed

end
