(* ===== verification/Archive.thy ===== *)
theory Archive
  imports Domain
begin

section \<open>The archive: internal/archive\<close>

text \<open>
  The write-once object stores behind \<open>archive.Store\<close>. The file store is its objects by clean key under
  one root; what the operating system may do to a call is an argument (\<open>IOFaults\<close>): fail before
  anything is published, let another process publish the name first, or fail the directory
  synchronisation after publication. The S3 store is written over the client operations it calls, which
  belong to a third-party package and are arguments with a state of their own.

  The interface \<open>worm_store\<close> is what the service relies on: a successful put is readable, and nothing
  readable is ever changed by another put. It is interpreted on the file store.
\<close>

subsection \<open>filepath.Clean on slash paths, validateArchiveKey\<close>

fun cleanStep :: "bool \<Rightarrow> string \<Rightarrow> string list \<Rightarrow> string list" where
  \<comment> \<open>the components so far, last first\<close>
  "cleanStep rooted c stack =
     (if c = '''' \<or> c = ''.'' then stack
      else if c = ''..'' then
        (case stack of
           [] \<Rightarrow> if rooted then [] else [c]
         | prev # rest \<Rightarrow> if prev = ''..'' then c # stack else rest)
      else c # stack)"

fun joinSlash :: "string list \<Rightarrow> string" where
  "joinSlash [] = ''''"
| "joinSlash [c] = c"
| "joinSlash (c # d # cs) = c @ ''/'' @ joinSlash (d # cs)"

definition Clean :: "string \<Rightarrow> string" where
  "Clean path =
     (let rooted = HasPrefix path ''/'';
          cs = rev (fold (cleanStep rooted) (SplitByte (CHR ''/'') path) [])
      in if rooted then ''/'' @ joinSlash cs else if cs = [] then ''.'' else joinSlash cs)"

definition validateArchiveKey :: "string \<Rightarrow> string \<Rightarrow> string result" where
  "validateArchiveKey dir key =
     (if dir = '''' then Inl (Err ErrOther ''archive directory is not configured'')
      else let clean = Clean key in
        if clean = ''.'' \<or> HasPrefix clean ''/'' \<or> clean = ''..'' \<or> HasPrefix clean ''../''
        then Inl (Err ErrOther ''archive key escapes the archive directory'') else Inr clean)"

subsection \<open>FileStore\<close>

record FileStore =
  fs_Dir :: string
  fs_objects :: "string gomap"

record IOFaults =
  io_open :: "error option"
  io_publish :: "error option"
  io_race :: "string option"
  io_sync :: "error option"

definition noFaults :: IOFaults where
  "noFaults = \<lparr>io_open = None, io_publish = None, io_race = None, io_sync = None\<rparr>"

datatype opened = ENOENT | Regular string | NotRegular | NotDirectory

definition pathUnder :: "string \<Rightarrow> string \<Rightarrow> bool" where
  "pathUnder d k = HasPrefix k (d @ ''/'')"

text \<open>A component on the way that is an object is no directory; a name with objects below it is one.\<close>

definition openRegularAt :: "FileStore \<Rightarrow> string \<Rightarrow> opened" where
  "openRegularAt f k =
     (if \<exists>p \<in> set (mkeys (fs_objects f)). pathUnder p k then NotDirectory
      else (case mget (fs_objects f) k of
              Some contents \<Rightarrow> Regular contents
            | None \<Rightarrow> if \<exists>p \<in> set (mkeys (fs_objects f)). pathUnder k p then NotRegular else ENOENT))"

definition verifyExistingAt :: "string \<Rightarrow> string \<Rightarrow> error option" where
  "verifyExistingAt existing data =
     (if existing \<noteq> data then Some (Err ErrObjectConflict ''archive object already exists with different content'')
      else None)"

definition publishObject :: "IOFaults \<Rightarrow> FileStore \<Rightarrow> string \<Rightarrow> string \<Rightarrow> error option \<times> FileStore" where
  "publishObject io f k data =
     (case io_publish io of
        Some e \<Rightarrow> (Some e, f)
      | None \<Rightarrow>
          (case io_race io of
             Some other \<Rightarrow> (verifyExistingAt other data, f\<lparr>fs_objects := mput (fs_objects f) k other\<rparr>)
           | None \<Rightarrow> (io_sync io, f\<lparr>fs_objects := mput (fs_objects f) k data\<rparr>)))"

definition filePut :: "IOFaults \<Rightarrow> FileStore \<Rightarrow> string \<Rightarrow> string \<Rightarrow> error option \<times> FileStore" where
  "filePut io f key data =
     (case validateArchiveKey (fs_Dir f) key of
        Inl e \<Rightarrow> (Some e, f)
      | Inr cleanKey \<Rightarrow>
          (case checkKeyLength key of
             Some e \<Rightarrow> (Some e, f)
           | None \<Rightarrow>
               (case io_open io of
                  Some e \<Rightarrow> (Some e, f)
                | None \<Rightarrow>
                    (case openRegularAt f cleanKey of
                       Regular contents \<Rightarrow> (verifyExistingAt contents data, f)
                     | NotRegular \<Rightarrow> (Some (Err ErrOther ''archive path exists and is not a regular file''), f)
                     | NotDirectory \<Rightarrow> (Some (Err ErrOther ''open archive directory''), f)
                     | ENOENT \<Rightarrow> publishObject io f cleanKey data))))"

definition fileGet :: "IOFaults \<Rightarrow> FileStore \<Rightarrow> string \<Rightarrow> string result" where
  "fileGet io f key =
     rbind (validateArchiveKey (fs_Dir f) key) (\<lambda>cleanKey.
       guardE (checkKeyLength key) (guardE (io_open io)
         (case openRegularAt f cleanKey of
            Regular contents \<Rightarrow> Inr contents
          | ENOENT \<Rightarrow> Inl (Err ErrOther ''no such file or directory'')
          | NotRegular \<Rightarrow> Inl (Err ErrOther ''archive path exists and is not a regular file'')
          | NotDirectory \<Rightarrow> Inl (Err ErrOther ''open archive directory''))))"

subsection \<open>S3Store\<close>

datatype s3err = NoSuchKey | S3Failure error

text \<open>The client operations the store calls, over the state \<open>'s\<close> of the service behind them.\<close>

record 's S3Client =
  s3_StatObject :: "string \<Rightarrow> 's \<Rightarrow> s3err option \<times> 's"
  s3_PutObject :: "string \<Rightarrow> string \<Rightarrow> time option \<Rightarrow> 's \<Rightarrow> error option \<times> 's"
  s3_GetObject :: "string \<Rightarrow> 's \<Rightarrow> string result \<times> 's"

definition TrimPrefixSlash :: "string \<Rightarrow> string" where
  "TrimPrefixSlash key = (if HasPrefix key ''/'' then drop 1 key else key)"

definition s3ReadBack :: "'s S3Client \<Rightarrow> 's \<Rightarrow> string \<Rightarrow> string \<Rightarrow> string result \<times> 's" where
  "s3ReadBack c s key data =
     (case s3_GetObject c key s of
        (Inl e, s1) \<Rightarrow> (Inl e, s1)
      | (Inr object, s1) \<Rightarrow> (Inr (take (length data + 1) object), s1))"

definition s3VerifyExisting :: "'s S3Client \<Rightarrow> 's \<Rightarrow> string \<Rightarrow> string \<Rightarrow> error option \<times> 's" where
  "s3VerifyExisting c s key data =
     (case s3ReadBack c s key data of
        (Inl e, s1) \<Rightarrow> (Some (Err (err_kind e) ''archive object already exists and cannot be verified''), s1)
      | (Inr existing, s1) \<Rightarrow>
          (if existing \<noteq> data then (Some (Err ErrObjectConflict ''archive object''), s1) else (None, s1)))"

definition s3VerifyAfterWrite :: "'s S3Client \<Rightarrow> 's \<Rightarrow> string \<Rightarrow> string \<Rightarrow> error option \<times> 's" where
  "s3VerifyAfterWrite c s key data =
     (case s3ReadBack c s key data of
        (Inl e, s1) \<Rightarrow> (Some (Err (err_kind e) ''archive object cannot be verified after write''), s1)
      | (Inr existing, s1) \<Rightarrow>
          (if existing \<noteq> data then (Some (Err ErrOther ''archive object already exists with different content''), s1)
           else (None, s1)))"

definition s3Put :: "'s S3Client \<Rightarrow> int \<Rightarrow> time \<Rightarrow> 's \<Rightarrow> string \<Rightarrow> string \<Rightarrow> error option \<times> 's" where
  "s3Put c retainFor now s key0 data =
     (let key = TrimPrefixSlash key0 in
      case checkKeyLength key of
        Some e \<Rightarrow> (Some e, s)
      | None \<Rightarrow>
          (case s3_StatObject c key s of
             (None, s1) \<Rightarrow> s3VerifyExisting c s1 key data
           | (Some (S3Failure e), s1) \<Rightarrow> (Some (Err (err_kind e) ''s3 stat''), s1)
           | (Some NoSuchKey, s1) \<Rightarrow>
               (case s3_PutObject c key data (if retainFor > 0 then Some (now + retainFor) else None) s1 of
                  (Some e, s2) \<Rightarrow> (Some (Err (err_kind e) ''s3 put''), s2)
                | (None, s2) \<Rightarrow> s3VerifyAfterWrite c s2 key data)))"

definition s3Get :: "'s S3Client \<Rightarrow> 's \<Rightarrow> string \<Rightarrow> string result \<times> 's" where
  "s3Get c s key = s3_GetObject c (TrimPrefixSlash key) s"

record S3Bucket =
  bk_exists :: "bool result"
  bk_lock :: "(string \<times> string option \<times> nat option \<times> string option) result"
  bk_versioning :: "bool result"

definition s3Ready :: "S3Bucket \<Rightarrow> error option" where
  "s3Ready b =
     (case bk_exists b of
        Inl e \<Rightarrow> Some e
      | Inr False \<Rightarrow> Some (Err ErrOther ''archive bucket does not exist'')
      | Inr True \<Rightarrow>
          (case bk_lock b of
             Inl e \<Rightarrow> Some (Err (err_kind e) ''archive bucket has no object lock configuration'')
           | Inr (enabled, mode, validity, unit) \<Rightarrow>
               if enabled \<noteq> ''Enabled'' then Some (Err ErrOther ''archive bucket object lock is not enabled'')
               else if mode = None \<or> validity = None \<or> unit = None \<or> validity = Some 0
                 \<or> (unit \<noteq> Some ''DAYS'' \<and> unit \<noteq> Some ''YEARS'')
               then Some (Err ErrOther ''archive bucket has no default retention rule with positive validity'')
               else if mode \<noteq> Some ''COMPLIANCE''
               then Some (Err ErrOther ''archive bucket default retention mode is not COMPLIANCE'')
               else (case bk_versioning b of
                       Inl e \<Rightarrow> Some (Err (err_kind e) ''archive bucket versioning probe failed'')
                     | Inr v \<Rightarrow> if v then None else Some (Err ErrOther ''archive bucket does not have versioning enabled''))))"

subsection \<open>The interface the service relies on\<close>

locale worm_store =
  fixes put :: "'s \<Rightarrow> string \<Rightarrow> string \<Rightarrow> error option \<times> 's"
    and get :: "'s \<Rightarrow> string \<Rightarrow> string result"
  assumes get_put: "put s k d = (None, s') \<Longrightarrow> get s' k = Inr d"
    and put_keeps: "get s k' = Inr d' \<Longrightarrow> get (snd (put s k d)) k' = Inr d'"
begin

lemma put_idempotent_content: "put s k d = (None, s') \<Longrightarrow> put s' k d' = (None, s'') \<Longrightarrow> d = d'"
  using get_put [of s k d s'] get_put [of s' k d' s''] put_keeps [of s' k d k d'] by simp

lemma puts_keep: "get s k = Inr d \<Longrightarrow> get (fold (\<lambda>od s. snd (put s (fst od) (snd od))) ods s) k = Inr d"
  by (induction ods arbitrary: s) (auto simp: put_keeps)

end

subsection \<open>The file store satisfies it\<close>

lemma pathUnder_irrefl [simp]: "\<not> pathUnder k k"
  by (auto simp: pathUnder_def HasPrefix_def)

lemma mkeys_mput: "set (mkeys (mput m k v)) = insert k (set (mkeys m))"
  by (auto simp: mkeys_def mput_def dom_update [symmetric] update_conv' simp flip: dom_map_of_conv_image_fst)

lemma openRegularAt_put:
  assumes "openRegularAt f k = ENOENT"
  shows "openRegularAt (f\<lparr>fs_objects := mput (fs_objects f) k d\<rparr>) k = Regular d"
    and "openRegularAt f k' = Regular d' \<Longrightarrow> openRegularAt (f\<lparr>fs_objects := mput (fs_objects f) k d\<rparr>) k' = Regular d'"
proof -
  let ?f = "f\<lparr>fs_objects := mput (fs_objects f) k d\<rparr>"
  have keys: "set (mkeys (fs_objects ?f)) = insert k (set (mkeys (fs_objects f)))"
    by (simp add: mkeys_mput)
  show "openRegularAt ?f k = Regular d"
    using assms unfolding openRegularAt_def keys
    by (auto simp: map_simps split: if_splits option.splits)
  assume k': "openRegularAt f k' = Regular d'"
  then have obj: "mget (fs_objects f) k' = Some d'"
    and up: "\<not> (\<exists>p \<in> set (mkeys (fs_objects f)). pathUnder p k')"
    by (auto simp: openRegularAt_def split: if_splits option.splits)
  have "mget (fs_objects f) k = None" and dn: "\<not> (\<exists>p \<in> set (mkeys (fs_objects f)). pathUnder k p)"
    using assms by (auto simp: openRegularAt_def split: if_splits option.splits)
  then have "k \<noteq> k'" using obj by auto
  moreover have "\<not> pathUnder k k'" using dn obj mget_mkeys [of "fs_objects f" k'] by auto
  ultimately show "openRegularAt ?f k' = Regular d'"
    using obj up unfolding openRegularAt_def keys by (auto simp: map_simps)
qed

lemma fileGet_iff:
  "fileGet noFaults f key = Inr d \<longleftrightarrow>
     (\<exists>k. validateArchiveKey (fs_Dir f) key = Inr k \<and> checkKeyLength key = None \<and> openRegularAt f k = Regular d)"
proof (cases "validateArchiveKey (fs_Dir f) key")
  case (Inr k)
  then show ?thesis by (cases "openRegularAt f k") (simp_all add: fileGet_def guardE_eq_Inr noFaults_def)
qed (simp add: fileGet_def)

lemma filePut_Dir [simp]: "fs_Dir (snd (filePut io f key d)) = fs_Dir f"
  by (simp add: filePut_def publishObject_def split: sum.split option.split opened.split)

lemma filePut_cases:
  assumes "filePut io f key d = (r, f')"
  obtains "f' = f" and "r = None \<longrightarrow> (\<exists>k. validateArchiveKey (fs_Dir f) key = Inr k \<and> checkKeyLength key = None
        \<and> openRegularAt f k = Regular d)"
  | k c where "validateArchiveKey (fs_Dir f) key = Inr k" and "checkKeyLength key = None" and "openRegularAt f k = ENOENT"
      and "f' = f\<lparr>fs_objects := mput (fs_objects f) k c\<rparr>" and "r = None \<longrightarrow> c = d"
proof (cases "validateArchiveKey (fs_Dir f) key")
  case (Inl e)
  then have "f' = f \<and> r \<noteq> None" using assms by (auto simp: filePut_def)
  then show thesis using that(1) by blast
next
  case (Inr k)
  show thesis
  proof (cases "checkKeyLength key = None \<and> io_open io = None")
    case False
    then have "f' = f \<and> r \<noteq> None" using assms [symmetric] Inr by (cases "checkKeyLength key"; cases "io_open io") (auto simp: filePut_def)
    then show thesis using that(1) by blast
  next
    case ok: True
    show thesis
    proof (cases "openRegularAt f k")
      case ENOENT
      then have p: "publishObject io f k d = (r, f')" using assms Inr ok by (simp add: filePut_def)
      show thesis
      proof (cases "io_publish io")
        case None
        show thesis
        proof (cases "io_race io")
          case race: None
          show thesis by (rule that(2) [of k d]) (use p None race Inr ok ENOENT in \<open>simp_all add: publishObject_def\<close>)
        next
          case (Some c)
          show thesis
            by (rule that(2) [of k c])
              (use p None Some Inr ok ENOENT in \<open>auto simp: publishObject_def verifyExistingAt_def split: if_splits\<close>)
        qed
      next
        case (Some e)
        show thesis by (rule that(1)) (use p Some in \<open>auto simp: publishObject_def\<close>)
      qed
    next
      case (Regular c)
      then have "f' = f \<and> (r = None \<longrightarrow> c = d)"
        using assms Inr ok by (auto simp: filePut_def verifyExistingAt_def split: if_splits)
      then show thesis using that(1) Inr ok Regular by blast
    qed (use assms Inr ok that(1) in \<open>auto simp: filePut_def\<close>)
  qed
qed

lemma filePut_get:
  assumes "filePut io f key d = (None, f')"
  shows "fileGet noFaults f' key = Inr d"
  using assms
proof (cases rule: filePut_cases)
  case 1
  then show ?thesis by (auto simp: fileGet_iff)
next
  case (2 k c)
  then show ?thesis using openRegularAt_put(1) [of f k d] by (auto simp: fileGet_iff)
qed

lemma filePut_keeps:
  assumes "fileGet noFaults f key' = Inr d'"
  shows "fileGet noFaults (snd (filePut io f key d)) key' = Inr d'"
proof -
  obtain r f' where p: "filePut io f key d = (r, f')" by fastforce
  show ?thesis
    using p
  proof (cases rule: filePut_cases)
    case 1
    then show ?thesis using assms p by simp
  next
    case (2 k c)
    then show ?thesis using assms p openRegularAt_put(2) [of f k _ d' c] by (auto simp: fileGet_iff)
  qed
qed

interpretation file_worm: worm_store "\<lambda>s k d. filePut (io k) s k d" "fileGet noFaults" for io
  by unfold_locales (auto intro: filePut_get filePut_keeps)

subsection \<open>S3: a put that succeeds was read back\<close>

lemma s3ReadBack_exact: "s3ReadBack c s key data = (Inr data, s') \<Longrightarrow> s3_GetObject c key s = (Inr data, s')"
proof -
  assume r: "s3ReadBack c s key data = (Inr data, s')"
  obtain x s1 where x: "s3_GetObject c key s = (x, s1)" by fastforce
  then obtain obj where "x = Inr obj" using r by (cases x) (simp_all add: s3ReadBack_def)
  then have g: "s3_GetObject c key s = (Inr obj, s')" and t: "take (length data + 1) obj = data"
    using r x by (simp_all add: s3ReadBack_def)
  have "length obj \<le> length data" using arg_cong [OF t, of length] by simp
  then show ?thesis using g t by simp
qed

lemma s3Put_verified:
  assumes "s3Put c retainFor now s key data = (None, s')"
  shows "\<exists>s1. s3_GetObject c (TrimPrefixSlash key) s1 = (Inr data, s')
     \<and> (\<forall>s0. s3_StatObject c (TrimPrefixSlash key) s = (None, s0) \<longrightarrow> s1 = s0)"
proof -
  let ?k = "TrimPrefixSlash key"
  obtain st s1 where st: "s3_StatObject c ?k s = (st, s1)" by fastforce
  show ?thesis
  proof (cases st)
    case None
    then have "s3ReadBack c s1 ?k data = (Inr data, s')"
      using assms st by (auto simp: s3Put_def Let_def s3VerifyExisting_def split: option.splits prod.splits sum.splits if_splits)
    from s3ReadBack_exact [OF this] show ?thesis using st None by auto
  next
    case (Some e)
    then obtain s2 where "s3ReadBack c s2 ?k data = (Inr data, s')"
      using assms st by (auto simp: s3Put_def Let_def s3VerifyAfterWrite_def
          split: option.splits prod.splits sum.splits if_splits s3err.splits)
    from s3ReadBack_exact [OF this] show ?thesis using st Some by auto
  qed
qed

subsection \<open>Properties\<close>

text \<open>
  C22. The file archive is write-once. Whatever the operating system does to the call, a put that
  reports success leaves the object readable with exactly the given bytes, and no put changes or
  removes an object that was readable before.
\<close>

theorem archive_is_write_once:
  "(filePut io f key d = (None, f') \<longrightarrow> fileGet noFaults f' key = Inr d)
   \<and> (fileGet noFaults f key' = Inr d' \<longrightarrow> fileGet noFaults (snd (filePut io f key d)) key' = Inr d')"
  using file_worm.get_put [of "\<lambda>_. io"] file_worm.put_keeps [of _ _ _ "\<lambda>_. io"] by blast

theorem archive_is_write_once_witness:
  "\<exists>f'. filePut noFaults \<lparr>fs_Dir = ''/a'', fs_objects = [(''x'', ''1'')]\<rparr> ''events/t'' ''2'' = (None, f')
     \<and> fileGet noFaults f' ''events/t'' = Inr ''2'' \<and> fileGet noFaults f' ''x'' = Inr ''1''"
proof -
  let ?f = "\<lparr>fs_Dir = ''/a'', fs_objects = [(''x'', ''1'')]\<rparr>"
  obtain r f' where p: "filePut noFaults ?f ''events/t'' ''2'' = (r, f')" by fastforce
  have "fst (filePut noFaults ?f ''events/t'' ''2'') = None" and x: "fileGet noFaults ?f ''x'' = Inr ''1''" by code_simp+
  then have r: "r = None" using p by simp
  show ?thesis
    using archive_is_write_once [of noFaults ?f "''events/t''" "''2''" f' "''x''" "''1''"] p r x by simp
qed

text \<open>
  C23. An S3 put that reports success was read back. The last call of a successful put read exactly the
  given bytes under the key, and when the object existed before, nothing was written.
\<close>

theorem s3_put_is_read_back:
  assumes "s3Put c retainFor now s key data = (None, s')"
  shows "\<exists>s1. s3_GetObject c (TrimPrefixSlash key) s1 = (Inr data, s')
     \<and> (\<forall>s0. s3_StatObject c (TrimPrefixSlash key) s = (None, s0) \<longrightarrow> s1 = s0)"
  by (rule s3Put_verified [OF assms])

text \<open>A bucket of one object per key, for the witness.\<close>

definition exampleS3 :: "string gomap S3Client" where
  "exampleS3 = \<lparr>s3_StatObject = (\<lambda>k b. (if mget b k = None then Some NoSuchKey else None, b)),
     s3_PutObject = (\<lambda>k d r b. (None, mput b k d)),
     s3_GetObject = (\<lambda>k b. (case mget b k of None \<Rightarrow> Inl (Err ErrOther ''no such key'') | Some d \<Rightarrow> Inr d, b))\<rparr>"

theorem s3_put_is_read_back_witness:
  "\<exists>s1. s3Put exampleS3 0 0 [] ''/k'' ''v'' = (None, [(''k'', ''v'')])
     \<and> s3_GetObject exampleS3 (TrimPrefixSlash ''/k'') s1 = (Inr ''v'', [(''k'', ''v'')])"
proof -
  have "s3Put exampleS3 0 0 [] ''/k'' ''v'' = (None, [(''k'', ''v'')])" by code_simp
  with s3_put_is_read_back [OF this] show ?thesis by blast
qed

end
