(* ===== verification/Evidence.thy ===== *)
theory Evidence
  imports Store Merkle Crypto Archive
begin

section \<open>The bytes behind an audit fact: service/ingest_validation.go\<close>

text \<open>
  Source binding and schema validation, protection of sensitive fields and its inverse, the content
  check, the chained event hash, and the sealing of a segment. The service configuration is the record
  \<open>Config\<close>: signer, cipher, codec and archive are what the Go interfaces inject, and \<open>rnd\<close> is the
  sequence of nonces \<open>rand.Read\<close> returns during a call.
\<close>

record Config =
  cf_EncryptionKey :: string
  cf_ServerVersion :: string
  cf_SegmentSize :: int
  cf_MaxEventBytes :: int
  cf_Sign :: "string \<Rightarrow> string result"
  cf_Verify :: "string \<Rightarrow> string \<Rightarrow> bool result"
  cf_Algorithm :: string
  cf_Aead :: Aead
  cf_Codec :: Codec
  cf_LegacyDigest :: "Event \<Rightarrow> string result"
  cf_ArchiveConfigured :: bool
  cf_DecodeEvent :: "string \<Rightarrow> Event result"
  cf_LedgeredPublisher :: bool
  cf_AggregateCheckpointRetention :: int
  cf_MaxAdminActions :: int
  cf_MaxAdminTrailActions :: int
  cf_StuckExportAge :: int

subsection \<open>Source binding (sources.go)\<close>

definition sourceAccessError :: error where
  "sourceAccessError = Err ErrForbidden ''source_system is not allowed for authenticated client''"

definition sourceAccessAllowed :: "Snapshot \<Rightarrow> string \<Rightarrow> string \<Rightarrow> string \<Rightarrow> bool" where
  "sourceAccessAllowed data tenantID sourceID clientID =
     (case mget (sn_Sources data) (SourceKey tenantID sourceID) of
        None \<Rightarrow> False
      | Some source \<Rightarrow> ss_Active source \<and> AllowsClient source clientID)"

fun resolveLoop :: "string \<Rightarrow> string \<Rightarrow> SourceSystem list \<Rightarrow> string \<Rightarrow> string result" where
  "resolveLoop clientID sourceID [] resolved =
     (if resolved = '''' then Inl sourceAccessError else Inr resolved)"
| "resolveLoop clientID sourceID (source # sources) resolved =
     (if \<not> ss_Active source \<or> ss_ID source \<noteq> sourceID \<or> \<not> AllowsClient source clientID
      then resolveLoop clientID sourceID sources resolved
      else if resolved \<noteq> '''' \<and> resolved \<noteq> ss_TenantID source then Inl sourceAccessError
      else resolveLoop clientID sourceID sources (ss_TenantID source))"

definition resolveIngestTenantFromData :: "Snapshot \<Rightarrow> string \<Rightarrow> string \<Rightarrow> string \<Rightarrow> string result" where
  "resolveIngestTenantFromData data tenantHint clientID sourceID =
     (if tenantHint \<noteq> '''' then
        if \<not> sourceAccessAllowed data tenantHint sourceID clientID then Inl sourceAccessError else Inr tenantHint
      else resolveLoop clientID sourceID (mvals (sn_Sources data)) '''')"

subsection \<open>Sensitive keys (query_match.go)\<close>

text \<open>
  \<open>strings.ToLower\<close> on runes, as far as an ASCII word can see it: besides the ASCII capitals only the
  Kelvin sign and the dotted capital I have an ASCII lower case, and the other runes stay outside ASCII.
\<close>

definition lowerRune :: "nat \<Rightarrow> nat" where
  "lowerRune r = (if 65 \<le> r \<and> r \<le> 90 then r + 32 else if r = 0x212A then 107 else if r = 0x130 then 105 else r)"

definition forbiddenWords :: "string list" where
  "forbiddenWords = [''password'', ''token'', ''private_key'', ''device_credential'', ''card_number'', ''secret'']"

definition sensitiveKey :: "string \<Rightarrow> bool" where
  "sensitiveKey key =
     (let lower = map lowerRune (runes (map (\<lambda>c. if c = CHR ''-'' then CHR ''_'' else c) key))
      in \<exists>w \<in> set forbiddenWords. sublist (map byte_of w) lower)"

fun scanSensitive :: "gval \<Rightarrow> error option" where
  "scanSensitive (VMap True (Some kvs)) =
     firstErr (concat (map (\<lambda>kv. [if sensitiveKey (fst kv) then Some (Err ErrInvalid ''sensitive field is forbidden'') else None,
                                  scanSensitive (snd kv)]) kvs))"
| "scanSensitive (VSlice (Some vs)) = firstErr (map (\<lambda>v. scanSensitive v) vs)"
| "scanSensitive (VRef (Some v)) = scanSensitive v"
| "scanSensitive v = None"

definition rejectSensitive :: "any \<Rightarrow> error option" where
  "rejectSensitive value = (case value of None \<Rightarrow> None | Some v \<Rightarrow> scanSensitive v)"

subsection \<open>The reserved namespace (reserved_namespace.go)\<close>

definition payloadKeys :: "payload option \<Rightarrow> string list" where
  "payloadKeys p = (case p of None \<Rightarrow> [] | Some m \<Rightarrow> mkeys m)"

definition payloadGet :: "payload option \<Rightarrow> string \<Rightarrow> any option" where
  "payloadGet p k = (case p of None \<Rightarrow> None | Some m \<Rightarrow> mget m k)"

definition rejectReservedSearchDigestNamespace :: "payload option \<Rightarrow> error option" where
  "rejectReservedSearchDigestNamespace p =
     (if \<exists>k \<in> set (payloadKeys p). HasSuffix k SearchDigestSuffix
      then Some (Err ErrInvalid ''payload key collides with the reserved search_digest namespace'') else None)"

definition firstReservedSearchDigestKey :: "payload option \<Rightarrow> string option" where
  "firstReservedSearchDigestKey p =
     (case sort_slice (<) (filter (\<lambda>k. HasSuffix k SearchDigestSuffix) (payloadKeys p)) of
        [] \<Rightarrow> None
      | k # ks \<Rightarrow> Some k)"

subsection \<open>validateEvent\<close>

definition hasField :: "Event \<Rightarrow> string \<Rightarrow> bool" where
  "hasField e field =
     (if field = ''event_id'' then ev_EventID e \<noteq> ''''
      else if field = ''source_system'' then ev_SourceSystem e \<noteq> ''''
      else if field = ''event_type'' then ev_EventType e \<noteq> ''''
      else if field = ''operation_id'' then ev_OperationID e \<noteq> ''''
      else if field = ''aggregate_id'' then ev_AggregateID e \<noteq> ''''
      else if field = ''actor.id'' then ac_ID (ev_Actor e) \<noteq> ''''
      else payloadGet (ev_Payload e) field \<noteq> None)"

definition rejectSensitiveChanges :: "Config \<Rightarrow> Event \<Rightarrow> error option" where
  "rejectSensitiveChanges cfg e =
     (case js_Marshal (cf_Codec cfg) (Some (map_value FieldChange_value (ev_ChangedFields e))) of
        Inl _ \<Rightarrow> None
      | Inr encodedChanges \<Rightarrow>
          (case js_Unmarshal (cf_Codec cfg) encodedChanges of
             Inl _ \<Rightarrow> None
           | Inr decodedChanges \<Rightarrow> rejectSensitive decodedChanges))"

definition validateEvent :: "Config \<Rightarrow> Snapshot \<Rightarrow> string \<Rightarrow> string \<Rightarrow> Event \<Rightarrow> EventSchema result" where
  "validateEvent cfg data tenantID clientID e =
     (if \<not> sourceAccessAllowed data tenantID (ev_SourceSystem e) clientID then Inl sourceAccessError
      else
        case mget (sn_Schemas data) (SchemaKey tenantID (ev_SchemaID e) (ev_SchemaVersion e)) of
          None \<Rightarrow> Inl (Err ErrSchemaNotFound '''')
        | Some schema \<Rightarrow>
            if \<not> es_Active schema then Inl (Err ErrSchemaNotFound '''')
            else if es_EventType schema \<noteq> ev_EventType e then Inl (Err ErrInvalid ''event_type does not match schema'')
            else if es_Classification schema \<noteq> '''' \<and> ev_DataClassification e \<noteq> es_Classification schema
              then Inl (Err ErrInvalid ''data_classification does not match schema'')
            else
              guardE (rejectSensitive (Some (payload_value (ev_Payload e))))
             (guardE (rejectReservedSearchDigestNamespace (ev_Payload e))
             (guardE (rejectSensitiveChanges cfg e)
             (rbind (CanonicalJSON (payload_value (ev_Payload e))) (\<lambda>encoded.
                if int (length encoded) > cf_MaxEventBytes cfg then Inl (Err ErrInvalid ''payload exceeds the size limit'')
                else if \<exists>field \<in> set (es_RequiredFields schema). \<not> hasField e field
                  then Inl (Err ErrInvalid ''schema field is required'')
                else if es_AllowedFields schema \<noteq> []
                    \<and> (\<exists>field \<in> set (payloadKeys (ev_Payload e)). field \<notin> set (es_AllowedFields schema))
                  then Inl (Err ErrInvalid ''payload field is not in schema'')
                else Inr schema)))))"

subsection \<open>protectSensitiveFields\<close>

definition originals :: "payload \<Rightarrow> string list \<Rightarrow> payload" where
  "originals p fs = fold (\<lambda>f m. case mget p f of None \<Rightarrow> m | Some v \<Rightarrow> mput m f v) fs []"

definition fieldAAD :: "Event \<Rightarrow> string \<Rightarrow> string" where
  "fieldAAD e field = ev_TenantID e @ ''/'' @ field @ ''/'' @ ev_EventID e"

fun encryptFields :: "Config \<Rightarrow> (nat \<Rightarrow> bytes) \<Rightarrow> nat \<Rightarrow> Event \<Rightarrow> payload \<Rightarrow> string list \<Rightarrow> payload \<Rightarrow> payload result" where
  "encryptFields cfg rnd n e orig [] p = Inr p"
| "encryptFields cfg rnd n e orig (field # fs) p =
     (case mget orig field of
        None \<Rightarrow> encryptFields cfg rnd n e orig fs p
      | Some value \<Rightarrow>
          rbind (EncryptJSON (cf_Aead cfg) (cf_Codec cfg) (rnd n) value (cf_EncryptionKey cfg) (fieldAAD e field)) (\<lambda>encoded.
            encryptFields cfg rnd (Suc n) e orig fs (mput p field (Some (VString encoded)))))"

fun digestFields :: "Config \<Rightarrow> Event \<Rightarrow> payload \<Rightarrow> string list \<Rightarrow> payload \<Rightarrow> payload result" where
  "digestFields cfg e orig [] p = Inr p"
| "digestFields cfg e orig (field # fs) p =
     (case mget orig field of
        None \<Rightarrow> digestFields cfg e orig fs p
      | Some value \<Rightarrow>
          rbind (SearchDigestBound (cf_Codec cfg) value (cf_EncryptionKey cfg) (ev_TenantID e) field) (\<lambda>digest.
            digestFields cfg e orig fs (mput p (field @ SearchDigestSuffix) (Some (VString digest)))))"

definition protectSensitiveFields :: "Config \<Rightarrow> (nat \<Rightarrow> bytes) \<Rightarrow> Event \<Rightarrow> EventSchema \<Rightarrow> Event result" where
  "protectSensitiveFields cfg rnd e schema =
     (if es_EncryptedFields schema = [] \<and> es_SearchableFields schema = [] then Inr e
      else case ev_Payload e of
             None \<Rightarrow> Inr e
           | Some p \<Rightarrow>
               let orig = originals p (es_EncryptedFields schema @ es_SearchableFields schema) in
               rbind (encryptFields cfg rnd 0 e orig (es_EncryptedFields schema) p) (\<lambda>p1.
               rbind (digestFields cfg e orig (es_SearchableFields schema) p1) (\<lambda>p2.
                 Inr (e\<lparr>ev_Payload := Some p2\<rparr>))))"

subsection \<open>reconstructEventForDigest, verifyContentDigest\<close>

fun decryptFields :: "Config \<Rightarrow> Event \<Rightarrow> string list \<Rightarrow> payload \<Rightarrow> payload result" where
  "decryptFields cfg e [] p = Inr p"
| "decryptFields cfg e (field # fs) p =
     (case mget p field of
        Some (Some (VString encoded)) \<Rightarrow>
          (case DecryptJSON (cf_Aead cfg) (cf_Codec cfg) encoded (cf_EncryptionKey cfg) (fieldAAD e field) of
             Inl err \<Rightarrow> Inl (Err (err_kind err) ''cannot decrypt field'')
           | Inr original \<Rightarrow> decryptFields cfg e fs (mput p field original))
      | _ \<Rightarrow> decryptFields cfg e fs p)"

definition reconstructEventForDigest :: "Config \<Rightarrow> Event \<Rightarrow> EventSchema gomap \<Rightarrow> Event result" where
  "reconstructEventForDigest cfg e schemas =
     (case mget schemas (SchemaKey (ev_TenantID e) (ev_SchemaID e) (ev_SchemaVersion e)) of
        None \<Rightarrow> Inl (Err ErrOther ''schema not found'')
      | Some schema \<Rightarrow>
          rbind (CloneEvent e) (\<lambda>reconstructed.
            case ev_Payload reconstructed of
              None \<Rightarrow> Inr reconstructed
            | Some p \<Rightarrow>
                rbind (decryptFields cfg e (es_EncryptedFields schema)
                         (fold (\<lambda>field m. mdel m (field @ SearchDigestSuffix)) (es_SearchableFields schema) p)) (\<lambda>p1.
                  Inr (reconstructed\<lparr>ev_Payload := Some p1\<rparr>))))"

definition reconstructAndDerive :: "Config \<Rightarrow> Event \<Rightarrow> EventSchema gomap \<Rightarrow> string result" where
  "reconstructAndDerive cfg e schemas = rbind (reconstructEventForDigest cfg e schemas) EventContentDigest"

definition verifyContentDigest :: "Config \<Rightarrow> Event \<Rightarrow> EventSchema gomap \<Rightarrow> error option" where
  "verifyContentDigest cfg e schemas =
     (if ev_SourceDigest e = '''' then Some (Err ErrOther ''missing source_digest'')
      else case reconstructEventForDigest cfg e schemas of
             Inl err \<Rightarrow> Some (Err (err_kind err) ''content digest check failed'')
           | Inr r \<Rightarrow>
               (case MatchEventContentDigest (cf_LegacyDigest cfg) r (ev_SourceDigest e) of
                  Inl err \<Rightarrow> Some (Err (err_kind err) ''content digest check failed'')
                | Inr encoding \<Rightarrow>
                    if encoding = DigestEncodingNone then
                      (case firstReservedSearchDigestKey (ev_Payload e) of
                         Some key \<Rightarrow> Some (Err ErrOther ''content verification failed: reserved search_digest namespace'')
                       | None \<Rightarrow> Some (Err ErrOther ''content digest mismatch''))
                    else None))"

subsection \<open>eventHash, sealSegment\<close>

definition hashFields :: "string \<Rightarrow> Event \<Rightarrow> (string \<times> gval) list" where
  "hashFields digest e =
     [(''digest'', VRef (Some (VString digest))), (''prev_hash'', VRef (Some (VString (ev_PrevHash e)))),
      (''sequence'', VRef (Some (VInt (ev_Sequence e)))), (''stream_id'', VRef (Some (VString (ev_StreamID e))))]"

definition eventHash :: "Event \<Rightarrow> string result" where
  "eventHash e =
     rbind (EventDigest e) (\<lambda>digest.
     rbind (CanonicalJSON (VMap True (Some (hashFields digest e)))) (\<lambda>data. Inr (HashBytes data)))"

definition manifestText :: "string \<Rightarrow> int \<Rightarrow> int \<Rightarrow> string \<Rightarrow> string \<Rightarrow> string" where
  "manifestText tenantID lo hi lastHash mroot =
     tenantID @ '':'' @ itoa lo @ '':'' @ itoa hi @ '':'' @ lastHash @ '':'' @ mroot"

definition sealSegment :: "Config \<Rightarrow> string \<Rightarrow> StreamState \<Rightarrow> time \<Rightarrow> (Segment \<times> Checkpoint) result" where
  \<comment> \<open>\<open>newID\<close> is what \<open>newID\<close> returned for the checkpoint\<close>
  "sealSegment cfg newID stream now =
     (let hashes = st_PendingHashes stream; mroot = merkleRoot hashes;
          lo = st_NextSequence stream - int (length hashes); hi = st_NextSequence stream - 1;
          manifestHash = HashBytes (manifestText (st_TenantID stream) lo hi (st_HeadHash stream) mroot)
      in case cf_Sign cfg manifestHash of
           Inl e \<Rightarrow> Inl (Err (err_kind e) ''sign segment'')
         | Inr signature \<Rightarrow>
             Inr (\<lparr>sg_TenantID = st_TenantID stream, sg_StreamID = st_StreamID stream, sg_FirstSequence = lo,
                    sg_LastSequence = hi, sg_FirstPrevHash = st_PendingPrevHash stream, sg_LastHash = st_HeadHash stream,
                    sg_EventCount = int (length hashes), sg_MerkleRoot = mroot, sg_ManifestHash = manifestHash,
                    sg_Signature = signature, sg_CreatedAt = now\<rparr>,
                  \<lparr>cp_ID = newID, cp_TenantID = st_TenantID stream, cp_StreamID = st_StreamID stream,
                    cp_Sequence = hi, cp_MerkleRoot = mroot, cp_Signature = signature,
                    cp_Algorithm = cf_Algorithm cfg, cp_CreatedAt = now\<rparr>))"

definition archiveEvent :: "('s \<Rightarrow> string \<Rightarrow> string \<Rightarrow> error option \<times> 's) \<Rightarrow> 's \<Rightarrow> Event \<Rightarrow> error option \<times> 's" where
  "archiveEvent put s e =
     (case CanonicalJSON (Event_value e) of
        Inl err \<Rightarrow> (Some err, s)
      | Inr data \<Rightarrow> put s (eventArchiveKey (ev_TenantID e) (ev_StreamID e) (ev_Sequence e) (ev_EventID e)) data)"

definition archiveSegment :: "('s \<Rightarrow> string \<Rightarrow> string \<Rightarrow> error option \<times> 's) \<Rightarrow> 's \<Rightarrow> Segment \<Rightarrow> error option \<times> 's" where
  "archiveSegment put s g =
     (case CanonicalJSON (Segment_value g) of
        Inl err \<Rightarrow> (Some err, s)
      | Inr data \<Rightarrow> put s (segmentArchiveKey (sg_TenantID g) (sg_StreamID g) (sg_FirstSequence g) (sg_LastSequence g)) data)"

subsection \<open>The hash chain binds the event\<close>

lemma ascii_HashBytes [simp]: "ascii (HashBytes s)"
proof -
  have h: "byte_of (hexLower d) < 128" if "d < 16" for d
    using that by (simp add: hexLower_def)
  have "byte_of c < 128" if "c \<in> set (HashBytes s)" for c
    using that h by (auto simp: HashBytes_def hexEncode_def dest!: sha256_less)
  then show ?thesis by (simp add: ascii_def)
qed

lemma normV_hashFields:
  assumes "normV (VMap True (Some (hashFields d e))) = normV (VMap True (Some (hashFields d' e')))"
  shows "runes d = runes d'" and "runes (ev_PrevHash e) = runes (ev_PrevHash e')"
    and "ev_Sequence e = ev_Sequence e'" and "runes (ev_StreamID e) = runes (ev_StreamID e')"
proof -
  let ?kvs = "\<lambda>d e. map (\<lambda>kv. (fst kv, normV (snd kv))) (hashFields d e)"
  have keys: "wf_map (?kvs d e)" "\<forall>a \<in> set (?kvs d e). ascii (fst a)" for d e
    by (simp_all add: hashFields_def wf_map_def ascii_def)
  have "map_of (?kvs d e) = map_of (?kvs d' e')"
    by (rule members_inj) (use assms keys in simp_all)
  then have eq: "map_of (?kvs d e) k = map_of (?kvs d' e') k" for k by simp
  show "runes d = runes d'" using eq [of "''digest''"] escape_runes [of d d'] by (simp add: hashFields_def esc_def)
  show "runes (ev_PrevHash e) = runes (ev_PrevHash e')" using eq [of "''prev_hash''"] escape_runes [of "ev_PrevHash e" "ev_PrevHash e'"] by (simp add: hashFields_def esc_def)
  show "ev_Sequence e = ev_Sequence e'" using eq [of "''sequence''"] itoa_inj [of "ev_Sequence e" "ev_Sequence e'"] by (simp add: hashFields_def text_of_def)
  show "runes (ev_StreamID e) = runes (ev_StreamID e')" using eq [of "''stream_id''"] escape_runes [of "ev_StreamID e" "ev_StreamID e'"] by (simp add: hashFields_def esc_def)
qed

definition hashText :: "Event \<Rightarrow> string result" where
  "hashText e = rbind (EventDigest e) (\<lambda>digest. CanonicalJSON (VMap True (Some (hashFields digest e))))"

lemma eventHash_text: "eventHash e = rbind (hashText e) (\<lambda>data. Inr (HashBytes data))"
  by (cases "EventDigest e") (simp_all add: eventHash_def hashText_def)

lemma eventHash_binds:
  assumes "eventHash e = Inr h" and "eventHash e' = Inr h"
  shows "(\<exists>d d'. EventDigest e = Inr d \<and> EventDigest e' = Inr d' \<and> runes d = runes d'
            \<and> runes (ev_PrevHash e) = runes (ev_PrevHash e')
            \<and> ev_Sequence e = ev_Sequence e' \<and> runes (ev_StreamID e) = runes (ev_StreamID e'))
     \<or> (\<exists>a b. hashText e = Inr a \<and> hashText e' = Inr b \<and> collision a b)"
proof -
  obtain a b where a: "hashText e = Inr a" "h = HashBytes a" and b: "hashText e' = Inr b" "h = HashBytes b"
    using assms by (auto simp: eventHash_text rbind_eq_Inr)
  obtain d d' where d: "EventDigest e = Inr d" "CanonicalJSON (VMap True (Some (hashFields d e))) = Inr a"
    and d': "EventDigest e' = Inr d'" "CanonicalJSON (VMap True (Some (hashFields d' e'))) = Inr b"
    using a(1) b(1) by (auto simp: hashText_def rbind_eq_Inr)
  show ?thesis
  proof (cases "a = b")
    case True
    have "normV (VMap True (Some (hashFields d e))) = normV (VMap True (Some (hashFields d' e')))"
      by (rule writeCanonical_inj [of _ b]) (use d d' True in \<open>simp_all only: CanonicalJSON_def\<close>)
    from normV_hashFields [OF this] show ?thesis using d(1) d'(1) by blast
  next
    case False
    then show ?thesis using a b by (auto simp: collision_def)
  qed
qed

lemma hashText_total: "EventDigest e = Inr d \<Longrightarrow> \<exists>a. hashText e = Inr a"
proof -
  assume d: "EventDigest e = Inr d"
  have "\<exists>a. CanonicalJSON (VMap True (Some (hashFields d e))) = Inr a"
    by (simp add: CanonicalJSON_def hashFields_def writeObject_def less_key_def writeMember_def)
  then show ?thesis by (simp add: hashText_def d)
qed

lemma eventHash_total: "EventDigest e = Inr d \<Longrightarrow> \<exists>h. eventHash e = Inr h"
  using hashText_total [of e d] by (auto simp: eventHash_text)

subsection \<open>Reconstruction undoes protection\<close>

text \<open>Two values of an interface that hold the same data, map order aside.\<close>

definition same_any :: "any \<Rightarrow> any \<Rightarrow> bool" where
  "same_any v w \<longleftrightarrow> same_value (VRef v) (VRef w)"

text \<open>What is relied on of the codec for a value: decoding its marshalled text gives the value back.\<close>

definition codec_ok :: "Codec \<Rightarrow> any \<Rightarrow> bool" where
  "codec_ok js v \<longleftrightarrow> (\<forall>plain. js_Marshal js v = Inr plain \<longrightarrow> (\<exists>w. js_Decode js plain = Inr w \<and> same_any v w))"

lemma mget_originals_fold:
  "mget (fold (\<lambda>f m. case mget p f of None \<Rightarrow> m | Some v \<Rightarrow> mput m f v) fs m) k
     = (if k \<in> set fs \<and> mget p k \<noteq> None then mget p k else mget m k)"
  by (induction fs arbitrary: m) (auto simp: map_simps split: option.splits)

lemma mget_originals: "mget (originals p fs) k = (if k \<in> set fs then mget p k else None)"
  by (auto simp: originals_def mget_originals_fold)

lemma encryptFields_spec:
  assumes "encryptFields cfg rnd n e orig fs p = Inr p1"
  shows "(wf_map p \<longrightarrow> wf_map p1)
    \<and> (\<forall>k. k \<notin> set fs \<or> mget orig k = None \<longrightarrow> mget p1 k = mget p k)
    \<and> (\<forall>k v. k \<in> set fs \<longrightarrow> mget orig k = Some v \<longrightarrow>
        (\<exists>i enc. mget p1 k = Some (Some (VString enc))
           \<and> EncryptJSON (cf_Aead cfg) (cf_Codec cfg) (rnd i) v (cf_EncryptionKey cfg) (fieldAAD e k) = Inr enc))"
  using assms
proof (induction fs arbitrary: n p)
  case (Cons f fs)
  show ?case
  proof (cases "mget orig f")
    case None
    then show ?thesis using Cons by auto
  next
    case (Some v)
    then obtain enc where enc: "EncryptJSON (cf_Aead cfg) (cf_Codec cfg) (rnd n) v (cf_EncryptionKey cfg) (fieldAAD e f) = Inr enc"
      and rest: "encryptFields cfg rnd (Suc n) e orig fs (mput p f (Some (VString enc))) = Inr p1"
      using Cons.prems by (auto simp: rbind_eq_Inr)
    note ih = Cons.IH [OF rest]
    have wf: "wf_map p \<longrightarrow> wf_map p1" using ih wf_map_mput by blast
    have keep: "mget p1 k = mget p k" if "k \<notin> set (f # fs) \<or> mget orig k = None" for k
      using ih that Some by (auto simp: map_simps)
    have new: "\<exists>i enc. mget p1 k = Some (Some (VString enc))
           \<and> EncryptJSON (cf_Aead cfg) (cf_Codec cfg) (rnd i) w (cf_EncryptionKey cfg) (fieldAAD e k) = Inr enc"
      if k: "k \<in> set (f # fs)" "mget orig k = Some w" for k w
    proof (cases "k \<in> set fs")
      case True
      then show ?thesis using ih k(2) by blast
    next
      case False
      then have "k = f" "w = v" using k Some by auto
      then show ?thesis using ih False enc by (auto simp: map_simps)
    qed
    show ?thesis using wf keep new by blast
  qed
qed simp

lemma digestFields_spec:
  assumes "digestFields cfg e orig fs p = Inr p1"
  shows "(wf_map p \<longrightarrow> wf_map p1) \<and> (\<forall>k. k \<notin> (\<lambda>f. f @ SearchDigestSuffix) ` set fs \<longrightarrow> mget p1 k = mget p k)
    \<and> (\<forall>k. mget p1 k = mget p k \<or> (\<exists>x. mget p1 k = Some (Some (VString x))))"
  using assms
proof (induction fs arbitrary: p)
  case (Cons f fs)
  show ?case
  proof (cases "mget orig f")
    case None
    then show ?thesis using Cons by auto
  next
    case (Some v)
    then obtain d where "digestFields cfg e orig fs (mput p (f @ SearchDigestSuffix) (Some (VString d))) = Inr p1"
      using Cons.prems by (auto simp: rbind_eq_Inr)
    note ih = Cons.IH [OF this, unfolded mget_mput]
    have wf: "wf_map p \<longrightarrow> wf_map p1" using ih wf_map_mput by blast
    have keep: "mget p1 k = mget p k" if "k \<notin> (\<lambda>f. f @ SearchDigestSuffix) ` set (f # fs)" for k
      using ih that by auto
    have new: "mget p1 k = mget p k \<or> (\<exists>x. mget p1 k = Some (Some (VString x)))" for k
      using conjunct2 [OF conjunct2 [OF ih], THEN spec, of k] by (cases "k = f @ SearchDigestSuffix") auto
    show ?thesis using wf keep new by blast
  qed
qed simp

lemma deleted_digests:
  "wf_map p \<Longrightarrow> wf_map (fold (\<lambda>f m. mdel m (f @ SearchDigestSuffix)) fs p)"
  "mget (fold (\<lambda>f m. mdel m (f @ SearchDigestSuffix)) fs p) k
     = (if k \<in> (\<lambda>f. f @ SearchDigestSuffix) ` set fs then None else mget p k)"
  by (induction fs arbitrary: p) (auto simp: map_simps)

lemma decryptFields_spec:
  assumes "distinct fs"
    and "\<And>k. k \<in> set fs \<Longrightarrow> mget p k = None \<or> (\<exists>enc w. mget p k = Some (Some (VString enc))
           \<and> DecryptJSON (cf_Aead cfg) (cf_Codec cfg) enc (cf_EncryptionKey cfg) (fieldAAD e k) = Inr w \<and> R k w)"
  shows "\<exists>p1. decryptFields cfg e fs p = Inr p1 \<and> (wf_map p \<longrightarrow> wf_map p1)
    \<and> (\<forall>k. k \<notin> set fs \<or> mget p k = None \<longrightarrow> mget p1 k = mget p k)
    \<and> (\<forall>k. k \<in> set fs \<and> mget p k \<noteq> None \<longrightarrow> (\<exists>w. mget p1 k = Some w \<and> R k w))"
  using assms
proof (induction fs arbitrary: p)
  case (Cons f fs)
  have nf: "f \<notin> set fs" and d: "distinct fs" using Cons.prems(1) by auto
  show ?case
  proof (cases "mget p f = None")
    case True
    then show ?thesis using Cons.IH [OF d, of p] Cons.prems(2) by fastforce
  next
    case False
    then obtain enc w where f: "mget p f = Some (Some (VString enc))" "R f w"
      "DecryptJSON (cf_Aead cfg) (cf_Codec cfg) enc (cf_EncryptionKey cfg) (fieldAAD e f) = Inr w"
      using Cons.prems(2) [of f] by auto
    have other: "k \<in> set fs \<Longrightarrow> mget (mput p f w) k = mget p k" for k using nf by (auto simp: map_simps)
    have "\<exists>p1. decryptFields cfg e fs (mput p f w) = Inr p1 \<and> (wf_map (mput p f w) \<longrightarrow> wf_map p1)
      \<and> (\<forall>k. k \<notin> set fs \<or> mget (mput p f w) k = None \<longrightarrow> mget p1 k = mget (mput p f w) k)
      \<and> (\<forall>k. k \<in> set fs \<and> mget (mput p f w) k \<noteq> None \<longrightarrow> (\<exists>w. mget p1 k = Some w \<and> R k w))"
      by (rule Cons.IH [OF d]) (use Cons.prems(2) other in simp)
    then obtain p1 where p1: "decryptFields cfg e fs (mput p f w) = Inr p1" "wf_map (mput p f w) \<longrightarrow> wf_map p1"
      "\<forall>k. k \<notin> set fs \<or> mget (mput p f w) k = None \<longrightarrow> mget p1 k = mget (mput p f w) k"
      "\<forall>k. k \<in> set fs \<and> mget (mput p f w) k \<noteq> None \<longrightarrow> (\<exists>w. mget p1 k = Some w \<and> R k w)"
      by (elim exE conjE)
    have wf: "wf_map p \<longrightarrow> wf_map p1" using p1(2) wf_map_mput [of p f w] by simp
    have "decryptFields cfg e (f # fs) p = Inr p1" using f p1(1) by simp
    moreover have "mget p1 k = mget p k" if "k \<notin> set (f # fs) \<or> mget p k = None" for k
      using spec [OF p1(3), of k] that f(1) by (auto simp: map_simps)
    moreover have "\<exists>w. mget p1 k = Some w \<and> R k w" if "k \<in> set (f # fs)" "mget p k \<noteq> None" for k
    proof (cases "k = f")
      case True
      then show ?thesis using spec [OF p1(3), of f] nf f(2) by (simp add: map_simps)
    next
      case False
      then show ?thesis using spec [OF p1(4), of k] that by (simp add: map_simps)
    qed
    ultimately show ?thesis using wf by (intro exI [of _ p1] conjI allI impI) simp_all
  qed
qed simp

lemma same_payload:
  assumes p: "wf_map p" and q: "wf_map q" and rel: "\<And>k. rel_option same_any (mget p k) (mget q k)"
  shows "same_value (payload_value (Some p)) (payload_value (Some q))"
proof -
  let ?kvs = "map (\<lambda>kv. (fst kv, VRef (snd kv))) p"
  let ?lws = "map (\<lambda>kv. (fst kv, VRef (the (mget q (fst kv))))) p"
  let ?kws = "map (\<lambda>kv. (fst kv, VRef (snd kv))) q"
  have pq: "\<exists>w. mget q k = Some w \<and> same_any v w" if "(k, v) \<in> set p" for k v
    using rel [of k] that mget_iff [OF p, of k v] by (auto simp: option_rel_Some1)
  have qp: "\<exists>v. (k, v) \<in> set p" if "(k, w) \<in> set q" for k w
    using rel [of k] that mget_iff [OF q, of k w] mget_in [of p k] by (auto simp: option_rel_Some2)
  have dist: "distinct ?lws" "distinct ?kws"
    using p q by (auto simp: wf_map_def distinct_map intro!: inj_onI dest: inj_onD)
  have "set ?lws = set ?kws"
  proof (intro set_eqI iffI)
    fix x assume "x \<in> set ?lws"
    then obtain k v where kv: "(k, v) \<in> set p" "x = (k, VRef (the (mget q k)))" by auto
    then obtain w where "mget q k = Some w" using pq by blast
    then show "x \<in> set ?kws" using kv(2) mget_in by force
  next
    fix x assume "x \<in> set ?kws"
    then obtain k w where kw: "(k, w) \<in> set q" "x = (k, VRef w)" by auto
    then obtain v where v: "(k, v) \<in> set p" using qp by blast
    then show "x \<in> set ?lws" using kw mget_iff [OF q, of k w] by (auto intro!: image_eqI [of _ _ "(k, v)"])
  qed
  then have "mset ?lws = mset ?kws" using dist set_eq_iff_mset_eq_distinct by blast
  moreover have "list_all2 (\<lambda>a b. fst a = fst b \<and> same_value (snd a) (snd b)) ?kvs ?lws"
    unfolding list_all2_map1 list_all2_map2 using pq by (fastforce simp: list_all2_same same_any_def)
  moreover have "wf_map ?kvs" using p by (simp add: wf_map_def comp_def)
  ultimately show ?thesis unfolding payload_value_def by (auto intro: same_map)
qed

lemma same_event:
  assumes "same_value (payload_value a) (payload_value b)"
  shows "EventContentDigest (e\<lparr>ev_Payload := a\<rparr>) = EventContentDigest (e\<lparr>ev_Payload := b\<rparr>)"
proof -
  have "same_value (Event_value (contentOnly (e\<lparr>ev_Payload := a\<rparr>))) (Event_value (contentOnly (e\<lparr>ev_Payload := b\<rparr>)))"
    unfolding Event_value_def Event_fields_def contentOnly_def
    by (rule same_struct) (use assms in \<open>simp add: same_refl\<close>)
  from writeCanonical_same [OF this] show ?thesis
    by (simp only: EventContentDigest_def CanonicalJSON_def)
qed

lemma CloneEvent_iff:
  "CloneEvent e = Inr e \<longleftrightarrow> \<not> isl (cloneValue (map_value FieldChange_value (ev_ChangedFields e)))
     \<and> \<not> isl (cloneValue (payload_value (ev_Payload e)))"
proof -
  have c: "CloneEvent e = Inr e \<longleftrightarrow> \<not> isl (cloneValue (Event_value e))"
    by (cases "cloneValue (Event_value e)") (auto simp: CloneEvent_def)
  have "\<not> isl (cloneValue (Actor_value a))" "\<not> isl (cloneValue (slice_value Target_value ts))" for a ts
    by (simp_all add: Actor_value_def strings_value_def slice_value_def Target_value_def)
  then show ?thesis unfolding c by (simp add: Event_value_def Event_fields_def)
qed

lemma clone_payload:
  "\<not> isl (cloneValue (payload_value (Some q))) \<longleftrightarrow> (\<forall>(k, v) \<in> set q. \<not> isl (cloneValue (VRef v)))"
  by (auto simp: payload_value_def)

lemma HasSuffix_append [simp]: "HasSuffix (s @ t) t"
  by (simp add: HasSuffix_def)

lemma same_any_refl [simp]: "same_any v v"
  by (simp add: same_any_def same_refl)

lemma protected_payload:
  assumes enc: "encryptFields cfg rnd n e (originals p (efs @ sfs)) efs p = Inr p1"
    and dig: "digestFields cfg e (originals p (efs @ sfs)) sfs p1 = Inr p2"
    and ae: "aead_ok (cf_Aead cfg)" and nonce: "\<forall>n. nonce_ok (rnd n)"
    and codec: "\<forall>k v. mget p k = Some v \<longrightarrow> codec_ok (cf_Codec cfg) v"
    and wf: "wf_map p" and free: "\<forall>k. HasSuffix k SearchDigestSuffix \<longrightarrow> mget p k = None"
    and dist: "distinct efs"
  shows "wf_map p2" and "mget p2 k = Some v \<Longrightarrow> mget p k = Some v \<or> (\<exists>x. v = Some (VString x))"
    and "\<exists>p3. decryptFields cfg e efs (fold (\<lambda>f m. mdel m (f @ SearchDigestSuffix)) sfs p2) = Inr p3
           \<and> wf_map p3 \<and> (\<forall>k. rel_option same_any (mget p k) (mget p3 k))"
proof -
  let ?image = "(\<lambda>f. f @ SearchDigestSuffix) ` set sfs" and ?q = "fold (\<lambda>f m. mdel m (f @ SearchDigestSuffix)) sfs p2"
  note e = encryptFields_spec [OF enc] and d = digestFields_spec [OF dig] and q = deleted_digests(2) [of sfs p2]
  show wf2: "wf_map p2" using e d wf by blast
  have outside: "mget p1 k = mget p k" if "k \<notin> set efs \<or> mget p k = None" for k
    using e that by (auto simp: mget_originals)
  have inside: "\<exists>i enc. mget p1 k = Some (Some (VString enc))
      \<and> EncryptJSON (cf_Aead cfg) (cf_Codec cfg) (rnd i) v (cf_EncryptionKey cfg) (fieldAAD e k) = Inr enc"
    if "k \<in> set efs" "mget p k = Some v" for k v
    using e that by (simp add: mget_originals)
  show "mget p2 k = Some v \<Longrightarrow> mget p k = Some v \<or> (\<exists>x. v = Some (VString x))"
  proof (cases "k \<in> set efs \<and> mget p k \<noteq> None")
    case True
    then obtain w enc where "mget p1 k = Some (Some (VString enc))" using inside [of k] by fastforce
    moreover assume "mget p2 k = Some v"
    ultimately show ?thesis using d by (metis option.inject)
  next
    case False
    assume "mget p2 k = Some v"
    then show ?thesis using d outside [of k] False by (metis option.inject)
  qed
  have img: "mget p k = None" if "k \<in> ?image" for k using free that by auto
  have qk: "mget ?q k = (if k \<in> ?image then None else mget p1 k)" for k
    using d q by simp
  let ?R = "\<lambda>k w. \<exists>v. mget p k = Some v \<and> same_any v w"
  have dec: "mget ?q k = None \<or> (\<exists>enc w. mget ?q k = Some (Some (VString enc))
      \<and> DecryptJSON (cf_Aead cfg) (cf_Codec cfg) enc (cf_EncryptionKey cfg) (fieldAAD e k) = Inr w \<and> ?R k w)"
    if k: "k \<in> set efs" for k
  proof (cases "mget p k")
    case None
    then show ?thesis using qk outside by simp
  next
    case (Some v)
    then obtain i x where x: "mget p1 k = Some (Some (VString x))"
      "EncryptJSON (cf_Aead cfg) (cf_Codec cfg) (rnd i) v (cf_EncryptionKey cfg) (fieldAAD e k) = Inr x"
      using inside k by blast
    obtain plain where "js_Marshal (cf_Codec cfg) v = Inr plain"
      "DecryptJSON (cf_Aead cfg) (cf_Codec cfg) x (cf_EncryptionKey cfg) (fieldAAD e k) = js_Decode (cf_Codec cfg) plain"
      using DecryptJSON_EncryptJSON [OF ae spec [OF nonce] x(2)] by blast
    then obtain w where "DecryptJSON (cf_Aead cfg) (cf_Codec cfg) x (cf_EncryptionKey cfg) (fieldAAD e k) = Inr w" "same_any v w"
      using codec [rule_format, OF Some] by (auto simp: codec_ok_def)
    then show ?thesis using qk [of k] x(1) Some img by auto
  qed
  obtain p3 where p3: "decryptFields cfg e efs ?q = Inr p3" "wf_map ?q \<longrightarrow> wf_map p3"
    "\<forall>k. k \<notin> set efs \<or> mget ?q k = None \<longrightarrow> mget p3 k = mget ?q k"
    "\<forall>k. k \<in> set efs \<and> mget ?q k \<noteq> None \<longrightarrow> (\<exists>w. mget p3 k = Some w \<and> ?R k w)"
    using decryptFields_spec [OF dist dec] by blast
  have "rel_option same_any (mget p k) (mget p3 k)" for k
  proof (cases "k \<in> set efs \<and> mget ?q k \<noteq> None")
    case True
    then obtain w v where "mget p3 k = Some w" "mget p k = Some v" "same_any v w" using p3(4) by blast
    then show ?thesis by simp
  next
    case False
    then have "mget p3 k = mget ?q k" using p3(3) by blast
    moreover have "mget ?q k = mget p k"
      using qk [of k] img [of k] outside [of k] inside [of k] False by (cases "mget p k") (auto split: if_splits)
    ultimately show ?thesis by (cases "mget p k") simp_all
  qed
  then show "\<exists>p3. decryptFields cfg e efs ?q = Inr p3 \<and> wf_map p3 \<and> (\<forall>k. rel_option same_any (mget p k) (mget p3 k))"
    using p3(1,2) deleted_digests(1) [OF wf2] by blast
qed

definition payload_wf :: "payload option \<Rightarrow> bool" where
  "payload_wf p \<longleftrightarrow> (case p of None \<Rightarrow> True | Some m \<Rightarrow> wf_map m)"

lemma reserved_free:
  "rejectReservedSearchDigestNamespace (Some p) = None \<Longrightarrow> HasSuffix k SearchDigestSuffix \<Longrightarrow> mget p k = None"
  by (auto simp: rejectReservedSearchDigestNamespace_def payloadKeys_def mget_mkeys split: if_splits)

text \<open>
  Protection keeps everything but the payload, and reconstruction from the protected event, whatever
  coordinates were assigned to it since, has the content digest of the event before protection.
\<close>

lemma protect_keeps: "protectSensitiveFields cfg rnd e schema = Inr e' \<Longrightarrow> \<exists>p. e' = e\<lparr>ev_Payload := p\<rparr>"
  by (auto simp: protectSensitiveFields_def rbind_eq_Inr Let_def split: if_splits option.splits intro: exI [of _ "ev_Payload e"])

lemma decryptFields_AAD:
  assumes "\<And>f. fieldAAD e' f = fieldAAD e f"
  shows "decryptFields cfg e' fs m = decryptFields cfg e fs m"
proof (induction fs arbitrary: m)
  case (Cons f fs)
  show ?case unfolding decryptFields.simps assms Cons.IH by (rule refl)
qed simp

lemma reconstruct_coordinates:
  assumes "reconstructEventForDigest cfg e schemas = Inr r"
  shows "reconstructEventForDigest cfg (e\<lparr>ev_StreamID := s, ev_Sequence := n, ev_PrevHash := p, ev_Hash := h\<rparr>) schemas
    = Inr (r\<lparr>ev_StreamID := s, ev_Sequence := n, ev_PrevHash := p, ev_Hash := h\<rparr>)"
proof -
  let ?u = "\<lambda>e. e\<lparr>ev_StreamID := s, ev_Sequence := n, ev_PrevHash := p, ev_Hash := h\<rparr>"
  have c: "CloneEvent e = Inr e"
    using assms by (auto simp: reconstructEventForDigest_def rbind_eq_Inr split: option.splits dest: CloneEvent_same)
  then have cu: "CloneEvent (?u e) = Inr (?u e)" by (simp add: CloneEvent_iff)
  have d: "decryptFields cfg (?u e) fs m = decryptFields cfg e fs m" for fs m
    by (rule decryptFields_AAD) (simp add: fieldAAD_def)
  show ?thesis
    using assms by (auto simp: reconstructEventForDigest_def c cu d rbind_eq_Inr split: option.splits)
qed

lemma protect_reconstruct:
  assumes ae: "aead_ok (cf_Aead cfg)" and nonce: "\<forall>n. nonce_ok (rnd n)"
    and codec: "\<forall>k v. payloadGet (ev_Payload e) k = Some v \<longrightarrow> codec_ok (cf_Codec cfg) v"
    and dist: "distinct (es_EncryptedFields schema)" and wf: "payload_wf (ev_Payload e)"
    and free: "rejectReservedSearchDigestNamespace (ev_Payload e) = None"
    and clone: "CloneEvent e = Inr e"
    and prot: "protectSensitiveFields cfg rnd e schema = Inr e'"
    and schema: "mget schemas (SchemaKey (ev_TenantID e) (ev_SchemaID e) (ev_SchemaVersion e)) = Some schema"
  shows "\<exists>q. reconstructEventForDigest cfg e' schemas = Inr (e\<lparr>ev_Payload := q\<rparr>)
    \<and> same_value (payload_value (ev_Payload e)) (payload_value q)"
proof -
  let ?efs = "es_EncryptedFields schema" and ?sfs = "es_SearchableFields schema"
  show ?thesis
  proof (cases "ev_Payload e")
    case None
    then have "e' = e" using prot by (simp add: protectSensitiveFields_def split: if_splits)
    then show ?thesis
      using clone schema None by (auto simp: reconstructEventForDigest_def same_refl intro!: exI [of _ None])
  next
    case (Some p)
    obtain p1 p2 where enc: "encryptFields cfg rnd 0 e (originals p (?efs @ ?sfs)) ?efs p = Inr p1"
      and dig: "digestFields cfg e (originals p (?efs @ ?sfs)) ?sfs p1 = Inr p2" and e': "e' = e\<lparr>ev_Payload := Some p2\<rparr>"
      using prot Some by (auto simp: protectSensitiveFields_def Let_def rbind_eq_Inr split: if_splits)
    have pc: "\<forall>k v. mget p k = Some v \<longrightarrow> codec_ok (cf_Codec cfg) v"
      using codec Some by (simp add: payloadGet_def)
    have pw: "wf_map p" using wf Some by (simp add: payload_wf_def)
    have pf: "\<forall>k. HasSuffix k SearchDigestSuffix \<longrightarrow> mget p k = None"
      using reserved_free free Some by auto
    note pp = protected_payload [OF enc dig ae nonce pc pw pf dist]
    obtain p3 where p3: "decryptFields cfg e ?efs (fold (\<lambda>f m. mdel m (f @ SearchDigestSuffix)) ?sfs p2) = Inr p3"
      "wf_map p3" "\<forall>k. rel_option same_any (mget p k) (mget p3 k)"
      using pp(3) by blast
    have "\<not> isl (cloneValue (VRef v))" if "(k, v) \<in> set p2" for k v
    proof -
      have "mget p k = Some v \<or> (\<exists>x. v = Some (VString x))"
        using pp(2) [of k v] mget_iff [OF pp(1), of k v] that by blast
      moreover have "\<not> isl (cloneValue (VRef v))" if "mget p k = Some v"
        using clone clone_payload [of p] mget_in [OF that] Some by (auto simp: CloneEvent_iff)
      ultimately show ?thesis by auto
    qed
    then have "CloneEvent e' = Inr e'"
      using clone clone_payload [of p2] unfolding e' CloneEvent_iff by auto
    moreover have "decryptFields cfg e' fs m = decryptFields cfg e fs m" for fs m
      by (rule decryptFields_AAD) (simp add: e' fieldAAD_def)
    ultimately have "reconstructEventForDigest cfg e' schemas = Inr (e\<lparr>ev_Payload := Some p3\<rparr>)"
      using schema p3(1) by (simp add: reconstructEventForDigest_def e')
    moreover have "same_value (payload_value (Some p)) (payload_value (Some p3))"
      using same_payload [OF pw p3(2)] p3(3) by blast
    ultimately show ?thesis using Some by auto
  qed
qed

subsection \<open>Which tenant a producer writes to\<close>

definition bindsClient :: "string \<Rightarrow> string \<Rightarrow> SourceSystem \<Rightarrow> bool" where
  "bindsClient clientID sourceID src \<longleftrightarrow> ss_Active src \<and> ss_ID src = sourceID \<and> AllowsClient src clientID"

lemma resolveLoop_spec:
  "\<forall>src \<in> set srcs. ss_TenantID src \<noteq> '''' \<Longrightarrow>
   resolveLoop c s srcs r = Inr t \<longleftrightarrow>
     t \<noteq> '''' \<and> (r = '''' \<or> r = t) \<and> ss_TenantID ` {src \<in> set srcs. bindsClient c s src} \<subseteq> {t}
     \<and> (r = '''' \<longrightarrow> (\<exists>src \<in> set srcs. bindsClient c s src))"
proof (induction srcs arbitrary: r)
  case (Cons src srcs)
  have nz: "ss_TenantID src \<noteq> ''''" and ih: "resolveLoop c s srcs r' = Inr t \<longleftrightarrow>
     t \<noteq> '''' \<and> (r' = '''' \<or> r' = t) \<and> ss_TenantID ` {src \<in> set srcs. bindsClient c s src} \<subseteq> {t}
     \<and> (r' = '''' \<longrightarrow> (\<exists>src \<in> set srcs. bindsClient c s src))" for r'
    using Cons by simp_all
  show ?case
  proof (cases "bindsClient c s src")
    case True
    then have "{x \<in> set (src # srcs). bindsClient c s x} = insert src {x \<in> set srcs. bindsClient c s x}" by auto
    then show ?thesis using True nz ih [of "ss_TenantID src"] by (auto simp: bindsClient_def)
  next
    case False
    then have "{x \<in> set (src # srcs). bindsClient c s x} = {x \<in> set srcs. bindsClient c s x}" by auto
    then show ?thesis using False ih [of r] by (auto simp: bindsClient_def)
  qed
qed auto

subsection \<open>Properties\<close>

text \<open>A configuration and a schema the witnesses use.\<close>

definition exampleCodec :: Codec where
  "exampleCodec = \<lparr>js_Marshal = (\<lambda>v. case v of Some (VString s) \<Rightarrow> Inr s | _ \<Rightarrow> Inl (Err ErrOther ''unsupported'')),
     js_Decode = (\<lambda>s. Inr (Some (VString s))), js_Unmarshal = (\<lambda>s. Inr (Some (VString s)))\<rparr>"

definition exampleConfig :: Config where
  "exampleConfig = \<lparr>cf_EncryptionKey = ''k'', cf_ServerVersion = ''v'', cf_SegmentSize = 2, cf_MaxEventBytes = 1000,
     cf_Sign = (\<lambda>m. Inr (''sig:'' @ m)), cf_Verify = (\<lambda>m s. Inr (s = ''sig:'' @ m)), cf_Algorithm = ''test'',
     cf_Aead = exampleAead, cf_Codec = exampleCodec, cf_LegacyDigest = (\<lambda>e. Inl (Err ErrOther ''no legacy digest'')),
     cf_ArchiveConfigured = False, cf_DecodeEvent = (\<lambda>s. Inl (Err ErrOther ''invalid character'')),
     cf_LedgeredPublisher = False, cf_AggregateCheckpointRetention = 30, cf_MaxAdminActions = 1000,
     cf_MaxAdminTrailActions = 1000, cf_StuckExportAge = 0\<rparr>"

definition exampleSchema :: EventSchema where
  "exampleSchema = \<lparr>es_TenantID = ''t1'', es_SchemaID = ''user'', es_Version = 1, es_EventType = ''user.updated'',
     es_RequiredFields = [], es_AllowedFields = [], es_EncryptedFields = [''name''], es_SearchableFields = [''name''],
     es_Classification = '''', es_Active = True, es_CreatedAt = 0\<rparr>"

definition exampleSchemas :: "EventSchema gomap" where
  "exampleSchemas = [(SchemaKey ''t1'' ''user'' 1, exampleSchema)]"

lemma exampleCodec_ok: "codec_ok exampleCodec v"
  by (auto simp: codec_ok_def exampleCodec_def split: option.splits gval.splits)

lemma protected_content:
  assumes "aead_ok (cf_Aead cfg)" and "\<forall>n. nonce_ok (rnd n)"
    and "\<forall>k v. payloadGet (ev_Payload e) k = Some v \<longrightarrow> codec_ok (cf_Codec cfg) v"
    and "distinct (es_EncryptedFields schema)" and "payload_wf (ev_Payload e)"
    and "rejectReservedSearchDigestNamespace (ev_Payload e) = None"
    and "CloneEvent e = Inr e" and "EventContentDigest e = Inr d"
    and "protectSensitiveFields cfg rnd (e\<lparr>ev_SourceDigest := d\<rparr>) schema = Inr e'"
    and "mget schemas (SchemaKey (ev_TenantID e) (ev_SchemaID e) (ev_SchemaVersion e)) = Some schema"
  shows "ev_SourceDigest e' = d \<and> d \<noteq> [] \<and>
    (\<exists>r. reconstructEventForDigest cfg (e'\<lparr>ev_StreamID := s, ev_Sequence := n, ev_PrevHash := p, ev_Hash := h\<rparr>) schemas = Inr r
       \<and> EventContentDigest r = Inr d)"
proof -
  let ?e = "e\<lparr>ev_SourceDigest := d\<rparr>"
  have c: "CloneEvent ?e = Inr ?e" using assms(7) by (simp add: CloneEvent_iff)
  obtain q where q: "reconstructEventForDigest cfg e' schemas = Inr (?e\<lparr>ev_Payload := q\<rparr>)"
    "same_value (payload_value (ev_Payload ?e)) (payload_value q)"
    using protect_reconstruct [OF assms(1,2) _ assms(4) _ _ c assms(9), of schemas] assms(3,5,6,10) by auto
  let ?u = "\<lambda>e. e\<lparr>ev_StreamID := s, ev_Sequence := n, ev_PrevHash := p, ev_Hash := h\<rparr>"
  have r: "reconstructEventForDigest cfg (?u e') schemas = Inr (?u (?e\<lparr>ev_Payload := q\<rparr>))"
    by (rule reconstruct_coordinates [OF q(1)])
  have "EventContentDigest (?u (?e\<lparr>ev_Payload := q\<rparr>)) = EventContentDigest (e\<lparr>ev_Payload := q\<rparr>)"
    by (simp add: EventContentDigest_def contentOnly_def)
  also have "\<dots> = EventContentDigest (e\<lparr>ev_Payload := ev_Payload e\<rparr>)"
    by (rule same_event [symmetric]) (use q(2) in simp)
  finally have "EventContentDigest (?u (?e\<lparr>ev_Payload := q\<rparr>)) = Inr d" using assms(8) by simp
  moreover have "d \<noteq> []" using assms(8) by (auto simp: EventContentDigest_def rbind_eq_Inr)
  moreover have "ev_SourceDigest e' = d" using protect_keeps [OF assms(9)] by auto
  ultimately show ?thesis using r by blast
qed

lemma verifyContentDigest_None:
  assumes "ev_SourceDigest e \<noteq> []" "reconstructEventForDigest cfg e schemas = Inr r" "EventContentDigest r = Inr (ev_SourceDigest e)"
  shows "verifyContentDigest cfg e schemas = None"
  using assms by (simp add: verifyContentDigest_def MatchEventContentDigest_def)




text \<open>
  C34. One tenant, or none. Without a tenant hint the tenant of an ingest is resolved exactly when the
  active registrations of the source that admit the client all belong to one tenant, which is then the
  result, whatever order the registrations are ranged over in; with a hint, the hint is the result and
  exactly when its own registration admits the client.
\<close>

theorem tenant_resolution_unambiguous:
  assumes "wf_map (sn_Sources data)" and "\<forall>src \<in> set (mvals (sn_Sources data)). ss_TenantID src \<noteq> ''''"
  shows "(resolveIngestTenantFromData data '''' c s = Inr t \<longleftrightarrow>
            ss_TenantID ` {src. (\<exists>k. mget (sn_Sources data) k = Some src) \<and> bindsClient c s src} = {t})
    \<and> (h \<noteq> '''' \<longrightarrow> (resolveIngestTenantFromData data h c s = Inr t \<longleftrightarrow>
            h = t \<and> (\<exists>src. mget (sn_Sources data) (SourceKey h s) = Some src \<and> ss_Active src \<and> AllowsClient src c)))"
proof -
  let ?S = "{src \<in> set (mvals (sn_Sources data)). bindsClient c s src}"
  have S: "{src. (\<exists>k. mget (sn_Sources data) k = Some src) \<and> bindsClient c s src} = ?S"
    using mvals_iff [OF assms(1)] by auto
  have "resolveIngestTenantFromData data '''' c s = Inr t \<longleftrightarrow> t \<noteq> '''' \<and> ss_TenantID ` ?S \<subseteq> {t} \<and> ?S \<noteq> {}"
    using resolveLoop_spec [OF assms(2), of c s "''''" t] by (auto simp: resolveIngestTenantFromData_def)
  also have "\<dots> \<longleftrightarrow> ss_TenantID ` ?S = {t}"
  proof
    assume eq: "ss_TenantID ` ?S = {t}"
    then obtain src where "src \<in> ?S" "ss_TenantID src = t" by blast
    then show "t \<noteq> '''' \<and> ss_TenantID ` ?S \<subseteq> {t} \<and> ?S \<noteq> {}" using assms(2) eq by blast
  qed blast
  finally show ?thesis unfolding S
    by (auto simp: resolveIngestTenantFromData_def sourceAccessAllowed_def split: option.splits if_splits)
qed

definition exampleSource :: SourceSystem where
  "exampleSource = \<lparr>ss_ID = ''crm'', ss_TenantID = ''t1'', ss_Name = ''CRM'', ss_AllowedClientIDs = [''svc''],
     ss_Active = True, ss_CreatedAt = 0\<rparr>"

definition exampleSnapshot :: Snapshot where
  "exampleSnapshot = NewSnapshot\<lparr>sn_Sources := [(SourceKey ''t1'' ''crm'', exampleSource)], sn_Schemas := exampleSchemas\<rparr>"

theorem tenant_resolution_unambiguous_witness:
  "resolveIngestTenantFromData exampleSnapshot '''' ''svc'' ''crm'' = Inr ''t1''
   \<and> resolveIngestTenantFromData exampleSnapshot '''' ''other'' ''crm'' \<noteq> Inr ''t1''"
proof -
  have a: "wf_map (sn_Sources exampleSnapshot)" "\<forall>src \<in> set (mvals (sn_Sources exampleSnapshot)). ss_TenantID src \<noteq> ''''"
    by (simp_all add: exampleSnapshot_def wf_map_def mvals_def exampleSource_def)
  have one: "{src. (\<exists>k. mget (sn_Sources exampleSnapshot) k = Some src) \<and> bindsClient ''svc'' ''crm'' src} = {exampleSource}"
    and none: "{src. (\<exists>k. mget (sn_Sources exampleSnapshot) k = Some src) \<and> bindsClient ''other'' ''crm'' src} = {}"
    by (auto simp: exampleSnapshot_def mget_def bindsClient_def exampleSource_def AllowsClient_def split: if_splits)
  have "resolveIngestTenantFromData exampleSnapshot '''' ''svc'' ''crm'' = Inr ''t1''"
    using tenant_resolution_unambiguous [OF a, of "''svc''" "''crm''" "''t1''", unfolded one] by (simp add: exampleSource_def)
  moreover have "resolveIngestTenantFromData exampleSnapshot '''' ''other'' ''crm'' \<noteq> Inr ''t1''"
    using tenant_resolution_unambiguous [OF a, of "''other''" "''crm''" "''t1''", unfolded none] by simp
  ultimately show ?thesis by blast
qed

text \<open>
  C19. The hash of an event binds its place. Two events with one ledger hash have the same digest, the
  same predecessor hash, the same sequence and the same stream, or their hashed texts are a collision
  of SHA-256.
\<close>

theorem event_hash_binds_coordinates:
  assumes "eventHash e = Inr h" and "eventHash e' = Inr h"
  shows "(\<exists>d d'. EventDigest e = Inr d \<and> EventDigest e' = Inr d' \<and> runes d = runes d'
            \<and> runes (ev_PrevHash e) = runes (ev_PrevHash e')
            \<and> ev_Sequence e = ev_Sequence e' \<and> runes (ev_StreamID e) = runes (ev_StreamID e'))
     \<or> (\<exists>a b. hashText e = Inr a \<and> hashText e' = Inr b \<and> collision a b)"
  by (rule eventHash_binds [OF assms])

theorem event_hash_binds_coordinates_witness:
  "\<exists>h. eventHash (exampleEvent\<lparr>ev_SourceDigest := ''d'', ev_Sequence := 4, ev_StreamID := ''s''\<rparr>) = Inr h
     \<and> (\<forall>e'. eventHash e' = Inr h \<and> ev_Sequence e' \<noteq> 4 \<longrightarrow>
          (\<exists>a b. hashText e' = Inr b \<and> collision a b))"
proof -
  let ?e = "exampleEvent\<lparr>ev_SourceDigest := ''d'', ev_Sequence := 4, ev_StreamID := ''s''\<rparr>"
  obtain h where h: "eventHash ?e = Inr h" using eventHash_total [of ?e "''d''"] by (auto simp: EventDigest_def)
  have "\<exists>a b. hashText e' = Inr b \<and> collision a b" if "eventHash e' = Inr h" "ev_Sequence e' \<noteq> 4" for e'
    using event_hash_binds_coordinates [OF h that(1)] that(2) by auto
  then show ?thesis using h by blast
qed

end
