(* ===== verification/Admin.thy ===== *)
theory Admin
  imports Evidence
begin

section \<open>The self-audit trail: service/admin_trail.go, store/trail.go\<close>

text \<open>
  Mutation facts live in the snapshot and are capped there; read facts live in a separate append-only
  trail, modelled both as the in-memory slice and as the bytes of the JSONL file with its lazily
  seeded line counter. The JSON text of a fact is an argument (\<open>enc\<close>, \<open>dec\<close>). A crash may cut the
  file inside its last line.
\<close>

subsection \<open>Mutation facts\<close>

definition DefaultMaxAdminActions :: int where
  "DefaultMaxAdminActions = 10000"

definition DefaultMaxAdminTrailActions :: int where
  "DefaultMaxAdminTrailActions = 100000"

definition resolveAdminTrailConfig :: "Config \<Rightarrow> Config result" where
  "resolveAdminTrailConfig cfg0 =
     (let cfg1 = (if cf_MaxAdminActions cfg0 \<le> 0 then cfg0\<lparr>cf_MaxAdminActions := DefaultMaxAdminActions\<rparr> else cfg0);
          cfg = (if cf_MaxAdminTrailActions cfg1 < 0 then cfg1\<lparr>cf_MaxAdminTrailActions := DefaultMaxAdminTrailActions\<rparr> else cfg1)
      in if cf_MaxAdminTrailActions cfg > 0 \<and> cf_MaxAdminTrailActions cfg < cf_MaxAdminActions cfg
         then Inl (Err ErrInvalid ''MaxAdminTrailActions must be 0 (unbounded) or at least MaxAdminActions'')
         else Inr cfg)"

definition adminAction :: "string \<Rightarrow> time \<Rightarrow> string \<Rightarrow> string \<Rightarrow> string \<Rightarrow> string \<Rightarrow> string \<Rightarrow> string \<Rightarrow> AdminAction" where
  "adminAction newID now tenantID actor action targetType targetID detail =
     \<lparr>aa_ID = newID, aa_TenantID = tenantID, aa_Actor = actor, aa_Action = action, aa_TargetType = targetType,
       aa_TargetID = targetID, aa_Detail = detail, aa_CreatedAt = now\<rparr>"

definition capNewest :: "int \<Rightarrow> 'a list \<Rightarrow> 'a list" where
  "capNewest n xs = (if n > 0 \<and> int (length xs) > n then drop (length xs - nat n) xs else xs)"

definition appendAdminAction :: "Config \<Rightarrow> AdminAction \<Rightarrow> Snapshot \<Rightarrow> Snapshot" where
  "appendAdminAction cfg action data =
     data\<lparr>sn_AdminActions := capNewest (cf_MaxAdminActions cfg) (sn_AdminActions data @ [action])\<rparr>"

subsection \<open>The in-memory trail\<close>

definition trailWatermark :: "int \<Rightarrow> int" where
  "trailWatermark trailCap =
     (if trailCap \<le> 0 then 0
      else let headroom = (if trailCap div 2 < 1 then 1 else trailCap div 2)
           in if trailCap - headroom \<ge> 1 then trailCap - headroom else 1)"

definition trailHeadroom :: "int \<Rightarrow> int" where
  "trailHeadroom trailCap = (if trailCap \<le> 0 then 0 else trailCap - trailWatermark trailCap)"

definition appendMemoryFact :: "int \<Rightarrow> AdminAction \<Rightarrow> AdminAction list \<Rightarrow> AdminAction list" where
  "appendMemoryFact trailCap entry trail =
     (let trail1 = trail @ [entry] in
      if trailCap > 0 \<and> int (length trail1) > trailCap
      then drop (length trail1 - nat (trailWatermark trailCap)) trail1 else trail1)"

subsection \<open>The JSONL file\<close>

record TrailFile =
  tf_Contents :: string
  tf_Count :: int
  tf_Counted :: bool

definition newline :: char where
  "newline = CHR 0x0A"

definition countJSONLLines :: "string \<Rightarrow> int" where
  "countJSONLLines contents = int (length (filter (\<lambda>c. c = newline) contents))"

text \<open>The complete lines of the file; what follows the last newline is dropped.\<close>

fun completeLines :: "string \<Rightarrow> string \<Rightarrow> string list" where
  "completeLines line [] = []"
| "completeLines line (c # cs) = (if c = newline then line # completeLines [] cs else completeLines (line @ [c]) cs)"

fun decodeLines :: "(string \<Rightarrow> AdminAction result) \<Rightarrow> string list \<Rightarrow> AdminAction list result" where
  "decodeLines dec [] = Inr []"
| "decodeLines dec (line # ls) =
     (if line = [] then decodeLines dec ls
      else case dec line of
        Inl _ \<Rightarrow> Inl (Err ErrOther ''corrupt admin trail line'')
      | Inr entry \<Rightarrow> rbind (decodeLines dec ls) (\<lambda>facts. Inr (entry # facts)))"

definition readTrailFileLocked :: "(string \<Rightarrow> AdminAction result) \<Rightarrow> TrailFile \<Rightarrow> AdminAction list result" where
  "readTrailFileLocked dec f = decodeLines dec (completeLines [] (tf_Contents f))"

definition ReadAdminTrail :: "(string \<Rightarrow> AdminAction result) \<Rightarrow> TrailFile \<Rightarrow> AdminAction list result" where
  "ReadAdminTrail dec f = rbind (readTrailFileLocked dec f) (\<lambda>facts. Inr (rev facts))"

definition ensureTrailFile :: "TrailFile \<Rightarrow> TrailFile" where
  "ensureTrailFile f =
     (if tf_Counted f then f else f\<lparr>tf_Count := countJSONLLines (tf_Contents f), tf_Counted := True\<rparr>)"

definition compactTrail :: "(AdminAction \<Rightarrow> string) \<Rightarrow> (string \<Rightarrow> AdminAction result) \<Rightarrow> int \<Rightarrow> TrailFile \<Rightarrow> TrailFile result" where
  "compactTrail enc dec keepCount f =
     rbind (readTrailFileLocked dec f) (\<lambda>facts.
       if int (length facts) \<le> keepCount then Inr (f\<lparr>tf_Count := int (length facts)\<rparr>)
       else
         let keep = drop (length facts - nat keepCount) facts
         in Inr (f\<lparr>tf_Contents := concat (map (\<lambda>entry. enc entry @ [newline]) keep), tf_Count := int (length keep)\<rparr>))"

definition appendFileFact :: "(AdminAction \<Rightarrow> string) \<Rightarrow> (string \<Rightarrow> AdminAction result) \<Rightarrow> int \<Rightarrow> AdminAction \<Rightarrow> TrailFile
     \<Rightarrow> error option \<times> TrailFile" where
  "appendFileFact enc dec trailCap entry f0 =
     (let f1 = ensureTrailFile f0;
          f2 = f1\<lparr>tf_Contents := tf_Contents f1 @ enc entry @ [newline], tf_Count := tf_Count f1 + 1\<rparr>
      in if trailCap > 0 \<and> tf_Count f2 > trailCap
         then (case compactTrail enc dec (trailWatermark trailCap) f2 of
                 Inl err \<Rightarrow> (Some err, f2)
               | Inr f3 \<Rightarrow> (None, f3))
         else (None, f2))"

text \<open>A crash during an append: the process restarts over the first \<open>n\<close> bytes.\<close>

definition crashTrail :: "nat \<Rightarrow> TrailFile \<Rightarrow> TrailFile" where
  "crashTrail n f = \<lparr>tf_Contents = take n (tf_Contents f), tf_Count = 0, tf_Counted = False\<rparr>"

definition recordReadAction :: "Config \<Rightarrow> string \<Rightarrow> time \<Rightarrow> string \<Rightarrow> string \<Rightarrow> string \<Rightarrow> string \<Rightarrow> string \<Rightarrow> string
     \<Rightarrow> AdminAction list \<Rightarrow> AdminAction list" where
  "recordReadAction cfg newID now tenantID actor action targetType targetID detail trail =
     (if actor = '''' then trail
      else appendMemoryFact (cf_MaxAdminTrailActions cfg) (adminAction newID now tenantID actor action targetType targetID detail) trail)"

subsection \<open>The merged view\<close>

definition adminMatches :: "string \<Rightarrow> bool \<Rightarrow> AdminAction \<Rightarrow> bool" where
  "adminMatches tenantID platform a \<longleftrightarrow> (platform \<and> tenantID = '''') \<or> aa_TenantID a = tenantID"

text \<open>
  The walk: both lists newest first, the snapshot's facts taken from their end. It stops as soon as
  the limit is reached.
\<close>

fun drainActions :: "(AdminAction \<Rightarrow> bool) \<Rightarrow> nat \<Rightarrow> AdminAction list \<Rightarrow> AdminAction list \<Rightarrow> bool \<times> AdminAction list" where
  "drainActions m limit [] result = (False, result)"
| "drainActions m limit (x # xs) result =
     (if m x then (if length (result @ [x]) = limit then (True, result @ [x]) else drainActions m limit xs (result @ [x]))
      else drainActions m limit xs result)"

fun mergeLoop :: "(AdminAction \<Rightarrow> bool) \<Rightarrow> nat \<Rightarrow> AdminAction list \<Rightarrow> AdminAction list \<Rightarrow> AdminAction list \<Rightarrow> AdminAction list" where
  "mergeLoop m limit (s # ss) (t # ts) result =
     (if \<not> aa_CreatedAt t < aa_CreatedAt s then
        (if m t then (if length (result @ [t]) = limit then result @ [t] else mergeLoop m limit (s # ss) ts (result @ [t]))
         else mergeLoop m limit (s # ss) ts result)
      else
        (if m s then (if length (result @ [s]) = limit then result @ [s] else mergeLoop m limit ss (t # ts) (result @ [s]))
         else mergeLoop m limit ss (t # ts) result))"
| "mergeLoop m limit ss [] result = snd (drainActions m limit ss result)"
| "mergeLoop m limit [] (t # ts) result = snd (drainActions m limit (t # ts) result)"

definition mergeAdminActions :: "AdminAction list \<Rightarrow> AdminAction list \<Rightarrow> string \<Rightarrow> bool \<Rightarrow> nat \<Rightarrow> AdminAction list" where
  "mergeAdminActions snapshot trail tenantID platform limit =
     mergeLoop (adminMatches tenantID platform) limit (rev snapshot) trail []"

definition ListAdminActions :: "string \<Rightarrow> bool \<Rightarrow> int \<Rightarrow> AdminAction list result \<Rightarrow> Snapshot \<Rightarrow> AdminAction list result" where
  "ListAdminActions tenantID platform limit0 trailRead data =
     (if tenantID = '''' \<and> \<not> platform then Inl (Err ErrInvalid ''tenant_id is required'')
      else guardE (ifPresent ValidTenantID tenantID)
        (rbind trailRead (\<lambda>trail.
           let limit = nat (if limit0 \<le> 0 \<or> limit0 > 100 then 100 else limit0) in
           if trail = [] then Inr (take limit (filter (adminMatches tenantID platform) (rev (sn_AdminActions data))))
           else Inr (mergeAdminActions (sn_AdminActions data) trail tenantID platform limit))))"

subsection \<open>The merged view is the newest matching facts\<close>

text \<open>The reference: interleave by time, ties to the trail, then filter, then cut.\<close>

fun mergeNewest :: "AdminAction list \<Rightarrow> AdminAction list \<Rightarrow> AdminAction list" where
  "mergeNewest (s # ss) (t # ts) =
     (if \<not> aa_CreatedAt t < aa_CreatedAt s then t # mergeNewest (s # ss) ts else s # mergeNewest ss (t # ts))"
| "mergeNewest ss [] = ss"
| "mergeNewest [] (t # ts) = t # ts"

definition newestFirst :: "AdminAction list \<Rightarrow> bool" where
  "newestFirst xs \<longleftrightarrow> sorted_wrt (\<lambda>a b. aa_CreatedAt b \<le> aa_CreatedAt a) xs"

lemma drainActions_spec:
  "length result < limit \<Longrightarrow> snd (drainActions m limit xs result) = result @ take (limit - length result) (filter m xs)"
proof (induction xs arbitrary: result)
  case (Cons x xs)
  show ?case
  proof (cases "m x")
    case True
    show ?thesis
    proof (cases "length (result @ [x]) = limit")
      case True
      then have "limit - length result = 1" by simp
      then show ?thesis using True \<open>m x\<close> by simp
    next
      case False
      then have l: "length (result @ [x]) < limit" "limit - length result = Suc (limit - length (result @ [x]))"
        using Cons.prems by simp_all
      show ?thesis using Cons.IH [OF l(1)] False \<open>m x\<close> l(2) by simp
    qed
  qed (use Cons in simp)
qed simp

lemma mergeLoop_spec:
  "length result < limit \<Longrightarrow>
    mergeLoop m limit ss ts result = result @ take (limit - length result) (filter m (mergeNewest ss ts))"
proof (induction m limit ss ts result rule: mergeLoop.induct)
  case (1 m limit s ss t ts result)
  have step: "limit - length result = Suc (limit - length (result @ [x]))"
    if "length (result @ [x]) \<noteq> limit" for x using that 1(5) by simp
  have stop: "limit - length result = Suc 0" if "length (result @ [x]) = limit" for x :: AdminAction using that by simp
  show ?case
    using 1 step stop by (auto simp: Suc_lessI)
qed (simp_all add: drainActions_spec del: drainActions.simps)

lemma mset_mergeNewest: "mset (mergeNewest ss ts) = mset ss + mset ts"
  by (induction ss ts rule: mergeNewest.induct) auto

lemma newestFirst_merge: "newestFirst ss \<Longrightarrow> newestFirst ts \<Longrightarrow> newestFirst (mergeNewest ss ts)"
proof (induction ss ts rule: mergeNewest.induct)
  case (1 s ss t ts)
  have set: "set (mergeNewest xs ys) = set xs \<union> set ys" for xs ys
    using mset_mergeNewest [of xs ys] by (metis set_mset_mset set_mset_union)
  show ?case using 1 by (auto simp: newestFirst_def set intro: order_trans)
qed auto

subsection \<open>The bounds of the trail\<close>

lemma trailWatermark_range:
  assumes "0 < trailCap"
  shows "1 \<le> trailWatermark trailCap \<and> trailWatermark trailCap \<le> trailCap"
  using assms by (auto simp: trailWatermark_def Let_def)

lemma appendMemoryFact_length:
  assumes "0 < trailCap" "int (length trail) \<le> trailCap"
  shows "int (length (appendMemoryFact trailCap entry trail))
    = (if int (length trail) < trailCap then int (length trail) + 1 else trailWatermark trailCap)"
  using assms trailWatermark_range [OF assms(1)] by (auto simp: appendMemoryFact_def Let_def)

lemma appendMemoryFact_newest:
  assumes "0 < trailCap"
  shows "\<exists>n. appendMemoryFact trailCap entry trail = drop n trail @ [entry]"
proof (cases "int (length trail) + 1 > trailCap")
  case True
  let ?n = "length trail + 1 - nat (trailWatermark trailCap)"
  have "?n \<le> length trail" using trailWatermark_range [OF assms] by auto
  then show ?thesis using True assms by (auto simp: appendMemoryFact_def Let_def intro!: exI [of _ ?n])
next
  case False
  then show ?thesis by (auto simp: appendMemoryFact_def Let_def intro!: exI [of _ 0])
qed

subsection \<open>The file holds what the slice holds\<close>

text \<open>What the trail relies on of \<open>encoding/json\<close>: each of the facts \<open>A\<close> decodes to itself, from one non-empty line.\<close>

definition trailCodec :: "(AdminAction \<Rightarrow> string) \<Rightarrow> (string \<Rightarrow> AdminAction result) \<Rightarrow> AdminAction set \<Rightarrow> bool" where
  "trailCodec enc dec A \<longleftrightarrow> (\<forall>a \<in> A. dec (enc a) = Inr a \<and> newline \<notin> set (enc a) \<and> enc a \<noteq> [])"

definition trailText :: "(AdminAction \<Rightarrow> string) \<Rightarrow> AdminAction list \<Rightarrow> string" where
  "trailText enc xs = concat (map (\<lambda>a. enc a @ [newline]) xs)"

definition holdsTrail :: "(AdminAction \<Rightarrow> string) \<Rightarrow> AdminAction list \<Rightarrow> TrailFile \<Rightarrow> bool" where
  "holdsTrail enc xs f \<longleftrightarrow> tf_Contents f = trailText enc xs \<and> (tf_Counted f \<longrightarrow> tf_Count f = int (length xs))"

lemma completeLines_line:
  "newline \<notin> set cs \<Longrightarrow> completeLines line (cs @ newline # rest) = (line @ cs) # completeLines [] rest"
  by (induction cs arbitrary: line) auto

lemma completeLines_partial: "newline \<notin> set cs \<Longrightarrow> completeLines line cs = []"
  by (induction cs arbitrary: line) auto

lemma completeLines_text:
  "trailCodec enc dec (set xs) \<Longrightarrow> completeLines [] (trailText enc xs @ rest) = map enc xs @ completeLines [] rest"
proof (induction xs)
  case (Cons x xs)
  then have "newline \<notin> set (enc x)" "trailCodec enc dec (set xs)" by (simp_all add: trailCodec_def)
  then show ?case using Cons by (simp add: trailText_def completeLines_line)
qed (simp add: trailText_def)

lemma decodeLines_enc:
  "trailCodec enc dec (set xs) \<Longrightarrow> decodeLines dec (map enc xs @ ls) = rbind (decodeLines dec ls) (\<lambda>ys. Inr (xs @ ys))"
  by (induction xs) (auto simp: trailCodec_def rbind_def split: sum.splits)

lemma readTrail_text:
  assumes "trailCodec enc dec (set xs)" "tf_Contents f = trailText enc xs @ rest"
  shows "readTrailFileLocked dec f = rbind (decodeLines dec (completeLines [] rest)) (\<lambda>ys. Inr (xs @ ys))"
  using assms by (simp add: readTrailFileLocked_def completeLines_text [OF assms(1)] decodeLines_enc)

lemma readTrail_holds: "trailCodec enc dec (set xs) \<Longrightarrow> tf_Contents f = trailText enc xs \<Longrightarrow> readTrailFileLocked dec f = Inr xs"
  using readTrail_text [of enc dec xs f "[]"] by simp

lemma count_trailText: "trailCodec enc dec (set xs) \<Longrightarrow> countJSONLLines (trailText enc xs) = int (length xs)"
proof (induction xs)
  case (Cons x xs)
  then have "filter (\<lambda>c. c = newline) (enc x) = []" "trailCodec enc dec (set xs)"
    by (auto simp: trailCodec_def filter_empty_conv)
  then show ?case using Cons by (simp add: trailText_def countJSONLLines_def)
qed (simp add: trailText_def countJSONLLines_def)

lemma trailCodec_subset: "trailCodec enc dec A \<Longrightarrow> B \<subseteq> A \<Longrightarrow> trailCodec enc dec B"
  by (auto simp: trailCodec_def)

lemma append_refines:
  assumes codec: "trailCodec enc dec (insert a (set xs))" and holds: "holdsTrail enc xs f"
    and cap: "trailCap \<le> 0 \<or> int (length xs) \<le> trailCap"
  shows "\<exists>f'. appendFileFact enc dec trailCap a f = (None, f') \<and> holdsTrail enc (appendMemoryFact trailCap a xs) f'"
proof -
  let ?f1 = "ensureTrailFile f"
  let ?f2 = "?f1\<lparr>tf_Contents := tf_Contents ?f1 @ enc a @ [newline], tf_Count := tf_Count ?f1 + 1\<rparr>"
  have c: "trailCodec enc dec (set xs)" "trailCodec enc dec (set (xs @ [a]))"
    using codec by (auto elim: trailCodec_subset)
  have f1: "tf_Contents ?f1 = trailText enc xs" "tf_Count ?f1 = int (length xs)" "tf_Counted ?f1"
    using holds count_trailText [OF c(1)] by (auto simp: ensureTrailFile_def holdsTrail_def)
  have f2: "tf_Contents ?f2 = trailText enc (xs @ [a])" using f1(1) by (simp add: trailText_def)
  note rd = readTrail_holds [OF c(2) f2]
  show ?thesis
  proof (cases "trailCap > 0 \<and> int (length xs) + 1 > trailCap")
    case True
    let ?keep = "drop (length (xs @ [a]) - nat (trailWatermark trailCap)) (xs @ [a])"
    have w: "1 \<le> trailWatermark trailCap" "trailWatermark trailCap \<le> trailCap" using trailWatermark_range True by blast+
    have more: "\<not> int (length (xs @ [a])) \<le> trailWatermark trailCap" using True w by simp
    have "compactTrail enc dec (trailWatermark trailCap) ?f2
        = Inr (?f2\<lparr>tf_Contents := trailText enc ?keep, tf_Count := int (length ?keep)\<rparr>)"
      unfolding compactTrail_def rd using more by (simp add: trailText_def Let_def)
    moreover have "appendMemoryFact trailCap a xs = ?keep" using True by (simp add: appendMemoryFact_def Let_def)
    ultimately show ?thesis
      using True f1(2) by (simp add: appendFileFact_def Let_def holdsTrail_def)
  next
    case False
    then have "appendMemoryFact trailCap a xs = xs @ [a]" by (auto simp: appendMemoryFact_def Let_def)
    then show ?thesis
      using False f1 f2 by (auto simp: appendFileFact_def Let_def holdsTrail_def)
  qed
qed

fun appendFile :: "(AdminAction \<Rightarrow> string) \<Rightarrow> (string \<Rightarrow> AdminAction result) \<Rightarrow> int \<Rightarrow> AdminAction list \<Rightarrow> TrailFile \<Rightarrow> TrailFile" where
  "appendFile enc dec trailCap [] f = f"
| "appendFile enc dec trailCap (a # as) f = appendFile enc dec trailCap as (snd (appendFileFact enc dec trailCap a f))"

definition appendMemory :: "int \<Rightarrow> AdminAction list \<Rightarrow> AdminAction list \<Rightarrow> AdminAction list" where
  "appendMemory trailCap as xs = fold (appendMemoryFact trailCap) as xs"

lemma appendMemoryFact_bound:
  assumes "trailCap \<le> 0 \<or> int (length xs) \<le> trailCap"
  shows "trailCap \<le> 0 \<or> int (length (appendMemoryFact trailCap a xs)) \<le> trailCap"
  using assms appendMemoryFact_length [of trailCap xs a] trailWatermark_range [of trailCap]
  by (cases "trailCap \<le> 0") (auto split: if_splits)

lemma appendMemoryFact_set: "set (appendMemoryFact trailCap a xs) \<subseteq> insert a (set xs)"
  by (auto simp: appendMemoryFact_def Let_def dest: in_set_dropD)

lemma appendFile_refines:
  "trailCodec enc dec (set xs \<union> set as) \<Longrightarrow> holdsTrail enc xs f \<Longrightarrow> trailCap \<le> 0 \<or> int (length xs) \<le> trailCap
    \<Longrightarrow> holdsTrail enc (appendMemory trailCap as xs) (appendFile enc dec trailCap as f)"
proof (induction as arbitrary: xs f)
  case (Cons a as)
  have "trailCodec enc dec (insert a (set xs))" by (rule trailCodec_subset [OF Cons.prems(1)]) auto
  then obtain f' where f': "appendFileFact enc dec trailCap a f = (None, f')" "holdsTrail enc (appendMemoryFact trailCap a xs) f'"
    using append_refines Cons.prems(2,3) by blast
  have "trailCodec enc dec (set (appendMemoryFact trailCap a xs) \<union> set as)"
    by (rule trailCodec_subset [OF Cons.prems(1)]) (use appendMemoryFact_set [of trailCap a xs] in auto)
  from Cons.IH [OF this f'(2) appendMemoryFact_bound [OF Cons.prems(3)]] f'(1) show ?case
    by (simp add: appendMemory_def)
qed (simp add: appendMemory_def)

lemma appendMemory_set: "set (appendMemory trailCap as xs) \<subseteq> set xs \<union> set as"
proof (induction as arbitrary: xs)
  case (Cons a as)
  then show ?case using appendMemoryFact_set [of trailCap a xs] by (fastforce simp: appendMemory_def)
qed (simp add: appendMemory_def)

subsection \<open>Properties\<close>

text \<open>
  C15. The trail file implements the bounded slice. Whatever facts are appended, from an empty trail or
  after a restart that has to count the lines again, reading the file gives, newest first, exactly
  the facts of the in-memory trail with the same cap: the line counter, the compaction trigger and
  the watermark of the two agree.
\<close>

theorem trail_file_refines_memory:
  assumes "trailCodec enc dec (set xs \<union> set as)" "holdsTrail enc xs f" "trailCap \<le> 0 \<or> int (length xs) \<le> trailCap"
  shows "ReadAdminTrail dec (appendFile enc dec trailCap as f) = Inr (rev (appendMemory trailCap as xs))"
proof -
  have "trailCodec enc dec (set (appendMemory trailCap as xs))"
    by (rule trailCodec_subset [OF assms(1) appendMemory_set])
  then show ?thesis
    using appendFile_refines [OF assms] readTrail_holds by (simp add: ReadAdminTrail_def holdsTrail_def)
qed

definition exampleFact :: "string \<Rightarrow> AdminAction" where
  "exampleFact i = adminAction i 5 ''t1'' ''alice'' ''audit.event.read'' ''event'' ''e1'' ''''"

theorem trail_file_refines_memory_witness:
  "ReadAdminTrail (\<lambda>line. Inr (exampleFact line)) (appendFile aa_ID (\<lambda>line. Inr (exampleFact line)) 3
      (map exampleFact [''a'', ''b'', ''c'', ''d'', ''e'']) \<lparr>tf_Contents = '''', tf_Count = 0, tf_Counted = False\<rparr>)
    = Inr (map exampleFact [''e'', ''d'', ''c''])"
proof -
  have c: "trailCodec aa_ID (\<lambda>line. Inr (exampleFact line))
      (set [] \<union> set (map exampleFact [''a'', ''b'', ''c'', ''d'', ''e'']))"
    by (auto simp: trailCodec_def exampleFact_def adminAction_def newline_def)
  have h: "holdsTrail aa_ID [] \<lparr>tf_Contents = '''', tf_Count = 0, tf_Counted = False\<rparr>"
    by (simp add: holdsTrail_def trailText_def)
  have "appendMemory 3 (map exampleFact [''a'', ''b'', ''c'', ''d'', ''e'']) [] = map exampleFact [''c'', ''d'', ''e'']"
    by (simp add: appendMemory_def appendMemoryFact_def trailWatermark_def)
  then show ?thesis using trail_file_refines_memory [OF c h, of 3] by simp
qed

text \<open>
  C37. A cut trail reads, until the next append. When a crash cuts the file inside its last line, reading
  gives the facts before it. The restarted process then appends behind the partial line: the append
  reports success, but the two texts now share one complete line, and where JSON decoding rejects
  their concatenation every later read of the trail fails as corrupt.
\<close>

theorem append_after_cut_corrupts_trail:
  assumes "trailCodec enc dec (insert b (set xs))" "newline \<notin> set partial"
    and "dec (partial @ enc b) = Inl err" "trailCap \<le> 0 \<or> int (length xs) < trailCap"
    and "f = \<lparr>tf_Contents = trailText enc xs @ partial, tf_Count = 0, tf_Counted = False\<rparr>"
  shows "ReadAdminTrail dec f = Inr (rev xs)
    \<and> fst (appendFileFact enc dec trailCap b f) = None
    \<and> ReadAdminTrail dec (snd (appendFileFact enc dec trailCap b f)) = Inl (Err ErrOther ''corrupt admin trail line'')"
proof -
  have c: "trailCodec enc dec (set xs)" by (rule trailCodec_subset [OF assms(1)]) auto
  have nl: "newline \<notin> set (partial @ enc b)" "partial @ enc b \<noteq> []" using assms(1,2) by (auto simp: trailCodec_def)
  have "filter (\<lambda>c. c = newline) partial = []" using assms(2) by (auto simp: filter_empty_conv)
  then have cnt: "countJSONLLines (trailText enc xs @ partial) = int (length xs)"
    using count_trailText [OF c] by (simp add: countJSONLLines_def)
  have app: "appendFileFact enc dec trailCap b f
      = (None, \<lparr>tf_Contents = trailText enc xs @ (partial @ enc b) @ [newline], tf_Count = int (length xs) + 1, tf_Counted = True\<rparr>)"
    using assms(4) cnt by (auto simp: assms(5) appendFileFact_def ensureTrailFile_def Let_def)
  have line: "completeLines [] ((partial @ enc b) @ [newline]) = [partial @ enc b]"
    using completeLines_line [OF nl(1), of "[]" "[]"] by simp
  have "readTrailFileLocked dec (snd (appendFileFact enc dec trailCap b f)) = Inl (Err ErrOther ''corrupt admin trail line'')"
    using readTrail_text [OF c, of "snd (appendFileFact enc dec trailCap b f)" "(partial @ enc b) @ [newline]"] nl(2) assms(3)
    unfolding line by (simp add: app)
  moreover have "readTrailFileLocked dec f = Inr xs"
    using readTrail_text [OF c, of f partial] completeLines_partial [OF assms(2), of "[]"] by (simp add: assms(5))
  ultimately show ?thesis by (simp add: ReadAdminTrail_def app)
qed

theorem append_after_cut_corrupts_trail_witness:
  "ReadAdminTrail (\<lambda>line. if length line = 2 then Inr (exampleFact line) else Inl (Err ErrOther ''invalid character''))
     (snd (appendFileFact aa_ID (\<lambda>line. if length line = 2 then Inr (exampleFact line) else Inl (Err ErrOther ''invalid character''))
        0 (exampleFact ''cc'') \<lparr>tf_Contents = trailText aa_ID [exampleFact ''aa''] @ ''b'', tf_Count = 0, tf_Counted = False\<rparr>))
   = Inl (Err ErrOther ''corrupt admin trail line'')"
proof -
  let ?dec = "\<lambda>line. if length line = 2 then Inr (exampleFact line) else Inl (Err ErrOther ''invalid character'')"
  have c: "trailCodec aa_ID ?dec (insert (exampleFact ''cc'') (set [exampleFact ''aa'']))"
    by (auto simp: trailCodec_def exampleFact_def adminAction_def newline_def)
  show ?thesis
    using append_after_cut_corrupts_trail [OF c, of "''b''" "Err ErrOther ''invalid character''" 0, OF _ _ _ refl]
    by (simp add: exampleFact_def adminAction_def newline_def)
qed

text \<open>
  C25. The merged listing is the newest matching facts. The early-stopping walk over mutation facts and
  read facts returns the first \<open>limit\<close> matches of one newest-first arrangement of all of them: the
  filter applies before the limit, no fact is skipped or repeated, and the order is by time.
\<close>

theorem admin_listing_newest_first:
  assumes "0 < limit" "newestFirst (rev snapshot)" "newestFirst trail"
  shows "\<exists>all. mset all = mset snapshot + mset trail \<and> newestFirst all
    \<and> mergeAdminActions snapshot trail tenantID platform limit = take limit (filter (adminMatches tenantID platform) all)"
  using mergeLoop_spec [of "[]" limit "adminMatches tenantID platform" "rev snapshot" trail] assms
    newestFirst_merge [OF assms(2,3)] mset_mergeNewest [of "rev snapshot" trail]
  by (auto simp: mergeAdminActions_def intro!: exI [of _ "mergeNewest (rev snapshot) trail"])

theorem admin_listing_newest_first_witness:
  "\<exists>all. mset all = mset [exampleFact ''a'', exampleFact ''b''] + mset [exampleFact ''c''] \<and> newestFirst all
    \<and> mergeAdminActions [exampleFact ''a'', exampleFact ''b''] [exampleFact ''c''] ''t1'' False 2
      = take 2 (filter (adminMatches ''t1'' False) all)"
  by (rule admin_listing_newest_first) (simp_all add: newestFirst_def exampleFact_def adminAction_def)

end
