(* ===== verification/Publication.thy ===== *)
theory Publication
  imports Evidence
begin

section \<open>Post-ledger publication: store/publication.go, service/ledgered.go, ledgered_gate.go, ledgered_intent.go\<close>

text \<open>
  The durable outbox of publication intents, the identity-bound confirmations that allow an intent to
  be removed, the request path \<open>publishLedgered\<close>, the background round \<open>FlushLedgeredOutbox\<close>, and the
  per-event gate between them. The broker is outside the repository: \<open>accept\<close> says which
  publications it acknowledges, \<open>dl_Broker\<close> is the list of those it did acknowledge. The store
  operations that may fail take their failure from \<open>DeliveryFaults\<close>.
\<close>

subsection \<open>Confirmations (store/publication.go)\<close>

record publicationConfirmation =
  pc_TenantID :: string
  pc_EventID :: string
  pc_StreamID :: string
  pc_Sequence :: int
  pc_Hash :: string
  pc_ConfirmedAt :: time

definition publicationFromReceipt :: "EventReceipt \<Rightarrow> publicationConfirmation" where
  "publicationFromReceipt r =
     \<lparr>pc_TenantID = rc_TenantID r, pc_EventID = rc_EventID r, pc_StreamID = rc_StreamID r,
       pc_Sequence = rc_Sequence r, pc_Hash = rc_Hash r, pc_ConfirmedAt = 0\<rparr>"

definition pc_valid :: "publicationConfirmation \<Rightarrow> error option" where
  "pc_valid p =
     firstErr
       [if pc_TenantID p = '''' \<or> pc_EventID p = '''' \<or> pc_StreamID p = '''' \<or> pc_Sequence p \<le> 0 \<or> pc_Hash p = ''''
        then Some (Err ErrInvalid ''publication requires ledger coordinates'') else None,
        ValidTenantID (pc_TenantID p),
        ValidKeyComponent (pc_EventID p),
        ValidKeyComponent (pc_StreamID p)]"

definition pc_matches :: "publicationConfirmation \<Rightarrow> publicationConfirmation \<Rightarrow> bool" where
  "pc_matches p other \<longleftrightarrow>
     pc_TenantID p = pc_TenantID other \<and> pc_EventID p = pc_EventID other \<and> pc_StreamID p = pc_StreamID other
     \<and> pc_Sequence p = pc_Sequence other \<and> pc_Hash p = pc_Hash other"

definition ErrPublicationConflict :: error where
  "ErrPublicationConflict = Err ErrOther ''publication confirmation conflict''"

definition receiptFromEvent :: "Event \<Rightarrow> EventReceipt" where
  "receiptFromEvent e =
     zeroReceipt\<lparr>rc_EventID := ev_EventID e, rc_TenantID := ev_TenantID e, rc_IdempotencyKey := ev_IdempotencyKey e,
       rc_Status := StatusLedgered, rc_AcceptedAt := ev_ReceivedAt e, rc_LedgeredAt := ev_ReceivedAt e,
       rc_StreamID := ev_StreamID e, rc_Sequence := ev_Sequence e, rc_Hash := ev_Hash e\<rparr>"

text \<open>The durable delivery state: the outbox of the control document and the confirmation catalogue.\<close>

record Delivery =
  dl_Outbox :: "Event gomap"
  dl_Confirmed :: "publicationConfirmation gomap"
  dl_Broker :: "Event list"

record DeliveryFaults =
  df_Lookup :: "error option"
  df_Confirm :: "error option"
  df_Clear :: "error option"

definition publicationConfirmed :: "publicationConfirmation gomap \<Rightarrow> EventReceipt \<Rightarrow> bool result" where
  "publicationConfirmed confirmed r =
     (let want = publicationFromReceipt r in
      case pc_valid want of
        Some e \<Rightarrow> Inl e
      | None \<Rightarrow>
          (case mget confirmed (EventKey (pc_TenantID want) (pc_EventID want)) of
             None \<Rightarrow> Inr False
           | Some got \<Rightarrow> if pc_matches got want then Inr True else Inl ErrPublicationConflict))"

definition ConfirmPublication :: "time \<Rightarrow> Event \<Rightarrow> publicationConfirmation gomap
     \<Rightarrow> error option \<times> publicationConfirmation gomap" where
  "ConfirmPublication now e confirmed =
     (let want = publicationFromReceipt (receiptFromEvent e); key = EventKey (pc_TenantID want) (pc_EventID want) in
      case pc_valid want of
        Some err \<Rightarrow> (Some err, confirmed)
      | None \<Rightarrow>
          (case mget confirmed key of
             Some got \<Rightarrow> (if pc_matches got want then None else Some ErrPublicationConflict, confirmed)
           | None \<Rightarrow> (None, mput confirmed key (want\<lparr>pc_ConfirmedAt := now\<rparr>))))"

subsection \<open>Publishing one event (service/ledgered.go)\<close>

definition publishLedgeredNow :: "(Event \<Rightarrow> bool) \<Rightarrow> Event \<Rightarrow> Delivery \<Rightarrow> bool \<times> Delivery" where
  "publishLedgeredNow accept e d =
     (case CloneEvent e of
        Inl _ \<Rightarrow> (False, d)
      | Inr published \<Rightarrow>
          if accept published then (True, d\<lparr>dl_Broker := dl_Broker d @ [published]\<rparr>) else (False, d))"

definition clearLedgeredIntent :: "DeliveryFaults \<Rightarrow> Event \<Rightarrow> Delivery \<Rightarrow> error option \<times> Delivery" where
  "clearLedgeredIntent io e d =
     (case df_Clear io of
        Some err \<Rightarrow> (Some err, d)
      | None \<Rightarrow> (None, d\<lparr>dl_Outbox := mdel (dl_Outbox d) (EventKey (ev_TenantID e) (ev_EventID e))\<rparr>))"

definition ackLedgered :: "DeliveryFaults \<Rightarrow> time \<Rightarrow> Event \<Rightarrow> Delivery \<Rightarrow> error option \<times> Delivery" where
  "ackLedgered io now e d =
     (case df_Confirm io of
        Some err \<Rightarrow> (Some err, d)
      | None \<Rightarrow>
          (case ConfirmPublication now e (dl_Confirmed d) of
             (Some err, confirmed) \<Rightarrow> (Some err, d\<lparr>dl_Confirmed := confirmed\<rparr>)
           | (None, confirmed) \<Rightarrow> clearLedgeredIntent io e (d\<lparr>dl_Confirmed := confirmed\<rparr>)))"

text \<open>The request path: \<open>busy\<close> when another publisher owns the event's gate.\<close>

definition publishLedgered :: "Config \<Rightarrow> (Event \<Rightarrow> bool) \<Rightarrow> DeliveryFaults \<Rightarrow> time \<Rightarrow> bool \<Rightarrow> Event \<Rightarrow> Delivery \<Rightarrow> Delivery" where
  "publishLedgered cfg accept io now busy e d =
     (if \<not> cf_LedgeredPublisher cfg then d
      else if busy then d
      else case publishLedgeredNow accept e d of
        (False, d1) \<Rightarrow> d1
      | (True, d1) \<Rightarrow> snd (ackLedgered io now e d1))"

datatype ledgeredKeyOutcome = ledgeredKeySkipped | ledgeredKeyPublished | ledgeredKeyFailed

text \<open>
  One key of a flush round. \<open>stale\<close> is the answer of the round's revalidation: the request path
  acknowledged something since the round's snapshot, and the key is no longer in the outbox.
\<close>

definition flushLedgeredKey :: "(Event \<Rightarrow> bool) \<Rightarrow> DeliveryFaults \<Rightarrow> time \<Rightarrow> bool \<Rightarrow> bool \<Rightarrow> Event \<Rightarrow> Delivery
     \<Rightarrow> (ledgeredKeyOutcome \<times> error option) \<times> Delivery" where
  "flushLedgeredKey accept io now busy stale e d =
     (if busy then ((ledgeredKeySkipped, None), d)
      else if stale then ((ledgeredKeySkipped, None), d)
      else case (case df_Lookup io of Some err \<Rightarrow> Inl err
                 | None \<Rightarrow> publicationConfirmed (dl_Confirmed d) (receiptFromEvent e)) of
        Inl err \<Rightarrow> ((ledgeredKeyFailed, Some err), d)
      | Inr True \<Rightarrow>
          (case clearLedgeredIntent io e d of
             (Some err, d1) \<Rightarrow> ((ledgeredKeyFailed, Some err), d1)
           | (None, d1) \<Rightarrow> ((ledgeredKeySkipped, None), d1))
      | Inr False \<Rightarrow>
          (case publishLedgeredNow accept e d of
             (False, d1) \<Rightarrow> ((ledgeredKeyFailed, None), d1)
           | (True, d1) \<Rightarrow>
               (case ackLedgered io now e d1 of
                  (Some err, d2) \<Rightarrow> ((ledgeredKeyFailed, Some err), d2)
                | (None, d2) \<Rightarrow> ((ledgeredKeyPublished, None), d2))))"

text \<open>
  The round. What happens to one key of it (failures, a held gate, the request path acknowledging
  other events in between) comes from \<open>world\<close>, indexed by the position in the round: \<open>wl_Between\<close> is
  the effect of the other publishers before the key is visited.
\<close>

record RoundWorld =
  wl_Between :: "Delivery \<Rightarrow> Delivery"
  wl_RequestAcks :: bool
  wl_RevalidationFails :: bool
  wl_Busy :: bool
  wl_Faults :: DeliveryFaults

record ledgeredRevalidator =
  rv_read :: bool
  rv_failed :: bool
  rv_pending :: "string list"

definition stillPending :: "bool \<Rightarrow> Delivery \<Rightarrow> string \<Rightarrow> ledgeredRevalidator \<Rightarrow> bool \<times> ledgeredRevalidator" where
  "stillPending readFails d key r =
     (let r1 = (if rv_read r then r
                else if readFails then r\<lparr>rv_read := True, rv_failed := True\<rparr>
                else r\<lparr>rv_read := True, rv_pending := mkeys (dl_Outbox d)\<rparr>)
      in (rv_failed r1 \<or> key \<in> set (rv_pending r1), r1))"

fun flushLoop :: "(Event \<Rightarrow> bool) \<Rightarrow> (nat \<Rightarrow> RoundWorld) \<Rightarrow> time \<Rightarrow> nat \<Rightarrow> (string \<times> Event) list \<Rightarrow> ledgeredRevalidator
     \<Rightarrow> nat \<Rightarrow> Delivery \<Rightarrow> (nat \<times> error option) \<times> Delivery" where
  "flushLoop accept world now i [] rv published d = ((published, None), d)"
| "flushLoop accept world now i ((key, e) # keys) rv published d0 =
     (let w = world i; d = wl_Between w d0;
          (still, rv1) = (if wl_Busy w \<or> \<not> wl_RequestAcks w then (True, rv)
                          else stillPending (wl_RevalidationFails w) d key rv)
      in case flushLedgeredKey accept (wl_Faults w) now (wl_Busy w) (\<not> still) e d of
           ((outcome, Some err), d1) \<Rightarrow> ((published, Some err), d1)
         | ((ledgeredKeyFailed, None), d1) \<Rightarrow> ((published, None), d1)
         | ((ledgeredKeyPublished, None), d1) \<Rightarrow> flushLoop accept world now (Suc i) keys rv1 (Suc published) d1
         | ((ledgeredKeySkipped, None), d1) \<Rightarrow> flushLoop accept world now (Suc i) keys rv1 published d1)"

definition pendingLedgeredOutbox :: "Delivery \<Rightarrow> (string \<times> Event) list" where
  "pendingLedgeredOutbox d = sort_slice (\<lambda>a b. fst a < fst b) (dl_Outbox d)"

definition ledgeredOutboxBatchSize :: int where
  "ledgeredOutboxBatchSize = 100"

definition FlushLedgeredOutbox :: "Config \<Rightarrow> (Event \<Rightarrow> bool) \<Rightarrow> (nat \<Rightarrow> RoundWorld) \<Rightarrow> time \<Rightarrow> int \<Rightarrow> Delivery
     \<Rightarrow> (nat \<times> error option) \<times> Delivery" where
  "FlushLedgeredOutbox cfg accept world now limit0 d =
     (if \<not> cf_LedgeredPublisher cfg then ((0, None), d)
      else
        let limit = (if limit0 \<le> 0 \<or> limit0 > ledgeredOutboxBatchSize then ledgeredOutboxBatchSize else limit0);
            keys = pendingLedgeredOutbox d
        in flushLoop accept world now 0 (take (nat limit) keys)
             \<lparr>rv_read = False, rv_failed = False, rv_pending = []\<rparr> 0 d)"

subsection \<open>The gate of one pending event (service/ledgered_gate.go)\<close>

text \<open>
  Gates are heap objects behind a table from keys to pointers. A publisher runs the operations below
  as separate atomic steps: table operations are atomic under \<open>ledgeredGatesMu\<close>, the lock of a gate
  is its own mutex.
\<close>

record ledgeredKeyGate =
  gate_mu :: bool
  gate_refs :: int

record GateTable =
  gt_gates :: "nat gomap"
  gt_heap :: "nat \<Rightarrow> ledgeredKeyGate"
  gt_next :: nat

definition ledgeredGateFor :: "string \<Rightarrow> GateTable \<Rightarrow> nat \<times> GateTable" where
  "ledgeredGateFor key t =
     (let (g, t1) = (case mget (gt_gates t) key of
            Some g \<Rightarrow> (g, t)
          | None \<Rightarrow> (gt_next t, t\<lparr>gt_gates := mput (gt_gates t) key (gt_next t),
                        gt_heap := (gt_heap t)(gt_next t := \<lparr>gate_mu = False, gate_refs = 0\<rparr>), gt_next := Suc (gt_next t)\<rparr>));
          gate = gt_heap t1 g
      in (g, t1\<lparr>gt_heap := (gt_heap t1)(g := gate\<lparr>gate_refs := gate_refs gate + 1\<rparr>)\<rparr>))"

definition gateTryLock :: "nat \<Rightarrow> GateTable \<Rightarrow> bool \<times> GateTable" where
  "gateTryLock g t =
     (if gate_mu (gt_heap t g) then (False, t)
      else (True, t\<lparr>gt_heap := (gt_heap t)(g := (gt_heap t g)\<lparr>gate_mu := True\<rparr>)\<rparr>))"

definition gateUnlock :: "nat \<Rightarrow> GateTable \<Rightarrow> GateTable" where
  "gateUnlock g t = t\<lparr>gt_heap := (gt_heap t)(g := (gt_heap t g)\<lparr>gate_mu := False\<rparr>)\<rparr>"

definition unrefLedgeredKey :: "string \<Rightarrow> nat \<Rightarrow> GateTable \<Rightarrow> GateTable" where
  "unrefLedgeredKey key g t =
     (let refs = gate_refs (gt_heap t g) - 1;
          t1 = t\<lparr>gt_heap := (gt_heap t)(g := (gt_heap t g)\<lparr>gate_refs := refs\<rparr>)\<rparr>
      in if refs \<le> 0 then t1\<lparr>gt_gates := mdel (gt_gates t1) key\<rparr> else t1)"

text \<open>
  Where a publisher is: outside; holding a reference, before \<open>TryLock\<close>; inside the publish; about to
  drop its reference, after \<open>Unlock\<close> or after a failed \<open>TryLock\<close>.
\<close>

datatype publisher = Outside | Referenced string nat | Inside string nat | Leaving string nat

inductive gateStep :: "GateTable \<times> (nat \<Rightarrow> publisher) \<Rightarrow> GateTable \<times> (nat \<Rightarrow> publisher) \<Rightarrow> bool" where
  reference: "ps i = Outside \<Longrightarrow> ledgeredGateFor key t = (g, t') \<Longrightarrow> gateStep (t, ps) (t', ps(i := Referenced key g))"
| acquire: "ps i = Referenced key g \<Longrightarrow> gateTryLock g t = (True, t') \<Longrightarrow> gateStep (t, ps) (t', ps(i := Inside key g))"
| contended: "ps i = Referenced key g \<Longrightarrow> gateTryLock g t = (False, t') \<Longrightarrow> gateStep (t, ps) (t', ps(i := Leaving key g))"
| unlock: "ps i = Inside key g \<Longrightarrow> gateStep (t, ps) (gateUnlock g t, ps(i := Leaving key g))"
| unref: "ps i = Leaving key g \<Longrightarrow> gateStep (t, ps) (unrefLedgeredKey key g t, ps(i := Outside))"

inductive_cases gateStepE: "gateStep (t, ps) s'"

definition emptyGates :: GateTable where
  "emptyGates = \<lparr>gt_gates = [], gt_heap = (\<lambda>_. \<lparr>gate_mu = False, gate_refs = 0\<rparr>), gt_next = 0\<rparr>"

fun refersTo :: "nat \<Rightarrow> publisher \<Rightarrow> bool" where
  "refersTo g Outside = False"
| "refersTo g (Referenced key g') = (g' = g)"
| "refersTo g (Inside key g') = (g' = g)"
| "refersTo g (Leaving key g') = (g' = g)"

fun publisherKey :: "publisher \<Rightarrow> (string \<times> nat) option" where
  "publisherKey Outside = None"
| "publisherKey (Referenced key g) = Some (key, g)"
| "publisherKey (Inside key g) = Some (key, g)"
| "publisherKey (Leaving key g) = Some (key, g)"

definition isInside :: "nat \<Rightarrow> publisher \<Rightarrow> bool" where
  "isInside g p \<longleftrightarrow> (\<exists>key. p = Inside key g)"

text \<open>
  The invariant: a publisher's gate is the table's gate of its key, gates of the table are allocated,
  distinct and referenced, the counter of a gate is the number of its publishers, and a gate is locked
  exactly while one publisher is inside.
\<close>

definition gateInv :: "GateTable \<times> (nat \<Rightarrow> publisher) \<Rightarrow> bool" where
  "gateInv = (\<lambda>(t, ps).
     wf_map (gt_gates t)
     \<and> finite {i. ps i \<noteq> Outside}
     \<and> (\<forall>i key g. publisherKey (ps i) = Some (key, g) \<longrightarrow> mget (gt_gates t) key = Some g)
     \<and> (\<forall>key g. mget (gt_gates t) key = Some g \<longrightarrow> g < gt_next t)
     \<and> (\<forall>key key' g. mget (gt_gates t) key = Some g \<and> mget (gt_gates t) key' = Some g \<longrightarrow> key = key')
     \<and> (\<forall>g < gt_next t. gate_refs (gt_heap t g) = int (card {i. refersTo g (ps i)}))
     \<and> (\<forall>g. gate_mu (gt_heap t g) \<longleftrightarrow> (\<exists>i. isInside g (ps i)))
     \<and> (\<forall>i j g. isInside g (ps i) \<and> isInside g (ps j) \<longrightarrow> i = j))"

lemma gateInv_init: "gateInv (emptyGates, \<lambda>_. Outside)"
  by (simp add: gateInv_def emptyGates_def isInside_def)

lemma refersTo_key: "refersTo g p \<longleftrightarrow> (\<exists>key. publisherKey p = Some (key, g))"
  by (cases p) auto

lemma isInside_refers: "isInside g p \<Longrightarrow> refersTo g p"
  by (auto simp: isInside_def)

lemma finite_refers: "finite {i. ps i \<noteq> Outside} \<Longrightarrow> finite {i. refersTo g (ps i)}"
  by (rule finite_subset [rotated]) (auto simp: refersTo_key)

lemma refers_update:
  "{j. refersTo g ((ps(i := p)) j)} = (if refersTo g p then insert i {j. refersTo g (ps j)} else {j. refersTo g (ps j)} - {i})"
  by (auto split: if_splits)

lemma gateInvD:
  assumes "gateInv (t, ps)"
  shows "wf_map (gt_gates t)" "finite {i. ps i \<noteq> Outside}"
    "\<And>i key g. publisherKey (ps i) = Some (key, g) \<Longrightarrow> mget (gt_gates t) key = Some g"
    "\<And>key g. mget (gt_gates t) key = Some g \<Longrightarrow> g < gt_next t"
    "\<And>key key' g. mget (gt_gates t) key = Some g \<Longrightarrow> mget (gt_gates t) key' = Some g \<Longrightarrow> key = key'"
    "\<And>g. g < gt_next t \<Longrightarrow> gate_refs (gt_heap t g) = int (card {i. refersTo g (ps i)})"
    "\<And>g. gate_mu (gt_heap t g) \<longleftrightarrow> (\<exists>i. isInside g (ps i))"
    "\<And>i j g. isInside g (ps i) \<Longrightarrow> isInside g (ps j) \<Longrightarrow> i = j"
  using assms unfolding gateInv_def by (simp_all, blast+)

lemma gateInvI:
  assumes "wf_map (gt_gates t)" "finite {i. ps i \<noteq> Outside}"
    "\<And>i key g. publisherKey (ps i) = Some (key, g) \<Longrightarrow> mget (gt_gates t) key = Some g"
    "\<And>key g. mget (gt_gates t) key = Some g \<Longrightarrow> g < gt_next t"
    "\<And>key key' g. mget (gt_gates t) key = Some g \<Longrightarrow> mget (gt_gates t) key' = Some g \<Longrightarrow> key = key'"
    "\<And>g. g < gt_next t \<Longrightarrow> gate_refs (gt_heap t g) = int (card {i. refersTo g (ps i)})"
    "\<And>g. gate_mu (gt_heap t g) \<longleftrightarrow> (\<exists>i. isInside g (ps i))"
    "\<And>i j g. isInside g (ps i) \<Longrightarrow> isInside g (ps j) \<Longrightarrow> i = j"
  shows "gateInv (t, ps)"
  using assms unfolding gateInv_def prod.case by blast

lemma finite_update: "finite {i. ps i \<noteq> Outside} \<Longrightarrow> finite {j. (ps(i := p)) j \<noteq> Outside}"
  by (rule finite_subset [of _ "insert i {i. ps i \<noteq> Outside}"]) auto

lemma isInside_simps [simp]:
  "\<not> isInside g Outside" "\<not> isInside g (Referenced key h)" "\<not> isInside g (Leaving key h)"
  "isInside g (Inside key h) \<longleftrightarrow> h = g"
  by (auto simp: isInside_def)

lemma inside_update: "(\<exists>j. isInside h ((ps(i := p)) j)) \<longleftrightarrow> isInside h p \<or> (\<exists>j. j \<noteq> i \<and> isInside h (ps j))"
  by auto

lemma inside_other: "\<not> isInside h (ps i) \<Longrightarrow> (\<exists>j. j \<noteq> i \<and> isInside h (ps j)) \<longleftrightarrow> (\<exists>j. isInside h (ps j))"
  by metis

text \<open>A step that moves one publisher within the same reference changes neither table nor counters.\<close>

lemma gateInv_move:
  assumes inv: "gateInv (t, ps)" and same: "publisherKey p = publisherKey (ps i)" "publisherKey p = Some (key, g)"
    and t': "t' = t\<lparr>gt_heap := (gt_heap t)(g := (gt_heap t g)\<lparr>gate_mu := locked\<rparr>)\<rparr>"
    and lock: "\<And>h. (if h = g then locked else gate_mu (gt_heap t h)) \<longleftrightarrow> (\<exists>j. isInside h ((ps(i := p)) j))"
    and unique: "\<And>j k h. isInside h ((ps(i := p)) j) \<Longrightarrow> isInside h ((ps(i := p)) k) \<Longrightarrow> j = k"
  shows "gateInv (t', ps(i := p))"
proof -
  note d = gateInvD [OF inv]
  have keys: "publisherKey ((ps(i := p)) j) = publisherKey (ps j)" for j using same by simp
  have refs: "{j. refersTo h ((ps(i := p)) j)} = {j. refersTo h (ps j)}" for h
    by (simp only: refersTo_key keys)
  show ?thesis
    unfolding t'
  proof (rule gateInvI)
    show "finite {j. (ps(i := p)) j \<noteq> Outside}" by (rule finite_update [OF d(2)])
    show "mget (gt_gates (t\<lparr>gt_heap := (gt_heap t)(g := (gt_heap t g)\<lparr>gate_mu := locked\<rparr>)\<rparr>)) k = Some h"
      if "publisherKey ((ps(i := p)) j) = Some (k, h)" for j k h
      using d(3) that unfolding keys by simp
    show "gate_refs (gt_heap (t\<lparr>gt_heap := (gt_heap t)(g := (gt_heap t g)\<lparr>gate_mu := locked\<rparr>)\<rparr>) h)
        = int (card {j. refersTo h ((ps(i := p)) j)})"
      if "h < gt_next (t\<lparr>gt_heap := (gt_heap t)(g := (gt_heap t g)\<lparr>gate_mu := locked\<rparr>)\<rparr>)" for h
      using d(6) [of h] that unfolding refs by auto
    show "gate_mu (gt_heap (t\<lparr>gt_heap := (gt_heap t)(g := (gt_heap t g)\<lparr>gate_mu := locked\<rparr>)\<rparr>) h)
        \<longleftrightarrow> (\<exists>j. isInside h ((ps(i := p)) j))" for h
      unfolding lock [of h, symmetric] by simp
    show "j = k" if "isInside h ((ps(i := p)) j)" "isInside h ((ps(i := p)) k)" for j k h
      by (rule unique [OF that])
  qed (use d(1,4,5) in simp_all)
qed

lemma gateInv_acquire:
  assumes inv: "gateInv (t, ps)" and i: "ps i = Referenced key g" and lock: "gateTryLock g t = (True, t')"
  shows "gateInv (t', ps(i := Inside key g))"
proof -
  have free: "\<not> isInside g (ps j)" for j
    using lock gateInvD(7) [OF inv, of g] by (auto simp: gateTryLock_def split: if_splits)
  show ?thesis
  proof (rule gateInv_move [OF inv, where key = key and g = g and locked = True])
    show "t' = t\<lparr>gt_heap := (gt_heap t)(g := (gt_heap t g)\<lparr>gate_mu := True\<rparr>)\<rparr>"
      using lock by (auto simp: gateTryLock_def split: if_splits)
    show "(if h = g then True else gate_mu (gt_heap t h)) \<longleftrightarrow> (\<exists>j. isInside h ((ps(i := Inside key g)) j))" for h
      unfolding inside_update using gateInvD(7) [OF inv, of h] inside_other [of h ps i] i by auto
    show "j = k" if "isInside h ((ps(i := Inside key g)) j)" "isInside h ((ps(i := Inside key g)) k)" for j k h
      using that free gateInvD(8) [OF inv, of h j k] by (auto split: if_splits)
  qed (simp_all add: i)
qed

lemma gateInv_leave:
  assumes inv: "gateInv (t, ps)" and i: "ps i = Inside key g"
  shows "gateInv (gateUnlock g t, ps(i := Leaving key g))"
proof (rule gateInv_move [OF inv, where key = key and g = g and locked = False])
  have only: "j = i" if "isInside g (ps j)" for j using gateInvD(8) [OF inv that, of i] i by simp
  show "(if h = g then False else gate_mu (gt_heap t h)) \<longleftrightarrow> (\<exists>j. isInside h ((ps(i := Leaving key g)) j))" for h
    unfolding inside_update using gateInvD(7) [OF inv, of h] inside_other [of h ps i] i only by (cases "h = g") auto
  show "j = k" if "isInside h ((ps(i := Leaving key g)) j)" "isInside h ((ps(i := Leaving key g)) k)" for j k h
    using that gateInvD(8) [OF inv, of h j k] by (auto split: if_splits)
qed (simp_all add: i gateUnlock_def)

lemma gateInv_contended:
  assumes inv: "gateInv (t, ps)" and i: "ps i = Referenced key g" and lock: "gateTryLock g t = (False, t')"
  shows "gateInv (t', ps(i := Leaving key g))"
proof (rule gateInv_move [OF inv, where key = key and g = g and locked = "gate_mu (gt_heap t g)"])
  show "t' = t\<lparr>gt_heap := (gt_heap t)(g := (gt_heap t g)\<lparr>gate_mu := gate_mu (gt_heap t g)\<rparr>)\<rparr>"
    using lock by (auto simp: gateTryLock_def split: if_splits)
  show "(if h = g then gate_mu (gt_heap t g) else gate_mu (gt_heap t h)) \<longleftrightarrow> (\<exists>j. isInside h ((ps(i := Leaving key g)) j))" for h
    unfolding inside_update using gateInvD(7) [OF inv, of h] inside_other [of h ps i] i by auto
  show "j = k" if "isInside h ((ps(i := Leaving key g)) j)" "isInside h ((ps(i := Leaving key g)) k)" for j k h
    using that gateInvD(8) [OF inv, of h j k] by (auto split: if_splits)
qed (simp_all add: i)

text \<open>Taking and dropping a reference keeps the counter equal to the number of publishers.\<close>

lemma gateInv_unref:
  assumes inv: "gateInv (t, ps)" and i: "ps i = Leaving key g"
  shows "gateInv (unrefLedgeredKey key g t, ps(i := Outside))"
proof -
  note d = gateInvD [OF inv]
  let ?R = "\<lambda>h. {j. refersTo h (ps j)}" and ?t = "unrefLedgeredKey key g t"
  have key: "mget (gt_gates t) key = Some g" using d(3) [of i] i by simp
  have R: "{j. refersTo h ((ps(i := Outside)) j)} = ?R h - {i}" for h by (auto split: if_splits)
  have Rg: "i \<in> ?R g" "finite (?R g)" using i finite_refers [OF d(2)] by auto
  have refs: "gate_refs (gt_heap t g) - 1 = int (card (?R g - {i}))"
    using d(6) [OF d(4) [OF key]] card_Suc_Diff1 [OF Rg(2,1)] by simp
  have gone: "gate_refs (gt_heap t g) - 1 \<le> 0 \<longleftrightarrow> ?R g = {i}"
    unfolding refs using Rg card_0_eq [of "?R g - {i}"] by (simp del: card_Diff_insert card_Diff_singleton) blast
  have table: "gt_gates ?t = (if ?R g = {i} then mdel (gt_gates t) key else gt_gates t)" "gt_next ?t = gt_next t"
    using gone by (simp_all add: unrefLedgeredKey_def Let_def)
  have heap: "gate_mu (gt_heap ?t h) = gate_mu (gt_heap t h)"
    "gate_refs (gt_heap ?t h) = (if h = g then gate_refs (gt_heap t g) - 1 else gate_refs (gt_heap t h))" for h
    by (simp_all add: unrefLedgeredKey_def Let_def)
  show ?thesis
  proof (rule gateInvI)
    show "wf_map (gt_gates ?t)" using d(1) by (simp add: table wf_map_mdel)
    show "finite {j. (ps(i := Outside)) j \<noteq> Outside}" by (rule finite_update [OF d(2)])
    show "mget (gt_gates ?t) k = Some h" if j: "publisherKey ((ps(i := Outside)) j) = Some (k, h)" for j k h
    proof -
      have ji: "j \<noteq> i" using j by auto
      then have h: "mget (gt_gates t) k = Some h" using d(3) [of j] j by simp
      have "k \<noteq> key" if "?R g = {i}"
      proof
        assume "k = key"
        then have "refersTo g (ps j)" using h key j ji by (auto simp: refersTo_key)
        then show False using that ji by auto
      qed
      then show ?thesis using h by (simp add: table mget_mdel)
    qed
    show "h < gt_next ?t" if "mget (gt_gates ?t) k = Some h" for k h
      using that d(4) by (auto simp: table mget_mdel split: if_splits)
    show "k = k'" if "mget (gt_gates ?t) k = Some h" "mget (gt_gates ?t) k' = Some h" for k k' h
      using that d(5) [of k h k'] by (auto simp: table mget_mdel split: if_splits)
    show "gate_refs (gt_heap ?t h) = int (card {j. refersTo h ((ps(i := Outside)) j)})" if "h < gt_next ?t" for h
    proof (cases "h = g")
      case False
      then have "?R h - {i} = ?R h" using i by auto
      then show ?thesis using False d(6) [of h] that unfolding R by (simp add: heap table)
    qed (unfold R, simp only: heap refs if_True simp_thms)
    show "gate_mu (gt_heap ?t h) \<longleftrightarrow> (\<exists>j. isInside h ((ps(i := Outside)) j))" for h
      unfolding inside_update heap using d(7) [of h] inside_other [of h ps i] i by auto
    show "j = k" if "isInside h ((ps(i := Outside)) j)" "isInside h ((ps(i := Outside)) k)" for j k h
      using that d(8) [of h j k] by (auto split: if_splits)
  qed
qed

lemma gateInv_reference:
  assumes inv: "gateInv (t, ps)" and i: "ps i = Outside" and gate: "ledgeredGateFor key t = (g, t')"
  shows "gateInv (t', ps(i := Referenced key g))"
proof -
  note d = gateInvD [OF inv]
  let ?R = "\<lambda>h. {j. refersTo h (ps j)}"
  have R: "{j. refersTo h ((ps(i := Referenced key g)) j)} = (if h = g then insert i (?R g) else ?R h)" for h
    using i by (auto split: if_splits)
  have fin: "finite (?R g)" "i \<notin> ?R g" using finite_refers [OF d(2)] i by auto
  have fresh: "?R (gt_next t) = {}" using d(3,4) by (force simp: refersTo_key)
  have wf: "wf_map (gt_gates t')"
    using gate d(1) by (auto simp: ledgeredGateFor_def Let_def wf_map_mput split: option.splits)
  have lookup: "mget (gt_gates t') k = (if k = key then Some g else mget (gt_gates t) k)" for k
    using gate by (auto simp: ledgeredGateFor_def Let_def mget_mput split: option.splits)
  consider (new) "mget (gt_gates t) key = None" "g = gt_next t" "gt_next t' = Suc (gt_next t)"
    | (old) "mget (gt_gates t) key = Some g" "gt_next t' = gt_next t" "g < gt_next t"
    using gate d(4) by (auto simp: ledgeredGateFor_def Let_def split: option.splits)
  note cases = this
  have refs: "gate_refs (gt_heap t' h) = (if h = g then int (card (?R g)) + 1 else gate_refs (gt_heap t h))" for h
    using gate fresh d(6) [of g] d(4) [of key g]
    by (auto simp: ledgeredGateFor_def Let_def split: option.splits)
  have mu: "gate_mu (gt_heap t' h) \<longleftrightarrow> gate_mu (gt_heap t h)" for h
  proof -
    have "\<not> gate_mu (gt_heap t (gt_next t))"
      using d(7) [of "gt_next t"] fresh isInside_refers by blast
    then show ?thesis using gate by (auto simp: ledgeredGateFor_def Let_def split: option.splits if_splits)
  qed
  show ?thesis
  proof (rule gateInvI)
    show "wf_map (gt_gates t')" by (rule wf)
    show "finite {j. (ps(i := Referenced key g)) j \<noteq> Outside}" by (rule finite_update [OF d(2)])
    show "mget (gt_gates t') k = Some h" if "publisherKey ((ps(i := Referenced key g)) j) = Some (k, h)" for j k h
    proof (cases "j = i")
      case False
      then have h: "mget (gt_gates t) k = Some h" using that d(3) [of j k h] by simp
      show ?thesis using cases h by cases (auto simp: lookup)
    qed (use that in \<open>simp add: lookup\<close>)
    show "h < gt_next t'" if "mget (gt_gates t') k = Some h" for k h
      using cases that d(4) [of k h] by cases (auto simp: lookup less_SucI split: if_splits)
    show "k = k'" if "mget (gt_gates t') k = Some h" "mget (gt_gates t') k' = Some h" for k k' h
      using cases that d(5) [of k h k'] d(4) [of k h] d(4) [of k' h] by cases (auto simp: lookup split: if_splits)
    show "gate_refs (gt_heap t' h) = int (card {j. refersTo h ((ps(i := Referenced key g)) j)})" if "h < gt_next t'" for h
    proof (cases "h = g")
      case False
      have "h < gt_next t" using cases that False by cases auto
      then show ?thesis unfolding R refs using False d(6) [of h] by simp
    qed (unfold R refs, use fin in simp)
    show "gate_mu (gt_heap t' h) \<longleftrightarrow> (\<exists>j. isInside h ((ps(i := Referenced key g)) j))" for h
      unfolding inside_update mu using d(7) [of h] inside_other [of h ps i] i by auto
    show "j = k" if "isInside h ((ps(i := Referenced key g)) j)" "isInside h ((ps(i := Referenced key g)) k)" for j k h
      using that d(8) [of h j k] by (auto split: if_splits)
  qed
qed

lemma gateInv_step: "gateStep s s' \<Longrightarrow> gateInv s \<Longrightarrow> gateInv s'"
  by (induction rule: gateStep.induct)
    (auto intro: gateInv_reference gateInv_acquire gateInv_contended gateInv_leave gateInv_unref simp del: fun_upd_apply)

lemma gateInv_reachable: "gateStep\<^sup>*\<^sup>* (emptyGates, \<lambda>_. Outside) s \<Longrightarrow> gateInv s"
  by (induction rule: rtranclp_induct) (auto intro: gateInv_init gateInv_step)

text \<open>Every gate of the table is in use, so the table is no larger than the set of publishers.\<close>

definition gateUsed :: "GateTable \<times> (nat \<Rightarrow> publisher) \<Rightarrow> bool" where
  "gateUsed = (\<lambda>(t, ps). \<forall>key g. mget (gt_gates t) key = Some g \<longrightarrow> (\<exists>i. refersTo g (ps i)))"

lemma gateUsed_same:
  assumes "gateUsed (t, ps)" "gt_gates t' = gt_gates t" "publisherKey p = publisherKey (ps i)"
  shows "gateUsed (t', ps(i := p))"
proof -
  have "refersTo g ((ps(i := p)) j) = refersTo g (ps j)" for g j using assms(3) by (simp add: refersTo_key)
  then show ?thesis using assms(1,2) by (simp add: gateUsed_def)
qed

lemma gateUsed_step: "gateStep s s' \<Longrightarrow> gateInv s \<Longrightarrow> gateUsed s \<Longrightarrow> gateUsed s'"
proof (induction rule: gateStep.induct)
  case (reference ps i key t g t')
  have old: "\<exists>j. refersTo h ((ps(i := Referenced key g)) j)" if hk: "mget (gt_gates t) k = Some h" for k h
  proof -
    obtain j where j: "refersTo h (ps j)" using reference(4) hk by (auto simp: gateUsed_def)
    then have "j \<noteq> i" using reference(1) by auto
    then show ?thesis using j by (intro exI [of _ j]) simp
  qed
  have "\<exists>j. refersTo g ((ps(i := Referenced key g)) j)" by (intro exI [of _ i]) simp
  then show ?case
    using old reference(2)
    by (auto simp del: fun_upd_apply simp: gateUsed_def ledgeredGateFor_def Let_def mget_mput split: option.splits if_splits)
next
  case (unref ps i key g t)
  note d = gateInvD [OF unref(2)]
  have key: "mget (gt_gates t) key = Some g" using d(3) [of i] unref(1) by simp
  have other: "\<exists>j. refersTo h ((ps(i := Outside)) j)" if k: "mget (gt_gates t) k = Some h" "h \<noteq> g" for k h
  proof -
    obtain j where j: "refersTo h (ps j)" using unref(3) k by (auto simp: gateUsed_def)
    then have "j \<noteq> i" using unref(1) k(2) by auto
    then show ?thesis using j by (intro exI [of _ j]) simp
  qed
  show ?case
  proof (cases "{j. refersTo g (ps j)} = {i}")
    case True
    then have "gate_refs (gt_heap t g) = 1" using d(6) [OF d(4) [OF key]] by simp
    then have "mget (gt_gates (unrefLedgeredKey key g t)) k = (if k = key then None else mget (gt_gates t) k)" for k
      by (simp add: unrefLedgeredKey_def Let_def mget_mdel)
    then show ?thesis
      using other d(5) [OF key] unfolding gateUsed_def prod.case by (metis option.distinct(1))
  next
    case False
    moreover have "i \<in> {j. refersTo g (ps j)}" using unref(1) by simp
    ultimately obtain j where "refersTo g (ps j)" "j \<noteq> i" by blast
    then have "\<exists>j. refersTo g ((ps(i := Outside)) j)" by (intro exI [of _ j]) simp
    then have "\<exists>j. refersTo h ((ps(i := Outside)) j)" if "mget (gt_gates t) k = Some h" for k h
      using other [OF that] by (cases "h = g") auto
    moreover have "mget (gt_gates t) k = Some h" if "mget (gt_gates (unrefLedgeredKey key g t)) k = Some h" for k h
      using that by (auto simp: unrefLedgeredKey_def Let_def mget_mdel split: if_splits)
    ultimately show ?thesis unfolding gateUsed_def prod.case by blast
  qed
qed (auto intro!: gateUsed_same simp: gateTryLock_def gateUnlock_def simp del: fun_upd_apply split: if_splits)

lemma gateUsed_reachable: "gateStep\<^sup>*\<^sup>* (emptyGates, \<lambda>_. Outside) s \<Longrightarrow> gateUsed s"
proof (induction rule: rtranclp_induct)
  case base
  show ?case by (simp add: gateUsed_def emptyGates_def)
next
  case (step s s')
  then show ?case using gateUsed_step gateInv_reachable by blast
qed

subsection \<open>No intent is lost\<close>

text \<open>
  The committed events, by key, are fixed by the ledger. The steps of the delivery state: the commit
  records an intent, the request path publishes, a flush round visits a key. \<open>recorded\<close> remembers the
  keys whose intent was ever recorded.
\<close>

definition ledgerKeys :: "(string \<Rightarrow> Event option) \<Rightarrow> bool" where
  "ledgerKeys ledger \<longleftrightarrow> (\<forall>key e. ledger key = Some e \<longrightarrow> key = EventKey (ev_TenantID e) (ev_EventID e))"

inductive deliveryReach :: "Config \<Rightarrow> (string \<Rightarrow> Event option) \<Rightarrow> string set \<Rightarrow> Delivery \<Rightarrow> bool" for cfg ledger where
  start: "deliveryReach cfg ledger {} \<lparr>dl_Outbox = [], dl_Confirmed = [], dl_Broker = []\<rparr>"
| intent: "deliveryReach cfg ledger recorded d \<Longrightarrow> ledger key = Some e
    \<Longrightarrow> deliveryReach cfg ledger (insert key recorded) (d\<lparr>dl_Outbox := mput (dl_Outbox d) key e\<rparr>)"
| request: "deliveryReach cfg ledger recorded d \<Longrightarrow> ledger key = Some e
    \<Longrightarrow> deliveryReach cfg ledger recorded (publishLedgered cfg accept io now busy e d)"
| flush: "deliveryReach cfg ledger recorded d \<Longrightarrow> ledger key = Some e
    \<Longrightarrow> flushLedgeredKey accept io now busy stale e d = (outcome, d')
    \<Longrightarrow> deliveryReach cfg ledger recorded d'"

definition deliveryInv :: "(string \<Rightarrow> Event option) \<Rightarrow> string set \<Rightarrow> Delivery \<Rightarrow> bool" where
  "deliveryInv ledger recorded d \<longleftrightarrow>
     (\<forall>key e. mget (dl_Outbox d) key = Some e \<longrightarrow> ledger key = Some e)
     \<and> (\<forall>key. mget (dl_Confirmed d) key \<noteq> None \<longrightarrow>
          (\<exists>e. ledger key = Some e \<and> (\<exists>b \<in> set (dl_Broker d). CloneEvent e = Inr b)))
     \<and> (\<forall>key \<in> recorded. mget (dl_Outbox d) key \<noteq> None \<or> mget (dl_Confirmed d) key \<noteq> None)"

lemma publishLedgeredNow_state:
  assumes "publishLedgeredNow accept e d = (ok, d')"
  shows "dl_Outbox d' = dl_Outbox d \<and> dl_Confirmed d' = dl_Confirmed d \<and> set (dl_Broker d) \<subseteq> set (dl_Broker d')
    \<and> (ok \<longrightarrow> (\<exists>b \<in> set (dl_Broker d'). CloneEvent e = Inr b))"
  using assms by (auto simp: publishLedgeredNow_def split: sum.splits if_splits)

lemma deliveryInv_broker:
  "deliveryInv ledger recorded d \<Longrightarrow> dl_Outbox d' = dl_Outbox d \<Longrightarrow> dl_Confirmed d' = dl_Confirmed d
    \<Longrightarrow> set (dl_Broker d) \<subseteq> set (dl_Broker d') \<Longrightarrow> deliveryInv ledger recorded d'"
  unfolding deliveryInv_def by simp blast

lemma deliveryInv_clear:
  assumes "deliveryInv ledger recorded d" "mget (dl_Confirmed d) (EventKey (ev_TenantID e) (ev_EventID e)) \<noteq> None"
  shows "deliveryInv ledger recorded (snd (clearLedgeredIntent io e d))"
  using assms by (auto simp: deliveryInv_def clearLedgeredIntent_def mget_mdel split: option.splits)

lemma ConfirmPublication_keys:
  assumes "ConfirmPublication now e confirmed = (r, confirmed')"
  shows "mget confirmed' key \<noteq> None \<longleftrightarrow>
      mget confirmed key \<noteq> None \<or> r = None \<and> key = EventKey (ev_TenantID e) (ev_EventID e)"
  using assms
  by (auto simp: ConfirmPublication_def Let_def mget_mput publicationFromReceipt_def receiptFromEvent_def
      split: option.splits if_splits)

lemma deliveryInv_ack:
  assumes inv: "deliveryInv ledger recorded d" and led: "ledger (EventKey (ev_TenantID e) (ev_EventID e)) = Some e"
    and b: "b \<in> set (dl_Broker d)" "CloneEvent e = Inr b"
  shows "deliveryInv ledger recorded (snd (ackLedgered io now e d))"
proof (cases "df_Confirm io")
  case None
  obtain r confirmed where c: "ConfirmPublication now e (dl_Confirmed d) = (r, confirmed)" by fastforce
  have inv': "deliveryInv ledger recorded (d\<lparr>dl_Confirmed := confirmed\<rparr>)"
    using inv led b ConfirmPublication_keys [OF c] by (auto simp: deliveryInv_def)
  show ?thesis
    using None c inv' deliveryInv_clear [OF inv'] ConfirmPublication_keys [OF c]
    by (cases r) (auto simp: ackLedgered_def)
qed (use inv in \<open>simp add: ackLedgered_def\<close>)

lemma deliveryInv_publish:
  assumes inv: "deliveryInv ledger recorded d" and led: "ledger (EventKey (ev_TenantID e) (ev_EventID e)) = Some e"
    and p: "publishLedgeredNow accept e d = (ok, d1)"
  shows "deliveryInv ledger recorded d1" "ok \<Longrightarrow> deliveryInv ledger recorded (snd (ackLedgered io now e d1))"
proof -
  note st = publishLedgeredNow_state [OF p]
  show d1: "deliveryInv ledger recorded d1" using deliveryInv_broker [OF inv] st by blast
  show "deliveryInv ledger recorded (snd (ackLedgered io now e d1))" if ok
    using deliveryInv_ack [OF d1 led] st that by blast
qed

lemma deliveryInv_request:
  assumes "deliveryInv ledger recorded d" "ledger (EventKey (ev_TenantID e) (ev_EventID e)) = Some e"
  shows "deliveryInv ledger recorded (publishLedgered cfg accept io now busy e d)"
  using assms deliveryInv_publish [OF assms]
  by (auto simp: publishLedgered_def split: prod.splits bool.splits)

lemma deliveryInv_flush:
  assumes inv: "deliveryInv ledger recorded d" and led: "ledger (EventKey (ev_TenantID e) (ev_EventID e)) = Some e"
    and f: "flushLedgeredKey accept io now busy stale e d = (outcome, d')"
  shows "deliveryInv ledger recorded d'"
proof (cases "busy \<or> stale")
  case False
  have confirmed: "mget (dl_Confirmed d) (EventKey (ev_TenantID e) (ev_EventID e)) \<noteq> None"
    if "publicationConfirmed (dl_Confirmed d) (receiptFromEvent e) = Inr True"
    using that by (auto simp: publicationConfirmed_def Let_def publicationFromReceipt_def receiptFromEvent_def split: option.splits)
  show ?thesis
  proof (cases "df_Lookup io")
    case None
    obtain ok d1 where p: "publishLedgeredNow accept e d = (ok, d1)" by fastforce
    note steps = deliveryInv_publish [OF inv led p]
    show ?thesis
    proof (cases "publicationConfirmed (dl_Confirmed d) (receiptFromEvent e)")
      case (Inr b)
      show ?thesis
        using f False None Inr p steps deliveryInv_clear [OF inv confirmed] inv
        by (cases b) (auto simp: flushLedgeredKey_def split: prod.splits bool.splits option.splits; metis snd_conv)+
    qed (use f False None inv in \<open>auto simp: flushLedgeredKey_def\<close>)
  qed (use f False inv in \<open>auto simp: flushLedgeredKey_def\<close>)
qed (use f inv in \<open>auto simp: flushLedgeredKey_def split: if_splits\<close>)

lemma deliveryReach_inv: "deliveryReach cfg ledger recorded d \<Longrightarrow> ledgerKeys ledger \<Longrightarrow> deliveryInv ledger recorded d"
proof (induction rule: deliveryReach.induct)
  case start
  show ?case by (simp add: deliveryInv_def)
next
  case (intent recorded d key e)
  then show ?case by (auto simp: deliveryInv_def mget_mput)
next
  case (request recorded d key e accept io now busy)
  then show ?case using deliveryInv_request [of ledger recorded d e] by (auto simp: ledgerKeys_def)
next
  case (flush recorded d key e accept io now busy stale outcome d')
  then show ?case using deliveryInv_flush [of ledger recorded d e] by (auto simp: ledgerKeys_def)
qed

subsection \<open>A working broker drains the outbox\<close>

definition quietWorld :: RoundWorld where
  "quietWorld = \<lparr>wl_Between = (\<lambda>d. d), wl_RequestAcks = False, wl_RevalidationFails = False, wl_Busy = False,
     wl_Faults = \<lparr>df_Lookup = None, df_Confirm = None, df_Clear = None\<rparr>\<rparr>"

text \<open>An intent that can be published: ledger coordinates under its own key, and no confirmation of another event.\<close>

definition publishable :: "publicationConfirmation gomap \<Rightarrow> string \<times> Event \<Rightarrow> bool" where
  "publishable confirmed = (\<lambda>(key, e).
     key = EventKey (ev_TenantID e) (ev_EventID e)
     \<and> pc_valid (publicationFromReceipt (receiptFromEvent e)) = None
     \<and> (case CloneEvent e of Inl _ \<Rightarrow> False | Inr _ \<Rightarrow> True)
     \<and> (case mget confirmed key of None \<Rightarrow> True
        | Some p \<Rightarrow> pc_matches p (publicationFromReceipt (receiptFromEvent e))))"

definition drainable :: "Delivery \<Rightarrow> bool" where
  "drainable d \<longleftrightarrow> wf_map (dl_Outbox d) \<and> list_all (publishable (dl_Confirmed d)) (dl_Outbox d)"

lemma mdel_filter: "mdel m k = filter (\<lambda>p. fst p \<noteq> k) m"
  by (auto simp: mdel_def AList.delete_eq intro: filter_cong)

lemma flush_quiet:
  assumes pub: "publishable (dl_Confirmed d) (key, e)"
    and acc: "\<And>b. CloneEvent e = Inr b \<Longrightarrow> accept b"
  shows "\<exists>outcome d'. flushLedgeredKey accept (wl_Faults quietWorld) now False False e d = ((outcome, None), d')
    \<and> outcome \<noteq> ledgeredKeyFailed \<and> dl_Outbox d' = filter (\<lambda>p. fst p \<noteq> key) (dl_Outbox d)
    \<and> (\<forall>k. k \<noteq> key \<longrightarrow> mget (dl_Confirmed d') k = mget (dl_Confirmed d) k) \<and> mget (dl_Confirmed d') key \<noteq> None
    \<and> set (dl_Broker d) \<subseteq> set (dl_Broker d')
    \<and> (mget (dl_Confirmed d) key = None \<longrightarrow> (\<exists>b \<in> set (dl_Broker d'). CloneEvent e = Inr b))"
proof -
  let ?want = "publicationFromReceipt (receiptFromEvent e)"
  obtain b where b: "CloneEvent e = Inr b" using pub by (auto simp: publishable_def split: sum.splits)
  have key: "key = EventKey (ev_TenantID e) (ev_EventID e)" "EventKey (pc_TenantID ?want) (pc_EventID ?want) = key"
    and ok: "pc_valid ?want = None"
    using pub by (simp_all add: publishable_def publicationFromReceipt_def receiptFromEvent_def)
  show ?thesis
  proof (cases "mget (dl_Confirmed d) key")
    case None
    show ?thesis
      using None key ok b acc [OF b]
      by (simp add: flushLedgeredKey_def quietWorld_def publicationConfirmed_def Let_def publishLedgeredNow_def
          ackLedgered_def ConfirmPublication_def clearLedgeredIntent_def mdel_filter mget_mput) auto
  next
    case (Some p)
    then have "pc_matches p ?want" using pub by (simp add: publishable_def)
    then show ?thesis
      using Some key ok
      by (simp add: flushLedgeredKey_def quietWorld_def publicationConfirmed_def Let_def clearLedgeredIntent_def mdel_filter)
  qed
qed

lemma publishable_cong:
  "mget c (fst p) = mget c' (fst p) \<Longrightarrow> publishable c p = publishable c' p"
  by (cases p) (simp add: publishable_def)

lemma flushLoop_quiet:
  assumes "distinct (map fst keys)" "list_all (publishable (dl_Confirmed d)) keys" "\<And>b. accept b"
  shows "\<exists>n d'. flushLoop accept (\<lambda>_. quietWorld) now i keys rv published d = ((n, None), d')
    \<and> dl_Outbox d' = filter (\<lambda>p. fst p \<notin> set (map fst keys)) (dl_Outbox d)
    \<and> (\<forall>k. k \<notin> set (map fst keys) \<longrightarrow> mget (dl_Confirmed d') k = mget (dl_Confirmed d) k)
    \<and> set (dl_Broker d) \<subseteq> set (dl_Broker d')
    \<and> (\<forall>(k, e) \<in> set keys. mget (dl_Confirmed d) k = None \<longrightarrow> (\<exists>b \<in> set (dl_Broker d'). CloneEvent e = Inr b))"
  using assms(1,2)
proof (induction keys arbitrary: i rv published d)
  case (Cons p keys)
  obtain key e where p: "p = (key, e)" by fastforce
  have pub: "publishable (dl_Confirmed d) (key, e)" and dk: "distinct (map fst keys)" using Cons.prems p by simp_all
  obtain outcome d1 where f: "flushLedgeredKey accept (wl_Faults quietWorld) now False False e d = ((outcome, None), d1)"
    and out: "outcome \<noteq> ledgeredKeyFailed" "dl_Outbox d1 = filter (\<lambda>p. fst p \<noteq> key) (dl_Outbox d)"
    and keep: "\<forall>k. k \<noteq> key \<longrightarrow> mget (dl_Confirmed d1) k = mget (dl_Confirmed d) k"
    and broker: "set (dl_Broker d) \<subseteq> set (dl_Broker d1)"
      "mget (dl_Confirmed d) key = None \<longrightarrow> (\<exists>b \<in> set (dl_Broker d1). CloneEvent e = Inr b)"
    using flush_quiet [where accept = accept and now = now, OF pub assms(3)] by (elim exE conjE, intro that) assumption+
  have "publishable (dl_Confirmed d1) q" if q: "q \<in> set keys" for q
  proof -
    have "fst q \<noteq> key" using Cons.prems(1) q p by auto
    then show ?thesis using Cons.prems(2) q keep publishable_cong [of "dl_Confirmed d1" q "dl_Confirmed d"]
      by (simp add: list_all_iff)
  qed
  then have rest: "list_all (publishable (dl_Confirmed d1)) keys" by (simp add: list_all_iff)
  define published' where "published' = (if outcome = ledgeredKeyPublished then Suc published else published)"
  have step: "flushLoop accept (\<lambda>_. quietWorld) now i (p # keys) rv published d
      = flushLoop accept (\<lambda>_. quietWorld) now (Suc i) keys rv published' d1"
    using f out(1) by (cases outcome) (simp_all add: p quietWorld_def published'_def)
  obtain n d' where IH: "flushLoop accept (\<lambda>_. quietWorld) now (Suc i) keys rv published' d1 = ((n, None), d')"
    "dl_Outbox d' = filter (\<lambda>p. fst p \<notin> set (map fst keys)) (dl_Outbox d1)"
    "\<forall>k. k \<notin> set (map fst keys) \<longrightarrow> mget (dl_Confirmed d') k = mget (dl_Confirmed d1) k"
    "set (dl_Broker d1) \<subseteq> set (dl_Broker d')"
    "\<forall>(k, e) \<in> set keys. mget (dl_Confirmed d1) k = None \<longrightarrow> (\<exists>b \<in> set (dl_Broker d'). CloneEvent e = Inr b)"
    using Cons.IH [OF dk rest, of "Suc i" rv published'] by (elim exE conjE, intro that) assumption+
  have delivered: "\<forall>(k, e) \<in> set (p # keys). mget (dl_Confirmed d) k = None \<longrightarrow> (\<exists>b \<in> set (dl_Broker d'). CloneEvent e = Inr b)"
  proof (clarify)
    fix k v assume kv: "(k, v) \<in> set (p # keys)" "mget (dl_Confirmed d) k = None"
    show "\<exists>b \<in> set (dl_Broker d'). CloneEvent v = Inr b"
    proof (cases "(k, v) = p")
      case True
      then show ?thesis using kv(2) broker(2) IH(4) p by blast
    next
      case False
      then have "(k, v) \<in> set keys" "k \<noteq> key" using kv(1) Cons.prems(1) p by (auto simp: image_iff)
      then show ?thesis using IH(5) keep kv(2) by fastforce
    qed
  qed
  show ?case
  proof (intro exI conjI)
    show "flushLoop accept (\<lambda>_. quietWorld) now i (p # keys) rv published d = ((n, None), d')" using step IH(1) by simp
    show "dl_Outbox d' = filter (\<lambda>q. fst q \<notin> set (map fst (p # keys))) (dl_Outbox d)"
      unfolding IH(2) out(2) by (simp add: p)
    show "\<forall>k. k \<notin> set (map fst (p # keys)) \<longrightarrow> mget (dl_Confirmed d') k = mget (dl_Confirmed d) k"
      using IH(3) keep p by simp
    show "set (dl_Broker d) \<subseteq> set (dl_Broker d')" using broker(1) IH(4) by blast
  qed (rule delivered)
qed simp

definition flushRounds :: "Config \<Rightarrow> (Event \<Rightarrow> bool) \<Rightarrow> time \<Rightarrow> nat \<Rightarrow> Delivery \<Rightarrow> Delivery" where
  "flushRounds cfg accept now n d = ((\<lambda>d. snd (FlushLedgeredOutbox cfg accept (\<lambda>_. quietWorld) now 0 d)) ^^ n) d"

text \<open>What a number of rounds has drained: the keys that left the outbox without a confirmation were delivered.\<close>

definition drainedTo :: "Delivery \<Rightarrow> nat \<Rightarrow> Delivery \<Rightarrow> bool" where
  "drainedTo d0 n d \<longleftrightarrow>
     drainable d \<and> length (dl_Outbox d) = length (dl_Outbox d0) - 100 * n \<and> set (dl_Outbox d) \<subseteq> set (dl_Outbox d0)
     \<and> (\<forall>(k, e) \<in> set (dl_Outbox d). mget (dl_Confirmed d) k = mget (dl_Confirmed d0) k)
     \<and> (\<forall>(k, e) \<in> set (dl_Outbox d0) - set (dl_Outbox d). mget (dl_Confirmed d0) k = None
          \<longrightarrow> (\<exists>b \<in> set (dl_Broker d). CloneEvent e = Inr b))"

lemma length_filter_taken:
  assumes "distinct (map fst xs)" "mset ys = mset xs"
  shows "length (filter (\<lambda>p. fst p \<notin> set (map fst (take n ys))) xs) = length xs - n"
proof -
  have ys: "distinct (map fst ys)" using assms by (metis mset_map mset_eq_imp_distinct_iff)
  have "filter (\<lambda>p. fst p \<notin> set (map fst (take n ys))) (take n ys @ drop n ys) = drop n ys"
  proof -
    have "distinct (map fst (take n ys) @ map fst (drop n ys))" using ys by (metis append_take_drop_id map_append)
    then have "\<forall>p \<in> set (drop n ys). fst p \<notin> set (map fst (take n ys))" by auto
    then have "filter (\<lambda>p. fst p \<notin> set (map fst (take n ys))) (drop n ys) = drop n ys" by (simp add: filter_id_conv)
    moreover have "filter (\<lambda>p. fst p \<notin> set (map fst (take n ys))) (take n ys) = []" by (auto simp: filter_empty_conv)
    ultimately show ?thesis unfolding filter_append by simp
  qed
  moreover have "length (filter P xs) = length (filter P ys)" for P
    using assms(2) by (metis mset_filter size_mset)
  moreover have "take n ys @ drop n ys = ys" by simp
  moreover have "length ys = length xs" using assms(2) by (metis size_mset)
  ultimately show ?thesis by simp
qed

lemma flush_round:
  assumes d: "drainable d" and cfg: "cf_LedgeredPublisher cfg" and acc: "\<And>b. accept b"
  shows "drainedTo d 1 (snd (FlushLedgeredOutbox cfg accept (\<lambda>_. quietWorld) now 0 d))
    \<and> set (dl_Broker d) \<subseteq> set (dl_Broker (snd (FlushLedgeredOutbox cfg accept (\<lambda>_. quietWorld) now 0 d)))"
proof -
  let ?keys = "take 100 (pendingLedgeredOutbox d)"
  have mset: "mset (pendingLedgeredOutbox d) = mset (dl_Outbox d)" by (simp add: pendingLedgeredOutbox_def)
  have wf: "distinct (map fst (dl_Outbox d))" using d by (simp add: drainable_def wf_map_def)
  have dist: "distinct (map fst (pendingLedgeredOutbox d))" using wf mset by (metis mset_map mset_eq_imp_distinct_iff)
  then have dk: "distinct (map fst ?keys)" by (simp flip: take_map)
  have sub: "set ?keys \<subseteq> set (dl_Outbox d)"
    using set_take_subset [of 100 "pendingLedgeredOutbox d"] mset by (metis set_mset_mset)
  have pub: "list_all (publishable (dl_Confirmed d)) ?keys" using d sub by (auto simp: drainable_def list_all_iff)
  obtain n d' where f: "flushLoop accept (\<lambda>_. quietWorld) now 0 ?keys \<lparr>rv_read = False, rv_failed = False, rv_pending = []\<rparr> 0 d = ((n, None), d')"
    and out: "dl_Outbox d' = filter (\<lambda>p. fst p \<notin> set (map fst ?keys)) (dl_Outbox d)"
    and keep: "\<forall>k. k \<notin> set (map fst ?keys) \<longrightarrow> mget (dl_Confirmed d') k = mget (dl_Confirmed d) k"
    and broker: "set (dl_Broker d) \<subseteq> set (dl_Broker d')"
      "\<forall>(k, e) \<in> set ?keys. mget (dl_Confirmed d) k = None \<longrightarrow> (\<exists>b \<in> set (dl_Broker d'). CloneEvent e = Inr b)"
    using flushLoop_quiet [where accept = accept and now = now and i = 0 and published = 0
        and rv = "\<lparr>rv_read = False, rv_failed = False, rv_pending = []\<rparr>", OF dk pub acc]
    by (elim exE conjE, intro that) assumption+
  have F: "snd (FlushLedgeredOutbox cfg accept (\<lambda>_. quietWorld) now 0 d) = d'"
    using cfg f by (simp add: FlushLedgeredOutbox_def ledgeredOutboxBatchSize_def Let_def)
  have left: "p \<in> set ?keys" if gone: "p \<in> set (dl_Outbox d)" "p \<notin> set (dl_Outbox d')" for p
  proof -
    obtain q where q: "q \<in> set ?keys" "fst q = fst p" using gone out by auto
    then have "q \<in> set (dl_Outbox d)" using sub by blast
    then have "q = p" using wf gone(1) q(2) by (metis eq_key_imp_eq_value prod.collapse)
    then show ?thesis using q(1) by simp
  qed
  have "publishable (dl_Confirmed d') p" if "p \<in> set (dl_Outbox d')" for p
    using that d out keep publishable_cong [of "dl_Confirmed d'" p "dl_Confirmed d"]
    by (auto simp: drainable_def list_all_iff)
  then have "drainable d'" using wf out by (simp add: drainable_def list_all_iff wf_map_def distinct_map_filter)
  moreover have "length (dl_Outbox d') = length (dl_Outbox d) - 100 * 1"
    unfolding out using length_filter_taken [OF wf mset] by simp
  moreover have "\<forall>(k, e) \<in> set (dl_Outbox d'). mget (dl_Confirmed d') k = mget (dl_Confirmed d) k"
    using out keep by auto
  moreover have "set (dl_Outbox d') \<subseteq> set (dl_Outbox d)" using out by auto
  ultimately show ?thesis unfolding F drainedTo_def using broker left by blast
qed

lemma drainedToD:
  assumes "drainedTo d0 n d"
  shows "drainable d" "length (dl_Outbox d) = length (dl_Outbox d0) - 100 * n" "set (dl_Outbox d) \<subseteq> set (dl_Outbox d0)"
    "\<And>k e. (k, e) \<in> set (dl_Outbox d) \<Longrightarrow> mget (dl_Confirmed d) k = mget (dl_Confirmed d0) k"
    "\<And>k e. (k, e) \<in> set (dl_Outbox d0) \<Longrightarrow> (k, e) \<notin> set (dl_Outbox d) \<Longrightarrow> mget (dl_Confirmed d0) k = None
       \<Longrightarrow> \<exists>b \<in> set (dl_Broker d). CloneEvent e = Inr b"
  using assms unfolding drainedTo_def by blast+

lemma drainedTo_trans:
  assumes n: "drainedTo d0 n d" and one: "drainedTo d 1 d'" and broker: "set (dl_Broker d) \<subseteq> set (dl_Broker d')"
  shows "drainedTo d0 (Suc n) d'"
  unfolding drainedTo_def
proof (intro conjI ballI; clarify?)
  show "drainable d'" by (rule drainedToD(1) [OF one])
  show "length (dl_Outbox d') = length (dl_Outbox d0) - 100 * Suc n"
    using drainedToD(2) [OF n] drainedToD(2) [OF one] by simp
  show "(k, e) \<in> set (dl_Outbox d0)" if "(k, e) \<in> set (dl_Outbox d')" for k e
    using that drainedToD(3) [OF n] drainedToD(3) [OF one] by blast
  show "mget (dl_Confirmed d') k = mget (dl_Confirmed d0) k" if "(k, e) \<in> set (dl_Outbox d')" for k e
    using that drainedToD(4) [OF n, of k e] drainedToD(4) [OF one, of k e] drainedToD(3) [OF one] by auto
  show "\<exists>b \<in> set (dl_Broker d'). CloneEvent e = Inr b"
    if ke: "(k, e) \<in> set (dl_Outbox d0)" "(k, e) \<notin> set (dl_Outbox d')" "mget (dl_Confirmed d0) k = None" for k e
  proof (cases "(k, e) \<in> set (dl_Outbox d)")
    case True
    then show ?thesis using drainedToD(5) [OF one True ke(2)] drainedToD(4) [OF n True] ke(3) by simp
  next
    case False
    then show ?thesis using drainedToD(5) [OF n ke(1) False ke(3)] broker by blast
  qed
qed

lemma flushRounds_drained:
  assumes d: "drainable d" and cfg: "cf_LedgeredPublisher cfg" and acc: "\<And>b. accept b"
  shows "drainedTo d n (flushRounds cfg accept now n d)"
proof (induction n)
  case 0
  show ?case using d by (simp add: flushRounds_def drainedTo_def)
next
  case (Suc n)
  then have "drainable (flushRounds cfg accept now n d)" by (rule drainedToD(1))
  from flush_round [where accept = accept and now = now, OF this cfg acc] Suc show ?case
    using drainedTo_trans [of d n "flushRounds cfg accept now n d"] by (simp add: flushRounds_def)
qed

subsection \<open>Properties\<close>

definition exampleLedgered :: Event where
  "exampleLedgered = exampleEvent\<lparr>ev_StreamID := ''operation:op1'', ev_Sequence := 1, ev_Hash := ''h''\<rparr>"

definition exampleIntent :: Delivery where
  "exampleIntent = \<lparr>dl_Outbox = [(EventKey ''t1'' ''e1'', exampleLedgered)], dl_Confirmed = [], dl_Broker = []\<rparr>"

text \<open>
  C8. No publication is lost. Whatever the broker refuses, whichever store operation fails in between and
  however the request path and the flush rounds interleave, an event whose intent was recorded by its
  commit is still in the outbox, or the broker has acknowledged a copy of it: the identity-bound
  confirmation is written before the intent is removed.
\<close>

theorem publication_never_lost:
  assumes "deliveryReach cfg ledger recorded d" "ledgerKeys ledger" "key \<in> recorded"
  shows "\<exists>e. ledger key = Some e \<and>
    (mget (dl_Outbox d) key = Some e \<or> (\<exists>b \<in> set (dl_Broker d). CloneEvent e = Inr b))"
  using deliveryReach_inv [OF assms(1,2)] assms(3) unfolding deliveryInv_def by fastforce

theorem publication_never_lost_witness:
  "\<exists>e. mget (dl_Outbox exampleIntent) (EventKey ''t1'' ''e1'') = Some e \<or> (\<exists>b \<in> set []. CloneEvent e = Inr b)"
proof -
  let ?led = "\<lambda>key. if key = EventKey ''t1'' ''e1'' then Some exampleLedgered else None"
  have "deliveryReach exampleConfig ?led (insert (EventKey ''t1'' ''e1'') {})
      (\<lparr>dl_Outbox = [], dl_Confirmed = [], dl_Broker = []\<rparr>\<lparr>dl_Outbox := mput [] (EventKey ''t1'' ''e1'') exampleLedgered\<rparr>)"
    using deliveryReach.intent [OF deliveryReach.start, of ?led "EventKey ''t1'' ''e1''" exampleLedgered] by simp
  then have r: "deliveryReach exampleConfig ?led {EventKey ''t1'' ''e1''} exampleIntent"
    by (simp add: exampleIntent_def mput_def)
  have k: "ledgerKeys ?led" by (simp add: ledgerKeys_def exampleLedgered_def exampleEvent_def)
  show ?thesis using publication_never_lost [OF r k, of "EventKey ''t1'' ''e1''"] by (auto simp: exampleIntent_def)
qed



text \<open>
  C9. At most one publisher per event. In every interleaving of the gate's operations by any number of
  publishers, two publishers inside the publish of the same key are the same publisher: the reference
  count keeps a gate in the table until the last publisher that could lock it has left.
\<close>

theorem one_publisher_per_event:
  assumes "gateStep\<^sup>*\<^sup>* (emptyGates, \<lambda>_. Outside) (t, ps)" "ps i = Inside key g" "ps j = Inside key g'"
  shows "i = j"
proof -
  note inv = gateInvD [OF gateInv_reachable [OF assms(1)]]
  have "g = g'" using inv(3) [of i] inv(3) [of j] assms(2,3) by simp
  then show ?thesis using inv(8) [of g i j] assms(2,3) by simp
qed

theorem one_publisher_per_event_witness:
  "\<exists>t ps. gateStep\<^sup>*\<^sup>* (emptyGates, \<lambda>_. Outside) (t, ps) \<and> ps 0 = Inside ''k'' 0 \<and> ps 1 = Leaving ''k'' 0
     \<and> \<not> (\<exists>i g. i \<noteq> 0 \<and> ps i = Inside ''k'' g)"
proof -
  let ?o = "\<lambda>_::nat. Outside"
  obtain t1 where t1: "ledgeredGateFor ''k'' emptyGates = (0, t1)" "mget (gt_gates t1) ''k'' = Some 0" "\<not> gate_mu (gt_heap t1 0)"
    by (simp add: ledgeredGateFor_def emptyGates_def mput_def mget_def)
  obtain t2 where t2: "gateTryLock 0 t1 = (True, t2)" "mget (gt_gates t2) ''k'' = Some 0" "gate_mu (gt_heap t2 0)"
    using t1(2,3) by (simp add: gateTryLock_def)
  obtain t3 where t3: "ledgeredGateFor ''k'' t2 = (0, t3)" "gate_mu (gt_heap t3 0)"
    using t2(2,3) by (simp add: ledgeredGateFor_def Let_def)
  have t4: "gateTryLock 0 t3 = (False, t3)" using t3(2) by (simp add: gateTryLock_def)
  note s1 = gateStep.reference [where ps = ?o and i = 0, OF refl t1(1)]
  note s2 = gateStep.acquire [where ps = "?o(0 := Referenced ''k'' 0)" and i = 0 and key = "''k''", OF _ t2(1), simplified]
  note s3 = gateStep.reference [where ps = "?o(0 := Inside ''k'' 0)" and i = 1, OF _ t3(1), simplified]
  note s4 = gateStep.contended [where ps = "?o(0 := Inside ''k'' 0, 1 := Referenced ''k'' 0)" and i = 1 and key = "''k''", OF _ t4, simplified]
  have reach: "gateStep\<^sup>*\<^sup>* (emptyGates, ?o) (t3, ?o(0 := Inside ''k'' 0, 1 := Leaving ''k'' 0))"
    using s1 s2 s3 s4 by (auto intro!: rtranclp.rtrancl_into_rtrancl simp: fun_upd_def)
  have "\<not> (\<exists>i g. i \<noteq> 0 \<and> (?o(0 := Inside ''k'' 0, 1 := Leaving ''k'' 0)) i = Inside ''k'' g)"
    using one_publisher_per_event [OF reach, of 0 "''k''" 0] by (metis fun_upd_other fun_upd_same zero_neq_one)
  then show ?thesis using reach by (intro exI conjI) (assumption | simp)+
qed

text \<open>
  The gate table is bounded by the publications in flight. In every reachable state the table has no
  more entries than there are publishers that have not left, whatever number of events was published
  before; no publisher, no entry.
\<close>

lemma gate_table_bounded:
  assumes "gateStep\<^sup>*\<^sup>* (emptyGates, \<lambda>_. Outside) (t, ps)"
  shows "card (set (mkeys (gt_gates t))) \<le> card {i. ps i \<noteq> Outside}"
proof -
  note inv = gateInvD [OF gateInv_reachable [OF assms]]
  have used: "gateUsed (t, ps)" by (rule gateUsed_reachable [OF assms])
  have "\<exists>i. ps i \<noteq> Outside \<and> key = fst (the (publisherKey (ps i)))" if key: "key \<in> set (mkeys (gt_gates t))" for key
  proof -
    obtain g where g: "mget (gt_gates t) key = Some g" using mget_mkeys [of "gt_gates t" key] key by auto
    obtain i where i: "refersTo g (ps i)" using used g by (auto simp: gateUsed_def)
    obtain key' where "publisherKey (ps i) = Some (key', g)" using i by (auto simp: refersTo_key)
    then show ?thesis using inv(5) [OF g] inv(3) [of i key' g] by (intro exI [of _ i]) auto
  qed
  then have "set (mkeys (gt_gates t)) \<subseteq> (\<lambda>i. fst (the (publisherKey (ps i)))) ` {i. ps i \<noteq> Outside}" by blast
  then show ?thesis using inv(2) by (rule surj_card_le [rotated])
qed

end
