(* ===== verification/Ingest.thy ===== *)
theory Ingest
  imports Publication
begin

section \<open>Ingest over the snapshot store: service/service.go, archive_fallback.go, tenant_ingest.go\<close>

text \<open>
  \<open>Ingest\<close> in its three phases. Preparation reads a snapshot: validation, tenant resolution, quota,
  content digest, schema check, protection. The commit is the closure \<open>Store.Update\<close> applies to the
  current snapshot: idempotency, ledger coordinates, hash, receipt, sealing of a full segment. After
  the commit the event and the sealed segments are archived and the receipt advances. The archive is
  the interface of \<open>worm_store\<close>: \<open>put\<close> threads the archive's state, \<open>get\<close> reads it. Deadlines and
  cancellation are failures of these operations.
\<close>

subsection \<open>Archived events (archive_fallback.go)\<close>

definition archivedEvent :: "Config \<Rightarrow> (string \<Rightarrow> string result) \<Rightarrow> EventReceipt \<Rightarrow> Event result" where
  "archivedEvent cfg get r =
     (if \<not> cf_ArchiveConfigured cfg then Inl (Err ErrOther ''archive is not configured'')
      else
        rbind (get (eventArchiveKey (rc_TenantID r) (rc_StreamID r) (rc_Sequence r) (rc_EventID r))) (\<lambda>raw.
        rbind (cf_DecodeEvent cfg raw) (\<lambda>e.
          if ev_EventID e \<noteq> rc_EventID r \<or> ev_TenantID e \<noteq> rc_TenantID r
             \<or> ev_StreamID e \<noteq> rc_StreamID r \<or> ev_Sequence e \<noteq> rc_Sequence r
          then Inl (Err ErrOther ''identity mismatch'')
          else rbind (eventHash e) (\<lambda>hash.
            if rc_Hash r = '''' \<or> hash \<noteq> rc_Hash r then Inl (Err ErrOther ''hash does not match retained receipt'')
            else Inr e))))"

definition eventFromSnapshot :: "Config \<Rightarrow> (string \<Rightarrow> string result) \<Rightarrow> Snapshot \<Rightarrow> string \<Rightarrow> string \<Rightarrow> Event result" where
  "eventFromSnapshot cfg get data tenantID eventID =
     (let key = EventKey tenantID eventID in
      case mget (sn_Events data) key of
        Some e \<Rightarrow> CloneEvent e
      | None \<Rightarrow>
          (case mget (sn_Receipts data) key of
             None \<Rightarrow> Inl (Err ErrNotFound '''')
           | Some r \<Rightarrow>
               if rc_Status r \<noteq> StatusArchived then Inl (Err ErrNotFound '''')
               else rbind (archivedEvent cfg get r) CloneEvent))"

fun resolveHot :: "Snapshot \<Rightarrow> string \<Rightarrow> (Event \<Rightarrow> bool) \<Rightarrow> bool \<Rightarrow> (string \<times> Event) list \<Rightarrow> Event list result" where
  "resolveHot data tenantID predicate checkCoordinates [] = Inr []"
| "resolveHot data tenantID predicate checkCoordinates ((key, e) # rest) =
     (if tenantID \<noteq> '''' \<and> ev_TenantID e \<noteq> tenantID then resolveHot data tenantID predicate checkCoordinates rest
      else
        let keep = rbind (CloneEvent e) (\<lambda>cloned.
              rbind (resolveHot data tenantID predicate checkCoordinates rest) (\<lambda>events.
                Inr (if predicate cloned then cloned # events else events)))
        in if sn_LayoutVersion data \<ge> 2 then
             (case mget (sn_Receipts data) key of
                None \<Rightarrow> resolveHot data tenantID predicate checkCoordinates rest
              | Some r \<Rightarrow>
                  if checkCoordinates \<and> (rc_TenantID r \<noteq> ev_TenantID e \<or> rc_EventID r \<noteq> ev_EventID e
                       \<or> rc_StreamID r \<noteq> ev_StreamID e \<or> rc_Sequence r \<noteq> ev_Sequence e \<or> rc_Hash r \<noteq> ev_Hash e)
                  then Inl (Err ErrConflict '''') else keep)
           else keep)"

fun resolveCold :: "Config \<Rightarrow> (string \<Rightarrow> string result) \<Rightarrow> Snapshot \<Rightarrow> (Event \<Rightarrow> bool) \<Rightarrow> string list \<Rightarrow> Event list result" where
  "resolveCold cfg get data predicate [] = Inr []"
| "resolveCold cfg get data predicate (key # keys) =
     rbind (archivedEvent cfg get (mget_or zeroReceipt (sn_Receipts data) key)) (\<lambda>e.
     rbind (CloneEvent e) (\<lambda>cloned.
     rbind (resolveCold cfg get data predicate keys) (\<lambda>events.
       Inr (if predicate cloned then cloned # events else events))))"

definition archivedKeys :: "Snapshot \<Rightarrow> string \<Rightarrow> string list" where
  "archivedKeys data tenantID =
     sort_slice (<) (map fst (filter (\<lambda>kr. (tenantID = '''' \<or> rc_TenantID (snd kr) = tenantID)
        \<and> rc_Status (snd kr) = StatusArchived \<and> mget (sn_Events data) (fst kr) = None) (sn_Receipts data)))"

definition resolveSnapshotEvents :: "Config \<Rightarrow> (string \<Rightarrow> string result) \<Rightarrow> Snapshot \<Rightarrow> string \<Rightarrow> (Event \<Rightarrow> bool) \<Rightarrow> bool
     \<Rightarrow> Event list result" where
  "resolveSnapshotEvents cfg get data tenantID predicate checkCoordinates =
     rbind (resolveHot data tenantID predicate checkCoordinates (sn_Events data)) (\<lambda>hot.
     rbind (resolveCold cfg get data predicate (archivedKeys data tenantID)) (\<lambda>cold. Inr (hot @ cold)))"

definition eventsFromSnapshot :: "Config \<Rightarrow> (string \<Rightarrow> string result) \<Rightarrow> Snapshot \<Rightarrow> string \<Rightarrow> (Event \<Rightarrow> bool) \<Rightarrow> Event list result" where
  "eventsFromSnapshot cfg get data tenantID predicate = resolveSnapshotEvents cfg get data tenantID predicate True"

subsection \<open>Idempotency\<close>

definition idempotencyKeyReused :: "Snapshot \<Rightarrow> string \<Rightarrow> string \<Rightarrow> string \<Rightarrow> bool" where
  "idempotencyKeyReused data tenantID eventKey idempotencyKey \<longleftrightarrow>
     (\<exists>(key, e) \<in> set (sn_Events data). key \<noteq> eventKey \<and> ev_TenantID e = tenantID \<and> ev_IdempotencyKey e = idempotencyKey)
     \<or> (\<exists>(key, r) \<in> set (sn_Receipts data). key \<noteq> eventKey \<and> rc_TenantID r = tenantID
          \<and> rc_IdempotencyKey r \<noteq> '''' \<and> rc_IdempotencyKey r = idempotencyKey)"

text \<open>
  What the commit finds under the event's key: nothing, or an answer. The conflict marker the source
  writes into the snapshot on a content conflict is discarded with the failed update.
\<close>

datatype existing = NoExisting | Existing EventReceipt "error option"

definition checkExistingIngest :: "Config \<Rightarrow> (string \<Rightarrow> string result) \<Rightarrow> Snapshot \<Rightarrow> string \<Rightarrow> string \<Rightarrow> string \<Rightarrow> existing" where
  "checkExistingIngest cfg get data tenantID eventID inputDigest =
     (let key = EventKey tenantID eventID;
          decide = (\<lambda>e.
            case reconstructAndDerive cfg e (sn_Schemas data) of
              Inl err \<Rightarrow> Existing zeroReceipt (Some err)
            | Inr existingDigest \<Rightarrow>
                let receipt = mget_or zeroReceipt (sn_Receipts data) key in
                if existingDigest = inputDigest then Existing (receipt\<lparr>rc_Duplicate := True\<rparr>) None
                else Existing (receipt\<lparr>rc_Conflict := True, rc_ErrorCode := ''event_id_content_conflict'',
                       rc_ErrorMessage := ''event_id already exists with different canonical content''\<rparr>)
                     (Some (Err ErrConflict ''event_id content differs'')))
      in case mget (sn_Events data) key of
           Some e \<Rightarrow> decide e
         | None \<Rightarrow>
             (case mget (sn_Receipts data) key of
                None \<Rightarrow> NoExisting
              | Some stored \<Rightarrow>
                  if rc_Status stored \<noteq> StatusArchived then NoExisting
                  else (case archivedEvent cfg get stored of
                          Inl err \<Rightarrow> Existing zeroReceipt (Some err)
                        | Inr e \<Rightarrow> decide e)))"

definition conflictReceipt :: "string \<Rightarrow> Event \<Rightarrow> EventReceipt" where
  "conflictReceipt tenantID e =
     zeroReceipt\<lparr>rc_EventID := ev_EventID e, rc_TenantID := tenantID, rc_IdempotencyKey := ev_IdempotencyKey e,
       rc_Conflict := True, rc_ErrorCode := ''idempotency_key_conflict'',
       rc_ErrorMessage := ''idempotency_key is already associated with another event''\<rparr>"

subsection \<open>Quota\<close>

record quotaWindow =
  qw_Started :: time
  qw_Count :: int

definition checkTenantAndQuota :: "Snapshot \<Rightarrow> quotaWindow gomap \<Rightarrow> time \<Rightarrow> string \<Rightarrow> error option \<times> quotaWindow gomap" where
  "checkTenantAndQuota data quotas now tenantID =
     (case mget (sn_Tenants data) tenantID of
        None \<Rightarrow> (Some (Err ErrNotFound ''''), quotas)
      | Some tenant \<Rightarrow>
          if \<not> tn_Active tenant then (Some (Err ErrNotFound ''''), quotas)
          else if tn_EventsPerSecond tenant \<le> 0 then (None, quotas)
          else
            let window0 = mget_or \<lparr>qw_Started = 0, qw_Count = 0\<rparr> quotas tenantID;
                window = (if qw_Started window0 = 0 \<or> now - qw_Started window0 \<ge> 1000000000
                          then \<lparr>qw_Started = now, qw_Count = 0\<rparr> else window0);
                sum = wrap64 (tn_EventsPerSecond tenant + tn_Burst tenant);
                limit = (if sum \<le> 0 then tn_EventsPerSecond tenant else sum)
            in if qw_Count window \<ge> limit then (Some (Err ErrQuotaExceeded ''''), mput quotas tenantID window)
               else (None, mput quotas tenantID (window\<lparr>qw_Count := qw_Count window + 1\<rparr>)))"

subsection \<open>Preparation\<close>

definition supportedWait :: "string \<Rightarrow> bool" where
  "supportedWait waitFor \<longleftrightarrow>
     waitFor \<in> {'''', StatusAccepted, StatusLedgered, StatusIndexed, StatusArchived}"

record Prepared =
  pr_TenantID :: string
  pr_InputDigest :: string
  pr_Event :: Event

definition stampEvent :: "Config \<Rightarrow> time \<Rightarrow> string \<Rightarrow> Event \<Rightarrow> Event" where
  "stampEvent cfg now tenantID e =
     e\<lparr>ev_StreamID := '''', ev_TenantID := tenantID, ev_ReceivedAt := now, ev_ServerVersion := cf_ServerVersion cfg,
       ev_SourceDigest := ''''\<rparr>"

definition ingestPrepare :: "Config \<Rightarrow> (nat \<Rightarrow> bytes) \<Rightarrow> Snapshot \<Rightarrow> quotaWindow gomap \<Rightarrow> time \<Rightarrow> string \<Rightarrow> string
     \<Rightarrow> Event \<Rightarrow> string \<Rightarrow> Prepared result \<times> quotaWindow gomap" where
  "ingestPrepare cfg rnd data quotas now tenantHint clientID event0 waitFor =
     (if \<not> supportedWait waitFor then (Inl (Err ErrInvalid ''unsupported wait_for value''), quotas)
      else case CloneEvent event0 of Inl err \<Rightarrow> (Inl err, quotas) | Inr e \<Rightarrow>
      case ValidateBasic e of Some err \<Rightarrow> (Inl err, quotas) | None \<Rightarrow>
      case ifPresent requireTenantScope tenantHint of Some err \<Rightarrow> (Inl err, quotas) | None \<Rightarrow>
      case resolveIngestTenantFromData data tenantHint clientID (ev_SourceSystem e) of
        Inl err \<Rightarrow> (Inl err, quotas)
      | Inr tenantID \<Rightarrow>
      case requireTenantScope tenantID of Some err \<Rightarrow> (Inl err, quotas) | None \<Rightarrow>
      if ev_TenantID e \<noteq> '''' \<and> ev_TenantID e \<noteq> tenantID
      then (Inl (Err ErrTenantMismatch ''envelope tenant_id does not match''), quotas)
      else case checkTenantAndQuota data quotas now tenantID of
        (Some err, quotas1) \<Rightarrow> (Inl err, quotas1)
      | (None, quotas1) \<Rightarrow>
          (let stamped = stampEvent cfg now tenantID e in
           rbind (EventContentDigest stamped) (\<lambda>sourceDigest.
             let digested = stamped\<lparr>ev_SourceDigest := sourceDigest\<rparr> in
             rbind (validateEvent cfg data tenantID clientID digested) (\<lambda>schema.
             rbind (protectSensitiveFields cfg rnd digested schema) (\<lambda>protected.
               Inr \<lparr>pr_TenantID = tenantID, pr_InputDigest = sourceDigest, pr_Event = protected\<rparr>))),
           quotas1))"

subsection \<open>Commit\<close>

definition currentStream :: "Snapshot \<Rightarrow> string \<Rightarrow> string \<Rightarrow> StreamState" where
  "currentStream data tenantID streamID =
     (let stream = mget_or zeroStream (sn_Streams data) (StreamKey tenantID streamID) in
      if st_StreamID stream = ''''
      then zeroStream\<lparr>st_TenantID := tenantID, st_StreamID := streamID, st_NextSequence := 1\<rparr> else stream)"

definition placeEvent :: "StreamState \<Rightarrow> string \<Rightarrow> Event \<Rightarrow> Event result" where
  "placeEvent stream streamID e =
     (let placed = e\<lparr>ev_StreamID := streamID, ev_Sequence := st_NextSequence stream, ev_PrevHash := st_HeadHash stream\<rparr>
      in rbind (eventHash placed) (\<lambda>hash. Inr (placed\<lparr>ev_Hash := hash\<rparr>)))"

definition extendStream :: "StreamState \<Rightarrow> string \<Rightarrow> Event \<Rightarrow> StreamState" where
  "extendStream stream key e =
     (let hashes = st_PendingHashes stream @ [ev_Hash e] in
      stream\<lparr>st_NextSequence := st_NextSequence stream + 1, st_HeadHash := ev_Hash e, st_PendingHashes := hashes,
        st_PendingEvents := st_PendingEvents stream @ [key],
        st_PendingPrevHash := (if length hashes = 1 then ev_PrevHash e else st_PendingPrevHash stream)\<rparr>)"

definition ledgeredReceipt :: "string \<Rightarrow> Event \<Rightarrow> EventReceipt" where
  "ledgeredReceipt tenantID e =
     zeroReceipt\<lparr>rc_EventID := ev_EventID e, rc_TenantID := tenantID, rc_IdempotencyKey := ev_IdempotencyKey e,
       rc_Status := StatusLedgered, rc_AcceptedAt := ev_ReceivedAt e, rc_LedgeredAt := ev_ReceivedAt e,
       rc_StreamID := ev_StreamID e, rc_Sequence := ev_Sequence e, rc_Hash := ev_Hash e\<rparr>"

definition clearPending :: "StreamState \<Rightarrow> StreamState" where
  "clearPending stream = stream\<lparr>st_PendingHashes := [], st_PendingEvents := [], st_PendingPrevHash := ''''\<rparr>"

definition recordSeal :: "string \<Rightarrow> StreamState \<Rightarrow> Segment \<times> Checkpoint \<Rightarrow> Snapshot \<Rightarrow> Snapshot" where
  "recordSeal streamKey stream gc data =
     data\<lparr>sn_Segments := mput (sn_Segments data) streamKey (mget_or [] (sn_Segments data) streamKey @ [fst gc]),
          sn_Checkpoints := mput (sn_Checkpoints data) streamKey (mget_or [] (sn_Checkpoints data) streamKey @ [snd gc]),
          sn_Streams := mput (sn_Streams data) streamKey (clearPending stream)\<rparr>"

definition appendLedger :: "Config \<Rightarrow> string \<Rightarrow> string \<Rightarrow> Event \<Rightarrow> Snapshot \<Rightarrow> (Event \<times> Segment list \<times> Snapshot) result" where
  "appendLedger cfg newID tenantID e data =
     (let key = EventKey tenantID (ev_EventID e); streamID = Stream e; streamKey = StreamKey tenantID streamID;
          stream0 = currentStream data tenantID streamID
      in rbind (placeEvent stream0 streamID e) (\<lambda>placed.
           let stream = extendStream stream0 key placed;
               data1 = data\<lparr>sn_Streams := mput (sn_Streams data) streamKey stream,
                            sn_Events := mput (sn_Events data) key placed,
                            sn_LedgeredOutbox := (if cf_LedgeredPublisher cfg then mput (sn_LedgeredOutbox data) key placed
                                                  else sn_LedgeredOutbox data),
                            sn_Receipts := mput (sn_Receipts data) key (ledgeredReceipt tenantID placed)\<rparr>
           in if int (length (st_PendingHashes stream)) \<ge> cf_SegmentSize cfg then
                rbind (sealSegment cfg newID stream (ev_ReceivedAt e)) (\<lambda>gc.
                  Inr (placed, [fst gc], recordSeal streamKey stream gc data1))
              else Inr (placed, [], data1)))"

datatype commit = Refused EventReceipt error | Duplicate EventReceipt | Committed EventReceipt Event "Segment list" Snapshot

definition ingestCommit :: "Config \<Rightarrow> (string \<Rightarrow> string result) \<Rightarrow> string \<Rightarrow> string \<Rightarrow> string \<Rightarrow> Prepared \<Rightarrow> Snapshot \<Rightarrow> commit" where
  "ingestCommit cfg get newID tenantHint clientID p data =
     (let e = pr_Event p; tenantID = pr_TenantID p; key = EventKey tenantID (ev_EventID e) in
      if resolveIngestTenantFromData data tenantHint clientID (ev_SourceSystem e) \<noteq> Inr tenantID
      then Refused zeroReceipt sourceAccessError
      else case checkExistingIngest cfg get data tenantID (ev_EventID e) (pr_InputDigest p) of
        Existing receipt (Some err) \<Rightarrow> Refused receipt err
      | Existing receipt None \<Rightarrow> Duplicate receipt
      | NoExisting \<Rightarrow>
          if idempotencyKeyReused data tenantID key (ev_IdempotencyKey e)
          then Refused (conflictReceipt tenantID e) (Err ErrConflict ''idempotency_key is already associated with another event'')
          else (case appendLedger cfg newID tenantID e data of
                  Inl err \<Rightarrow> Refused zeroReceipt err
                | Inr (placed, sealed, data') \<Rightarrow> Committed (ledgeredReceipt tenantID placed) placed sealed data'))"

subsection \<open>After the commit\<close>

definition transitionReceipt :: "Snapshot \<Rightarrow> time \<Rightarrow> string \<Rightarrow> string \<Rightarrow> string \<Rightarrow> bool \<Rightarrow> (EventReceipt \<times> Snapshot) result" where
  "transitionReceipt data now tenantID eventID status evict =
     (let key = EventKey tenantID eventID in
      case mget (sn_Receipts data) key of
        None \<Rightarrow> Inl (Err ErrNotFound '''')
      | Some r \<Rightarrow>
          let r1 = r\<lparr>rc_Status := status, rc_IndexedAt := now, rc_ArchivedAt := (if evict then now else rc_ArchivedAt r)\<rparr>
          in Inr (r1, data\<lparr>sn_Receipts := mput (sn_Receipts data) key r1,
                           sn_Events := (if evict then mdel (sn_Events data) key else sn_Events data)\<rparr>))"

fun archiveAll :: "('s \<Rightarrow> string \<Rightarrow> string \<Rightarrow> error option \<times> 's) \<Rightarrow> 's \<Rightarrow> Segment list \<Rightarrow> error list \<times> 's" where
  "archiveAll put s [] = ([], s)"
| "archiveAll put s (g # gs) =
     (case archiveSegment put s g of (r, s1) \<Rightarrow>
        (case archiveAll put s1 gs of (errs, s2) \<Rightarrow> ((case r of None \<Rightarrow> errs | Some e \<Rightarrow> e # errs), s2)))"

text \<open>
  The service's state: the snapshot, the archive, the quota windows, and the publication confirmations
  with the broker's log. The environment of one call: the clock, the identifier and random sources, the
  archive, the broker and the failures of the delivery path.
\<close>

record 's Service =
  sv_Data :: Snapshot
  sv_Archive :: 's
  sv_Quotas :: "quotaWindow gomap"
  sv_Confirmed :: "publicationConfirmation gomap"
  sv_Broker :: "Event list"

record 's Env =
  en_Now :: time
  en_NewID :: string
  en_Random :: "nat \<Rightarrow> bytes"
  en_Put :: "'s \<Rightarrow> string \<Rightarrow> string \<Rightarrow> error option \<times> 's"
  en_Get :: "'s \<Rightarrow> string \<Rightarrow> string result"
  en_Accept :: "Event \<Rightarrow> bool"
  en_Faults :: DeliveryFaults
  en_Busy :: bool

definition servicePublish :: "Config \<Rightarrow> 's Env \<Rightarrow> Event \<Rightarrow> 's Service \<Rightarrow> 's Service" where
  "servicePublish cfg env e sv =
     (let d = publishLedgered cfg (en_Accept env) (en_Faults env) (en_Now env) (en_Busy env) e
            \<lparr>dl_Outbox = sn_LedgeredOutbox (sv_Data sv), dl_Confirmed = sv_Confirmed sv, dl_Broker = sv_Broker sv\<rparr>
      in sv\<lparr>sv_Data := (sv_Data sv)\<lparr>sn_LedgeredOutbox := dl_Outbox d\<rparr>, sv_Confirmed := dl_Confirmed d, sv_Broker := dl_Broker d\<rparr>)"

text \<open>The answer to the caller once the receipt is final.\<close>

definition ingestAnswer :: "string \<Rightarrow> EventReceipt \<Rightarrow> EventReceipt" where
  "ingestAnswer waitFor r =
     (if waitFor = ''accepted'' \<or> waitFor = ''''
      then r\<lparr>rc_Status := StatusAccepted, rc_LedgeredAt := 0, rc_IndexedAt := 0, rc_ArchivedAt := 0\<rparr> else r)"

definition ingestFinish :: "Config \<Rightarrow> 's Env \<Rightarrow> string \<Rightarrow> string \<Rightarrow> EventReceipt \<Rightarrow> Event \<Rightarrow> Segment list
     \<Rightarrow> 's Service \<Rightarrow> (EventReceipt \<times> error option) \<times> 's Service" where
  "ingestFinish cfg env tenantID waitFor receipt e sealed sv0 =
     (let sv = servicePublish cfg env e sv0;
          advance = (\<lambda>status evict sv1 failed.
            case transitionReceipt (sv_Data sv1) (en_Now env) tenantID (ev_EventID e) status evict of
              Inl err \<Rightarrow> ((receipt, Some err), sv1)
            | Inr (r, data) \<Rightarrow>
                let sv2 = sv1\<lparr>sv_Data := data\<rparr> in
                (case failed of
                   Some err \<Rightarrow> if waitFor = StatusArchived then ((r, Some err), sv2) else ((ingestAnswer waitFor r, None), sv2)
                 | None \<Rightarrow> ((ingestAnswer waitFor r, None), sv2)))
      in if cf_ArchiveConfigured cfg then
           (case archiveEvent (en_Put env) (sv_Archive sv) e of (r1, s1) \<Rightarrow>
            case archiveAll (en_Put env) s1 sealed of (errs, s2) \<Rightarrow>
              let sv1 = sv\<lparr>sv_Archive := s2\<rparr>; all_errs = (case r1 of None \<Rightarrow> errs | Some err \<Rightarrow> err # errs)
              in (case all_errs of
                    [] \<Rightarrow> advance StatusArchived True sv1 None
                  | err # _ \<Rightarrow> advance StatusIndexed False sv1 (Some err)))
         else advance StatusIndexed False sv None)"

definition Ingest :: "Config \<Rightarrow> 's Env \<Rightarrow> string \<Rightarrow> string \<Rightarrow> Event \<Rightarrow> string \<Rightarrow> 's Service
     \<Rightarrow> (EventReceipt \<times> error option) \<times> 's Service" where
  "Ingest cfg env tenantHint clientID event0 waitFor sv =
     (case ingestPrepare cfg (en_Random env) (sv_Data sv) (sv_Quotas sv) (en_Now env) tenantHint clientID event0 waitFor of
        (Inl err, quotas) \<Rightarrow> ((zeroReceipt, Some err), sv\<lparr>sv_Quotas := quotas\<rparr>)
      | (Inr p, quotas) \<Rightarrow>
          let sv1 = sv\<lparr>sv_Quotas := quotas\<rparr> in
          (case ingestCommit cfg (en_Get env (sv_Archive sv)) (en_NewID env) tenantHint clientID p (sv_Data sv) of
             Refused receipt err \<Rightarrow> ((if errors_is err ErrConflict then receipt else zeroReceipt, Some err), sv1)
           | Duplicate receipt \<Rightarrow>
               if waitFor = StatusArchived \<and> cf_ArchiveConfigured cfg \<and> rc_Status receipt \<noteq> StatusArchived
               then ((receipt, Some (Err ErrOther ''event is not archived; retry archival'')), sv1)
               else ((receipt, None), sv1)
           | Committed receipt e sealed data \<Rightarrow>
               ingestFinish cfg env (pr_TenantID p) waitFor receipt e sealed (sv1\<lparr>sv_Data := data\<rparr>)))"

end
