(* ===== verification/Sealing.thy ===== *)
theory Sealing
  imports Ingest
begin

section \<open>Sealing and archival: service/sealing.go\<close>

text \<open>
  The governance worker's passes over the snapshot store: sealing partial streams, the archive pass
  that writes the captured events and segments and then marks receipts and evicts bodies in one
  update, and the dead letters of evidence that can never be archived. The archive pass is split where
  the source releases the store: the plan is read from one snapshot, the closure is applied to the
  snapshot current at the update.
\<close>

subsection \<open>SealPendingSegments\<close>

fun sealLoop :: "Config \<Rightarrow> (nat \<Rightarrow> string) \<Rightarrow> time \<Rightarrow> string \<Rightarrow> nat \<Rightarrow> (string \<times> StreamState) list \<Rightarrow> Snapshot
     \<Rightarrow> (bool \<times> Snapshot) result" where
  "sealLoop cfg newID now tenantID i [] data = Inr (False, data)"
| "sealLoop cfg newID now tenantID i ((key, stream) # rest) data =
     (if st_TenantID stream \<noteq> tenantID \<or> st_PendingHashes stream = [] then sealLoop cfg newID now tenantID (Suc i) rest data
      else rbind (sealSegment cfg (newID i) stream now) (\<lambda>gc.
           rbind (sealLoop cfg newID now tenantID (Suc i) rest (recordSeal key stream gc data)) (\<lambda>r. Inr (True, snd r))))"

definition SealPendingSegments :: "Config \<Rightarrow> (nat \<Rightarrow> string) \<Rightarrow> time \<Rightarrow> string \<Rightarrow> Snapshot \<Rightarrow> (bool \<times> Snapshot) result" where
  "SealPendingSegments cfg newID now tenantID data =
     guardE (requireTenantScope tenantID) (sealLoop cfg newID now tenantID 0 (sn_Streams data) data)"

subsection \<open>Dead letters\<close>

definition isPermanentArchiveError :: "error \<Rightarrow> bool" where
  "isPermanentArchiveError err \<longleftrightarrow> errors_is err ErrArchiveKeyTooLong \<or> errors_is err ErrObjectConflict"

definition archiveErrorReason :: "error \<Rightarrow> string" where
  "archiveErrorReason err =
     (if errors_is err ErrArchiveKeyTooLong then ''archive_key_too_long''
      else if errors_is err ErrObjectConflict then ''archive_object_conflict''
      else ''archive_permanent_failure'')"

definition boundedErrorMessage :: "error \<Rightarrow> string" where
  "boundedErrorMessage err = take 512 (err_text err)"

definition segmentEventID :: "Segment \<Rightarrow> string" where
  "segmentEventID g =
     ''seg'' @ [KeySeparator] @ sg_StreamID g @ '':'' @ itoa (sg_FirstSequence g) @ ''-'' @ itoa (sg_LastSequence g)"

definition segmentDeadLetterKey :: "Segment \<Rightarrow> string \<times> string" where
  "segmentDeadLetterKey g = (EventKey (sg_TenantID g) (segmentEventID g), segmentEventID g)"

definition isSegmentDeadLetter :: "DeadLetter \<Rightarrow> bool" where
  "isSegmentDeadLetter dead \<longleftrightarrow> HasPrefix (dl_EventID dead) (''seg'' @ [KeySeparator])"

definition deadLetter :: "string \<Rightarrow> string \<Rightarrow> string \<Rightarrow> int \<Rightarrow> time \<Rightarrow> error \<Rightarrow> DeadLetter" where
  "deadLetter tenantID eventID streamID sequence now err =
     \<lparr>dl_TenantID = tenantID, dl_EventID = eventID, dl_StreamID = streamID, dl_Sequence = sequence,
       dl_Reason = archiveErrorReason err, dl_ErrorMessage = boundedErrorMessage err, dl_At = now\<rparr>"

definition ListDeadLetters :: "Snapshot \<Rightarrow> string \<Rightarrow> DeadLetter list result" where
  "ListDeadLetters data tenantID =
     guardE (requireTenantScope tenantID)
       (Inr (sort_slice (\<lambda>a b. if dl_At a \<noteq> dl_At b then dl_At a < dl_At b else dl_EventID a < dl_EventID b)
          (filter (\<lambda>d. dl_TenantID d = tenantID) (mvals (sn_DeadLetters data)))))"

definition ClearDeadLetter :: "string \<Rightarrow> string \<Rightarrow> Snapshot \<Rightarrow> Snapshot result" where
  "ClearDeadLetter tenantID eventID data =
     guardE (requireTenantScope tenantID)
       (let key = EventKey tenantID eventID; data1 = data\<lparr>sn_DeadLetters := mdel (sn_DeadLetters data) key\<rparr> in
        Inr (case mget (sn_Receipts data1) key of
               None \<Rightarrow> data1
             | Some r \<Rightarrow> data1\<lparr>sn_Receipts := mput (sn_Receipts data1) key (r\<lparr>rc_ErrorCode := '''', rc_ErrorMessage := ''''\<rparr>)\<rparr>))"

definition RecordArchivePassConflict :: "string \<Rightarrow> Snapshot \<Rightarrow> Snapshot result" where
  "RecordArchivePassConflict tenantID data =
     guardE (requireTenantScope tenantID)
       (Inr (data\<lparr>sn_ArchiveConflictFailures := mput (sn_ArchiveConflictFailures data) tenantID
          (mget_or 0 (sn_ArchiveConflictFailures data) tenantID + 1)\<rparr>))"

definition ArchivePassConflictFailures :: "string \<Rightarrow> Snapshot \<Rightarrow> int result" where
  "ArchivePassConflictFailures tenantID data =
     guardE (requireTenantScope tenantID) (Inr (mget_or 0 (sn_ArchiveConflictFailures data) tenantID))"

subsection \<open>ArchivePending\<close>

record ArchivePlan =
  ap_Events :: "Event list"
  ap_Evicted :: "string list"
  ap_Segments :: "Segment list"

definition archivePlan :: "string \<Rightarrow> Snapshot \<Rightarrow> ArchivePlan" where
  "archivePlan tenantID data =
     (let live = filter (\<lambda>(key, e). ev_TenantID e = tenantID \<and> mget (sn_DeadLetters data) key = None) (sn_Events data);
          archived = (\<lambda>(key, e). rc_Status (mget_or zeroReceipt (sn_Receipts data) key) = StatusArchived);
          owned = filter (\<lambda>(key, gs). case SplitTenantKey key of (tid, _, ok) \<Rightarrow> ok \<and> tid = tenantID) (sn_Segments data)
      in \<lparr>ap_Events = map snd (filter (\<lambda>p. \<not> archived p) live),
          ap_Evicted = map fst (filter archived live),
          ap_Segments = filter (\<lambda>g. mget (sn_DeadLetters data) (fst (segmentDeadLetterKey g)) = None) (concat (map snd owned))\<rparr>)"

fun archiveSegments :: "('s \<Rightarrow> string \<Rightarrow> string \<Rightarrow> error option \<times> 's) \<Rightarrow> time \<Rightarrow> string \<Rightarrow> Segment list \<Rightarrow> DeadLetter gomap \<Rightarrow> 's
     \<Rightarrow> DeadLetter gomap result \<times> 's" where
  "archiveSegments put now tenantID [] dead s = (Inr dead, s)"
| "archiveSegments put now tenantID (g # gs) dead s =
     (case archiveSegment put s g of
        (None, s1) \<Rightarrow> archiveSegments put now tenantID gs dead s1
      | (Some err, s1) \<Rightarrow>
          if \<not> isPermanentArchiveError err then (Inl err, s1)
          else archiveSegments put now tenantID gs
                 (mput dead (fst (segmentDeadLetterKey g))
                    (deadLetter tenantID (snd (segmentDeadLetterKey g)) (sg_StreamID g) (sg_FirstSequence g) now err)) s1)"

fun archiveEvents :: "('s \<Rightarrow> string \<Rightarrow> string \<Rightarrow> error option \<times> 's) \<Rightarrow> time \<Rightarrow> string \<Rightarrow> Event list \<Rightarrow> DeadLetter gomap \<Rightarrow> 's
     \<Rightarrow> (Event list \<times> DeadLetter gomap) result \<times> 's" where
  "archiveEvents put now tenantID [] dead s = (Inr ([], dead), s)"
| "archiveEvents put now tenantID (e # es) dead s =
     (case archiveEvent put s e of
        (None, s1) \<Rightarrow>
          (case archiveEvents put now tenantID es dead s1 of
             (Inl err, s2) \<Rightarrow> (Inl err, s2)
           | (Inr (done, dead'), s2) \<Rightarrow> (Inr (e # done, dead'), s2))
      | (Some err, s1) \<Rightarrow>
          if \<not> isPermanentArchiveError err then (Inl err, s1)
          else archiveEvents put now tenantID es
                 (mput dead (EventKey tenantID (ev_EventID e))
                    (deadLetter tenantID (ev_EventID e) (ev_StreamID e) (ev_Sequence e) now err)) s1)"

definition evictArchived :: "string \<Rightarrow> Snapshot \<Rightarrow> Snapshot" where
  "evictArchived key data =
     (case mget (sn_Receipts data) key of
        None \<Rightarrow> data
      | Some r \<Rightarrow> if rc_Status r = StatusArchived then data\<lparr>sn_Events := mdel (sn_Events data) key\<rparr> else data)"

fun markArchived :: "time \<Rightarrow> string \<Rightarrow> Event list \<Rightarrow> Snapshot \<Rightarrow> Snapshot result" where
  "markArchived now tenantID [] data = Inr data"
| "markArchived now tenantID (e # es) data =
     (let key = EventKey tenantID (ev_EventID e) in
      case mget (sn_Receipts data) key of
        None \<Rightarrow> Inl (Err ErrNotFound '''')
      | Some r \<Rightarrow>
          markArchived now tenantID es
            (data\<lparr>sn_Receipts := mput (sn_Receipts data) key
                     (r\<lparr>rc_Status := StatusArchived, rc_IndexedAt := now, rc_ArchivedAt := now\<rparr>),
                  sn_Events := mdel (sn_Events data) key\<rparr>))"

fun recordDead :: "(string \<times> DeadLetter) list \<Rightarrow> Snapshot \<Rightarrow> Snapshot result" where
  "recordDead [] data = Inr data"
| "recordDead ((key, dead) # rest) data =
     (let data1 = data\<lparr>sn_DeadLetters := mput (sn_DeadLetters data) key dead\<rparr> in
      case mget (sn_Receipts data1) key of
        None \<Rightarrow> if isSegmentDeadLetter dead then recordDead rest data1 else Inl (Err ErrNotFound '''')
      | Some r \<Rightarrow>
          recordDead rest (data1\<lparr>sn_Receipts := mput (sn_Receipts data1) key
            (r\<lparr>rc_ErrorCode := ''archive_dead_letter'', rc_ErrorMessage := dl_ErrorMessage dead\<rparr>)\<rparr>))"

definition archiveCommit :: "time \<Rightarrow> string \<Rightarrow> string list \<Rightarrow> Event list \<Rightarrow> DeadLetter gomap \<Rightarrow> Snapshot \<Rightarrow> Snapshot result" where
  "archiveCommit now tenantID evicted archived dead data =
     rbind (markArchived now tenantID archived (fold evictArchived evicted data)) (\<lambda>data1.
     rbind (recordDead dead data1) (\<lambda>data2.
       Inr (data2\<lparr>sn_ArchiveConflictFailures := mput (sn_ArchiveConflictFailures data2) tenantID 0\<rparr>)))"

text \<open>\<open>later\<close> is what other writers commit between the read of the plan and the update.\<close>

definition ArchivePending :: "Config \<Rightarrow> ('s \<Rightarrow> string \<Rightarrow> string \<Rightarrow> error option \<times> 's) \<Rightarrow> time \<Rightarrow> string \<Rightarrow> (Snapshot \<Rightarrow> Snapshot)
     \<Rightarrow> Snapshot \<times> 's \<Rightarrow> int result \<times> Snapshot \<times> 's" where
  "ArchivePending cfg put now tenantID later = (\<lambda>(data, s).
     case requireTenantScope tenantID of Some err \<Rightarrow> (Inl err, data, s) | None \<Rightarrow>
     if \<not> cf_ArchiveConfigured cfg then (Inl (Err ErrInvalid ''archive directory is not configured''), data, s)
     else
       let plan = archivePlan tenantID data in
       case archiveSegments put now tenantID (ap_Segments plan) [] s of
         (Inl err, s1) \<Rightarrow> (Inl err, later data, s1)
       | (Inr dead, s1) \<Rightarrow>
       case archiveEvents put now tenantID (ap_Events plan) dead s1 of
         (Inl err, s2) \<Rightarrow> (Inl err, later data, s2)
       | (Inr (done, dead'), s2) \<Rightarrow>
           if done = [] \<and> dead' = [] \<and> ap_Evicted plan = [] then (Inr 0, later data, s2)
           else (case archiveCommit now tenantID (ap_Evicted plan) done dead' (later data) of
                   Inl err \<Rightarrow> (Inl err, later data, s2)
                 | Inr data' \<Rightarrow> (Inr (int (length done)), data', s2)))"

end
