(* ===== verification/Integrity.thy ===== *)
theory Integrity
  imports Sealing Admin
begin

section \<open>Integrity verification and aggregate attestations: service/integrity.go, aggregate_attestation.go, aggregate_checkpoint.go\<close>

text \<open>
  The three layers of verification over one snapshot: the per-event chain and content check, the
  Merkle root and signed manifest of each segment, the signed aggregate of each tenant's checkpoints.
  Diagnostics are the model's \<open>defect\<close> values in place of their formatted texts. Cancellation of the
  caller is not modelled.
\<close>

subsection \<open>Aggregate attestations\<close>

definition aggregateAttestationVersion :: int where
  "aggregateAttestationVersion = 2"

definition laterCheckpoint :: "Checkpoint \<Rightarrow> Checkpoint \<Rightarrow> bool" where
  "laterCheckpoint c latest \<longleftrightarrow>
     cp_Sequence c > cp_Sequence latest
     \<or> (cp_Sequence c = cp_Sequence latest \<and> cp_CreatedAt c > cp_CreatedAt latest)
     \<or> (cp_Sequence c = cp_Sequence latest \<and> cp_CreatedAt c = cp_CreatedAt latest \<and> cp_ID c > cp_ID latest)"

definition latestCheckpoint :: "Checkpoint \<Rightarrow> Checkpoint list \<Rightarrow> Checkpoint" where
  "latestCheckpoint c cs = fold (\<lambda>c latest. if laterCheckpoint c latest then c else latest) cs c"

definition refLess :: "CheckpointRef \<Rightarrow> CheckpointRef \<Rightarrow> bool" where
  "refLess a b \<longleftrightarrow>
     (if cr_StreamID a \<noteq> cr_StreamID b then cr_StreamID a < cr_StreamID b
      else if cr_CheckpointID a \<noteq> cr_CheckpointID b then cr_CheckpointID a < cr_CheckpointID b
      else if cr_Sequence a \<noteq> cr_Sequence b then cr_Sequence a < cr_Sequence b
      else cr_MerkleRoot a < cr_MerkleRoot b)"

definition sortCheckpointRefs :: "CheckpointRef list \<Rightarrow> CheckpointRef list" where
  "sortCheckpointRefs refs = sort_slice refLess refs"

fun collectRefs :: "string \<Rightarrow> (string \<times> Checkpoint list) list \<Rightarrow> CheckpointRef list result" where
  "collectRefs tenantID [] = Inr []"
| "collectRefs tenantID ((key, []) # rest) = collectRefs tenantID rest"
| "collectRefs tenantID ((key, c # cs) # rest) =
     (case SplitTenantKey key of
        (owner, streamID, ok) \<Rightarrow>
          if \<not> ok \<or> owner \<noteq> tenantID then collectRefs tenantID rest
          else
            let cp = latestCheckpoint c cs in
            if cp_TenantID cp \<noteq> tenantID \<or> cp_StreamID cp \<noteq> streamID \<or> cp_ID cp = '''' \<or> cp_MerkleRoot cp = '''' \<or> cp_Sequence cp \<le> 0
            then Inl (Err ErrInvalid ''malformed checkpoint for stream'')
            else rbind (collectRefs tenantID rest) (\<lambda>refs.
              Inr (\<lparr>cr_StreamID = cp_StreamID cp, cr_CheckpointID = cp_ID cp, cr_Sequence = cp_Sequence cp,
                     cr_MerkleRoot = cp_MerkleRoot cp\<rparr> # refs)))"

definition aggregateCheckpointRefs :: "Snapshot \<Rightarrow> string \<Rightarrow> CheckpointRef list result" where
  "aggregateCheckpointRefs data tenantID =
     rbind (collectRefs tenantID (sn_Checkpoints data)) (\<lambda>refs. Inr (sortCheckpointRefs refs))"

definition aggregateRoots :: "CheckpointRef list \<Rightarrow> string list" where
  "aggregateRoots refs = map cr_MerkleRoot refs"

text \<open>A 64-bit value as eight big-endian bytes; a string behind its length.\<close>

fun beBytes :: "nat \<Rightarrow> nat \<Rightarrow> string" where
  "beBytes 0 v = []"
| "beBytes (Suc n) v = beBytes n (v div 256) @ [char_of (v mod 256)]"

definition writeAggregateUint :: "int \<Rightarrow> string" where
  "writeAggregateUint v = beBytes 8 (nat (v mod 2 ^ 64))"

definition writeAggregateField :: "string \<Rightarrow> string" where
  "writeAggregateField v = writeAggregateUint (int (length v)) @ v"

fun writeAggregateRefs :: "CheckpointRef list \<Rightarrow> string result" where
  "writeAggregateRefs [] = Inr []"
| "writeAggregateRefs (r # rs) =
     (if cr_Sequence r \<le> 0 then Inl (Err ErrInvalid ''aggregate checkpoint sequence must be positive'')
      else rbind (writeAggregateRefs rs) (\<lambda>rest.
        Inr (writeAggregateField (cr_StreamID r) @ writeAggregateField (cr_CheckpointID r)
             @ writeAggregateUint (cr_Sequence r) @ writeAggregateField (cr_MerkleRoot r) @ rest)))"

definition aggregateAttestationPayload :: "AggregateCheckpoint \<Rightarrow> string result" where
  "aggregateAttestationPayload a =
     (if ag_AttestationVersion a < 0 \<or> ag_StreamCount a < 0
      then Inl (Err ErrInvalid ''negative aggregate attestation version or stream count'')
      else rbind (writeAggregateRefs (ag_CheckpointRefs a)) (\<lambda>refs.
        Inr (writeAggregateField ''snaplink.aggregate-checkpoint'' @ writeAggregateUint (ag_AttestationVersion a)
             @ writeAggregateField (ag_TenantID a) @ writeAggregateField (ag_Algorithm a)
             @ writeAggregateUint (ag_StreamCount a) @ writeAggregateUint (int (length (ag_StreamRoots a)))
             @ concat (map writeAggregateField (ag_StreamRoots a))
             @ writeAggregateUint (int (length (ag_CheckpointRefs a))) @ refs)))"

definition sameAggregateAttestation :: "AggregateCheckpoint \<Rightarrow> AggregateCheckpoint \<Rightarrow> bool" where
  "sameAggregateAttestation l r \<longleftrightarrow>
     ag_TenantID l = ag_TenantID r \<and> ag_AttestationVersion l = ag_AttestationVersion r
     \<and> ag_StreamCount l = ag_StreamCount r \<and> ag_Root l = ag_Root r \<and> ag_Signature l = ag_Signature r
     \<and> ag_Algorithm l = ag_Algorithm r \<and> ag_StreamRoots l = ag_StreamRoots r
     \<and> ag_CheckpointRefs l = ag_CheckpointRefs r"

definition exactCheckpointReference :: "Checkpoint list gomap \<Rightarrow> string \<Rightarrow> CheckpointRef \<Rightarrow> bool" where
  "exactCheckpointReference checkpoints tenantID ref =
     (case mget checkpoints (StreamKey tenantID (cr_StreamID ref)) of
        None \<Rightarrow> False
      | Some values \<Rightarrow>
          let named = filter (\<lambda>c. cp_ID c = cr_CheckpointID ref) values in
          list_all (\<lambda>c. cp_TenantID c = tenantID \<and> cp_StreamID c = cr_StreamID ref \<and> cp_Sequence c = cr_Sequence ref
             \<and> cp_MerkleRoot c = cr_MerkleRoot ref) named
          \<and> length named = 1)"

definition aggregateReferencesTenant :: "Checkpoint list gomap \<Rightarrow> string \<Rightarrow> AggregateCheckpoint \<Rightarrow> bool" where
  "aggregateReferencesTenant checkpoints tenantID a \<longleftrightarrow>
     list_ex (exactCheckpointReference checkpoints tenantID) (ag_CheckpointRefs a)"

fun checkRefs :: "Checkpoint list gomap \<Rightarrow> string \<Rightarrow> CheckpointRef list \<Rightarrow> CheckpointRef list \<Rightarrow> string list \<Rightarrow> string list \<Rightarrow> string list
     \<Rightarrow> string option" where
  "checkRefs checkpoints tenantID (ref # refs) (ord # ordered) (mroot # roots) seenStreams seenCheckpoints =
     (if ref \<noteq> ord then Some ''has a checkpoint reference mismatch''
      else if cr_StreamID ref \<in> set seenStreams then Some ''has duplicate stream references''
      else if cr_CheckpointID ref \<in> set seenCheckpoints then Some ''has duplicate checkpoint references''
      else if cr_CheckpointID ref = '''' \<or> cr_MerkleRoot ref = '''' \<or> cr_MerkleRoot ref \<noteq> mroot
      then Some ''has a checkpoint reference mismatch''
      else if \<not> exactCheckpointReference checkpoints tenantID ref then Some ''has a checkpoint reference mismatch''
      else checkRefs checkpoints tenantID refs ordered roots (cr_StreamID ref # seenStreams) (cr_CheckpointID ref # seenCheckpoints))"
| "checkRefs checkpoints tenantID _ _ _ seenStreams seenCheckpoints = None"

definition verifyAggregateCheckpoint :: "Config \<Rightarrow> string \<Rightarrow> AggregateCheckpoint \<Rightarrow> Checkpoint list gomap \<Rightarrow> string option" where
  \<comment> \<open>\<open>None\<close> is valid, \<open>Some\<close> the diagnostic\<close>
  "verifyAggregateCheckpoint cfg tenantID a checkpoints =
     (let refs = ag_CheckpointRefs a in
      if ag_AttestationVersion a = 0 \<and> refs = [] then Some ''is legacy root-only evidence''
      else if ag_AttestationVersion a \<noteq> aggregateAttestationVersion then Some ''uses an unsupported attestation version''
      else if ag_TenantID a \<noteq> tenantID then Some ''has a tenant mismatch''
      else if ag_Algorithm a \<noteq> cf_Algorithm cfg then Some ''has an algorithm mismatch''
      else if ag_StreamCount a \<le> 0 \<or> ag_StreamCount a \<noteq> int (length refs) \<or> length (ag_StreamRoots a) \<noteq> length refs
      then Some ''has a checkpoint reference mismatch''
      else case checkRefs checkpoints tenantID refs (sortCheckpointRefs refs) (ag_StreamRoots a) [] [] of
        Some d \<Rightarrow> Some d
      | None \<Rightarrow>
          if merkleRoot (ag_StreamRoots a) \<noteq> ag_Root a then Some ''failed root/signature verification''
          else (case aggregateAttestationPayload a of
                  Inl _ \<Rightarrow> Some ''has an invalid numeric field''
                | Inr payload \<Rightarrow>
                    (case cf_Verify cfg payload (ag_Signature a) of
                       Inl _ \<Rightarrow> Some ''failed root/signature verification''
                     | Inr valid \<Rightarrow> if valid then None else Some ''failed root/signature verification'')))"

subsection \<open>CreateAggregateCheckpoint\<close>

definition DefaultAggregateCheckpointRetention :: int where
  "DefaultAggregateCheckpointRetention = 1000"

definition retentionCap :: "Config \<Rightarrow> int" where
  "retentionCap cfg =
     (if cf_AggregateCheckpointRetention cfg \<ge> 1 then cf_AggregateCheckpointRetention cfg
      else DefaultAggregateCheckpointRetention)"

text \<open>The newest-first pass that keeps \<open>keep\<close> of the tenant's records.\<close>

fun trimNewest :: "string \<Rightarrow> int \<Rightarrow> AggregateCheckpoint list \<Rightarrow> AggregateCheckpoint list" where
  "trimNewest tenantID keep [] = []"
| "trimNewest tenantID keep (a # as) =
     (if ag_TenantID a = tenantID
      then (if keep = 0 then trimNewest tenantID keep as else a # trimNewest tenantID (keep - 1) as)
      else a # trimNewest tenantID keep as)"

definition trimAggregateCheckpoints :: "AggregateCheckpoint list \<Rightarrow> string \<Rightarrow> int \<Rightarrow> AggregateCheckpoint list \<times> bool" where
  "trimAggregateCheckpoints items tenantID n =
     (if int (length (filter (\<lambda>a. ag_TenantID a = tenantID) items)) \<le> n then (items, False)
      else (rev (trimNewest tenantID n (rev items)), True))"

definition lastAggregateCheckpoint :: "AggregateCheckpoint list \<Rightarrow> string \<Rightarrow> AggregateCheckpoint option" where
  "lastAggregateCheckpoint items tenantID = find (\<lambda>a. ag_TenantID a = tenantID) (rev items)"

definition CreateAggregateCheckpoint :: "Config \<Rightarrow> string \<Rightarrow> time \<Rightarrow> string \<Rightarrow> Snapshot \<Rightarrow> (bool \<times> Snapshot) result" where
  "CreateAggregateCheckpoint cfg newID now tenantID data =
     guardE (requireTenantScope tenantID)
       (rbind (aggregateCheckpointRefs data tenantID) (\<lambda>refs.
          if refs = [] then Inr (False, data)
          else
            let roots = aggregateRoots refs;
                unsigned = \<lparr>ag_ID = newID, ag_TenantID = tenantID, ag_StreamCount = int (length refs), ag_Root = merkleRoot roots,
                  ag_Signature = '''', ag_Algorithm = cf_Algorithm cfg, ag_CreatedAt = now, ag_StreamRoots = roots,
                  ag_AttestationVersion = aggregateAttestationVersion, ag_CheckpointRefs = refs\<rparr>
            in rbind (aggregateAttestationPayload unsigned) (\<lambda>payload.
               case cf_Sign cfg payload of
                 Inl err \<Rightarrow> Inl (Err (err_kind err) ''sign aggregate checkpoint'')
               | Inr signature \<Rightarrow>
                   let candidate = unsigned\<lparr>ag_Signature := signature\<rparr>; items = sn_AggregateCheckpoints data in
                   (case lastAggregateCheckpoint items tenantID of
                      Some latest \<Rightarrow>
                        if sameAggregateAttestation latest candidate
                        then let (trimmed, changed) = trimAggregateCheckpoints items tenantID (retentionCap cfg)
                             in Inr (changed, data\<lparr>sn_AggregateCheckpoints := trimmed\<rparr>)
                        else Inr (True, data\<lparr>sn_AggregateCheckpoints :=
                               fst (trimAggregateCheckpoints (items @ [candidate]) tenantID (retentionCap cfg))\<rparr>)
                    | None \<Rightarrow> Inr (True, data\<lparr>sn_AggregateCheckpoints :=
                               fst (trimAggregateCheckpoints (items @ [candidate]) tenantID (retentionCap cfg))\<rparr>)))))"

subsection \<open>VerifyIntegrity\<close>

datatype defect =
    AggregateDefect string string
  | PrevHashMismatch string int
  | HashMismatch string int
  | ContentDefect error
  | MerkleMismatch string int int
  | SignatureMismatch string int int

record IntegrityResult =
  ir_Valid :: bool
  ir_TenantID :: string
  ir_StreamID :: string
  ir_EventCount :: int
  ir_SegmentCount :: int
  ir_CheckedAt :: time
  ir_Errors :: "defect list"

definition maxVerifyStreamIDLength :: nat where
  "maxVerifyStreamIDLength = 256"

definition sequenceLess :: "Event \<Rightarrow> Event \<Rightarrow> bool" where
  "sequenceLess a b \<longleftrightarrow>
     (if ev_Sequence a = ev_Sequence b then ev_EventID a < ev_EventID b else ev_Sequence a < ev_Sequence b)"

definition streamEvents :: "Event list \<Rightarrow> string \<Rightarrow> Event list" where
  "streamEvents events stream = sort_slice sequenceLess (filter (\<lambda>e. ev_StreamID e = stream) events)"

definition streamNames :: "Event list \<Rightarrow> string list" where
  "streamNames events = sort_slice (<) (remdups (map ev_StreamID events))"

definition checkEvent :: "Config \<Rightarrow> EventSchema gomap \<Rightarrow> string \<Rightarrow> string \<Rightarrow> Event \<Rightarrow> defect list" where
  "checkEvent cfg schemas stream head e =
     (if ev_PrevHash e \<noteq> head then [PrevHashMismatch stream (ev_Sequence e)] else [])
     @ (if eventHash e \<noteq> Inr (ev_Hash e) then [HashMismatch stream (ev_Sequence e)] else [])
     @ (case verifyContentDigest cfg e schemas of None \<Rightarrow> [] | Some err \<Rightarrow> [ContentDefect err])"

fun checkChain :: "Config \<Rightarrow> EventSchema gomap \<Rightarrow> string \<Rightarrow> string \<Rightarrow> Event list \<Rightarrow> defect list" where
  "checkChain cfg schemas stream head [] = []"
| "checkChain cfg schemas stream head (e # es) =
     checkEvent cfg schemas stream head e @ checkChain cfg schemas stream (ev_Hash e) es"

text \<open>The value of the last event with the wanted sequence, as the loop leaves it.\<close>

definition lastWith :: "(Event \<Rightarrow> string) \<Rightarrow> int \<Rightarrow> Event list \<Rightarrow> string" where
  "lastWith field n es = fold (\<lambda>e acc. if ev_Sequence e = n then field e else acc) es ''''"

definition checkSegment :: "Config \<Rightarrow> Event list \<Rightarrow> Segment \<Rightarrow> defect list" where
  "checkSegment cfg es g =
     (let hashes = map ev_Hash (filter (\<lambda>e. ev_StreamID e = sg_StreamID g \<and> ev_Sequence e \<ge> sg_FirstSequence g
                                             \<and> ev_Sequence e \<le> sg_LastSequence g) es);
          contiguous = (sg_LastSequence g \<ge> sg_FirstSequence g
                        \<and> sg_EventCount g = sg_LastSequence g - sg_FirstSequence g + 1);
          manifestHash = HashBytes (manifestText (sg_TenantID g) (sg_FirstSequence g) (sg_LastSequence g) (sg_LastHash g) (sg_MerkleRoot g))
      in (if merkleRoot hashes \<noteq> sg_MerkleRoot g \<or> int (length hashes) \<noteq> sg_EventCount g
             \<or> lastWith ev_PrevHash (sg_FirstSequence g) es \<noteq> sg_FirstPrevHash g
             \<or> lastWith ev_Hash (sg_LastSequence g) es \<noteq> sg_LastHash g \<or> \<not> contiguous
          then [MerkleMismatch (sg_StreamID g) (sg_FirstSequence g) (sg_LastSequence g)] else [])
         @ (if cf_Verify cfg manifestHash (sg_Signature g) \<noteq> Inr True \<or> manifestHash \<noteq> sg_ManifestHash g
            then [SignatureMismatch (sg_StreamID g) (sg_FirstSequence g) (sg_LastSequence g)] else []))"

definition tenantSegments :: "Snapshot \<Rightarrow> string \<Rightarrow> string \<Rightarrow> Segment list" where
  "tenantSegments data tenantID streamID =
     concat (map snd (filter (\<lambda>(key, gs). case SplitTenantKey key of
         (tid, sid, ok) \<Rightarrow> ok \<and> tid = tenantID \<and> (streamID = '''' \<or> sid = streamID)) (sn_Segments data)))"

definition verifySnapshot :: "Config \<Rightarrow> string \<Rightarrow> Event list \<Rightarrow> Segment list \<Rightarrow> Snapshot \<Rightarrow> defect list" where
  "verifySnapshot cfg tenantID events segments data =
     (let aggregates = filter (\<lambda>a. ag_TenantID a = tenantID \<or> aggregateReferencesTenant (sn_Checkpoints data) tenantID a)
                         (sn_AggregateCheckpoints data)
      in concat (map (\<lambda>a. case verifyAggregateCheckpoint cfg tenantID a (sn_Checkpoints data) of
                   None \<Rightarrow> [] | Some d \<Rightarrow> [AggregateDefect (ag_ID a) d]) aggregates)
         @ concat (map (\<lambda>stream. checkChain cfg (sn_Schemas data) stream '''' (streamEvents events stream)) (streamNames events))
         @ concat (map (\<lambda>g. checkSegment cfg (streamEvents events (sg_StreamID g)) g) segments))"

definition VerifyIntegrity :: "Config \<Rightarrow> (string \<Rightarrow> string result) \<Rightarrow> string \<Rightarrow> time \<Rightarrow> string \<Rightarrow> string \<Rightarrow> string \<Rightarrow> Snapshot
     \<Rightarrow> AdminAction list \<Rightarrow> IntegrityResult result \<times> AdminAction list" where
  "VerifyIntegrity cfg get newID now tenantID actor streamID data trail =
     (case firstErr [requireTenantScope tenantID,
             ifPresent ValidKeyComponent streamID,
             if length streamID > maxVerifyStreamIDLength then Some (Err ErrInvalid ''stream_id is too long'') else None] of
        Some err \<Rightarrow> (Inl err, trail)
      | None \<Rightarrow>
          (case resolveSnapshotEvents cfg get data tenantID (\<lambda>e. streamID = '''' \<or> ev_StreamID e = streamID) False of
             Inl err \<Rightarrow> (Inl err, trail)
           | Inr events \<Rightarrow>
               let segments = tenantSegments data tenantID streamID;
                   defects = verifySnapshot cfg tenantID events segments data
               in (Inr \<lparr>ir_Valid = (defects = []), ir_TenantID = tenantID, ir_StreamID = streamID,
                     ir_EventCount = int (length events), ir_SegmentCount = int (length segments),
                     ir_CheckedAt = now, ir_Errors = defects\<rparr>,
                   recordReadAction cfg newID now tenantID actor ''audit.event.read'' ''integrity'' streamID ''verify'' trail)))"

end
