(* ===== verification/Chain.thy ===== *)
theory Chain
  imports Integrity
begin

section \<open>The evidence chain across components\<close>

text \<open>
  What ingest, sealing and archival maintain together, and what verification makes of it. The states
  are the snapshots reached by any interleaving of commits of prepared events, receipt transitions,
  sealing passes, archive passes and control-plane updates; a log remembers the committed events of
  each stream in order. The invariant ties snapshot and log together; from it follow that verification
  accepts every such history, and what a sealed segment pins down.
\<close>

subsection \<open>What preparation guarantees\<close>

definition schemasExtend :: "EventSchema gomap \<Rightarrow> EventSchema gomap \<Rightarrow> bool" where
  "schemasExtend old new \<longleftrightarrow> (\<forall>k s. mget old k = Some s \<longrightarrow> mget new k = Some s)"

lemma ingestPrepare_Inr:
  assumes "ingestPrepare cfg rnd data quotas now hint client event0 waitFor = (Inr p, quotas')"
  shows "\<exists>d schema. CloneEvent event0 = Inr event0 \<and> ValidateBasic event0 = None
    \<and> requireTenantScope (pr_TenantID p) = None
    \<and> EventContentDigest (stampEvent cfg now (pr_TenantID p) event0) = Inr d \<and> pr_InputDigest p = d
    \<and> validateEvent cfg data (pr_TenantID p) client ((stampEvent cfg now (pr_TenantID p) event0)\<lparr>ev_SourceDigest := d\<rparr>) = Inr schema
    \<and> protectSensitiveFields cfg rnd ((stampEvent cfg now (pr_TenantID p) event0)\<lparr>ev_SourceDigest := d\<rparr>) schema = Inr (pr_Event p)"
  using assms
  by (auto simp: ingestPrepare_def Let_def rbind_eq_Inr split: if_splits sum.splits option.splits prod.splits dest: CloneEvent_same)

lemma validateEvent_Inr:
  assumes "validateEvent cfg data t client e = Inr schema"
  shows "mget (sn_Schemas data) (SchemaKey t (ev_SchemaID e) (ev_SchemaVersion e)) = Some schema
    \<and> rejectReservedSearchDigestNamespace (ev_Payload e) = None"
  using assms by (auto simp: validateEvent_def guardE_eq_Inr rbind_eq_Inr split: if_splits option.splits)

text \<open>A prepared event: some snapshot with no more schemas than the current one admitted it.\<close>

definition preparedFrom :: "Config \<Rightarrow> Snapshot \<Rightarrow> Prepared \<Rightarrow> bool" where
  "preparedFrom cfg data p \<longleftrightarrow>
     (\<exists>rnd data0 quotas quotas' now hint client event0 waitFor.
        ingestPrepare cfg rnd data0 quotas now hint client event0 waitFor = (Inr p, quotas')
        \<and> (\<forall>n. nonce_ok (rnd n)) \<and> payload_wf (ev_Payload event0)
        \<and> (\<forall>k v. payloadGet (ev_Payload event0) k = Some v \<longrightarrow> codec_ok (cf_Codec cfg) v)
        \<and> (\<forall>k s. mget (sn_Schemas data0) k = Some s \<longrightarrow> distinct (es_EncryptedFields s))
        \<and> schemasExtend (sn_Schemas data0) (sn_Schemas data))"

definition contentOK :: "Config \<Rightarrow> EventSchema gomap \<Rightarrow> Event \<Rightarrow> bool" where
  "contentOK cfg schemas e \<longleftrightarrow>
     ev_SourceDigest e \<noteq> [] \<and> (\<exists>r. reconstructEventForDigest cfg e schemas = Inr r \<and> EventContentDigest r = Inr (ev_SourceDigest e))"

lemma contentOK_verifies: "contentOK cfg schemas e \<Longrightarrow> verifyContentDigest cfg e schemas = None"
  by (auto simp: contentOK_def intro: verifyContentDigest_None)

lemma contentOK_derives: "contentOK cfg schemas e \<Longrightarrow> reconstructAndDerive cfg e schemas = Inr (ev_SourceDigest e)"
  by (auto simp: contentOK_def reconstructAndDerive_def)

lemma contentOK_clone: "contentOK cfg schemas e \<Longrightarrow> CloneEvent e = Inr e"
  by (auto simp: contentOK_def reconstructEventForDigest_def rbind_eq_Inr split: option.splits dest: CloneEvent_same)

lemma contentOK_extend: "contentOK cfg old e \<Longrightarrow> schemasExtend old new \<Longrightarrow> contentOK cfg new e"
  by (auto simp: contentOK_def schemasExtend_def reconstructEventForDigest_def split: option.splits)

lemma KeySeparator_char: "KeySeparator = CHR 0x1F"
  by code_simp

lemma Stream_no_separator:
  assumes "ValidateBasic e = None" "KeySeparator \<notin> set (ev_TenantID e')" "ev_StreamID e' = []"
    and "ev_AggregateType e' = ev_AggregateType e" "ev_AggregateID e' = ev_AggregateID e"
      "ev_OperationID e' = ev_OperationID e" "ev_SourceSystem e' = ev_SourceSystem e"
  shows "KeySeparator \<notin> set (Stream e')" "Stream e' \<noteq> []"
proof -
  note v = ValidateBasic_None [OF assms(1)]
  have "KeySeparator \<notin> set (ev_AggregateType e)" "KeySeparator \<notin> set (ev_AggregateID e)"
    "KeySeparator \<notin> set (ev_OperationID e)" "KeySeparator \<notin> set (ev_SourceSystem e)"
    using v(2,5-7) ValidKeyComponent_no_separator by (auto simp: ValidStreamComponent_None_iff)
  then show "KeySeparator \<notin> set (Stream e')" "Stream e' \<noteq> []"
    using assms(2-) by (auto simp: Stream_def KeySeparator_char)
qed

text \<open>
  The event a prepared ingest commits: its tenant and identifier are key components without separator,
  its stream is derived, and with any ledger coordinates its content check succeeds.
\<close>

definition preparedOK :: "Config \<Rightarrow> EventSchema gomap \<Rightarrow> Prepared \<Rightarrow> bool" where
  "preparedOK cfg schemas p \<longleftrightarrow>
     ev_TenantID (pr_Event p) = pr_TenantID p \<and> ev_StreamID (pr_Event p) = []
     \<and> KeySeparator \<notin> set (pr_TenantID p) \<and> KeySeparator \<notin> set (ev_EventID (pr_Event p))
     \<and> KeySeparator \<notin> set (Stream (pr_Event p)) \<and> Stream (pr_Event p) \<noteq> []
     \<and> pr_InputDigest p = ev_SourceDigest (pr_Event p)
     \<and> (\<forall>s n prev h. contentOK cfg schemas ((pr_Event p)\<lparr>ev_StreamID := s, ev_Sequence := n, ev_PrevHash := prev, ev_Hash := h\<rparr>))"

lemma preparedFrom_OK:
  assumes "preparedFrom cfg data p" and ae: "aead_ok (cf_Aead cfg)"
  shows "preparedOK cfg (sn_Schemas data) p"
proof -
  obtain rnd data0 quotas quotas' now hint client event0 waitFor where
    prep: "ingestPrepare cfg rnd data0 quotas now hint client event0 waitFor = (Inr p, quotas')"
    and rnd: "\<forall>n. nonce_ok (rnd n)" and wf: "payload_wf (ev_Payload event0)"
    and codec: "\<forall>k v. payloadGet (ev_Payload event0) k = Some v \<longrightarrow> codec_ok (cf_Codec cfg) v"
    and dist: "\<forall>k s. mget (sn_Schemas data0) k = Some s \<longrightarrow> distinct (es_EncryptedFields s)"
    and ext: "schemasExtend (sn_Schemas data0) (sn_Schemas data)"
    using assms(1) unfolding preparedFrom_def by blast
  let ?t = "pr_TenantID p" let ?e = "stampEvent cfg now ?t event0"
  obtain d schema where clone: "CloneEvent event0 = Inr event0" and basic: "ValidateBasic event0 = None"
    and scope: "requireTenantScope ?t = None" and digest: "EventContentDigest ?e = Inr d" "pr_InputDigest p = d"
    and val: "validateEvent cfg data0 ?t client (?e\<lparr>ev_SourceDigest := d\<rparr>) = Inr schema"
    and prot: "protectSensitiveFields cfg rnd (?e\<lparr>ev_SourceDigest := d\<rparr>) schema = Inr (pr_Event p)"
    using ingestPrepare_Inr [OF prep] by blast
  obtain q where q: "pr_Event p = ?e\<lparr>ev_SourceDigest := d, ev_Payload := q\<rparr>" using protect_keeps [OF prot] by auto
  have sc: "mget (sn_Schemas data0) (SchemaKey (ev_TenantID ?e) (ev_SchemaID ?e) (ev_SchemaVersion ?e)) = Some schema"
    and free: "rejectReservedSearchDigestNamespace (ev_Payload ?e) = None"
    using validateEvent_Inr [OF val] by (simp_all add: stampEvent_def)
  have cl: "CloneEvent ?e = Inr ?e" using clone by (simp add: CloneEvent_iff stampEvent_def)
  have content: "contentOK cfg (sn_Schemas data0) ((pr_Event p)\<lparr>ev_StreamID := s, ev_Sequence := n, ev_PrevHash := prev, ev_Hash := h\<rparr>)"
    for s n prev h
    using protected_content [where s = s and n = n and p = prev and h = h, OF ae rnd _ _ _ free cl digest(1) prot sc] codec wf dist sc
    by (auto simp: contentOK_def stampEvent_def)
  have t: "KeySeparator \<notin> set ?t" using scope ValidKeyComponent_no_separator by (auto simp: requireTenantScope_None_iff)
  have stream: "KeySeparator \<notin> set (Stream (pr_Event p))" "Stream (pr_Event p) \<noteq> []"
    using Stream_no_separator [OF basic, of "pr_Event p"] t by (simp_all add: q stampEvent_def)
  have "KeySeparator \<notin> set (ev_EventID event0)"
    using ValidateBasic_None(1) [OF basic] ValidKeyComponent_no_separator by blast
  then show ?thesis
    using t stream digest(2) contentOK_extend [OF content ext]
    by (simp add: preparedOK_def q stampEvent_def)
qed

subsection \<open>A stream and its hist\<close>

fun chained :: "string \<Rightarrow> int \<Rightarrow> Event list \<Rightarrow> bool" where
  "chained head n [] = True"
| "chained head n (e # es) \<longleftrightarrow>
     ev_PrevHash e = head \<and> ev_Sequence e = n \<and> eventHash e = Inr (ev_Hash e) \<and> chained (ev_Hash e) (n + 1) es"

definition lastHash :: "string \<Rightarrow> Event list \<Rightarrow> string" where
  "lastHash head es = (if es = [] then head else ev_Hash (last es))"

lemma chained_append:
  "chained head n (es @ fs) \<longleftrightarrow> chained head n es \<and> chained (lastHash head es) (n + int (length es)) fs"
  by (induction es arbitrary: head n) (auto simp: lastHash_def algebra_simps)

lemma chained_nth: "chained head n es \<Longrightarrow> i < length es \<Longrightarrow> ev_Sequence (es ! i) = n + int i"
proof (induction es arbitrary: head n i)
  case (Cons e es)
  then show ?case by (cases i) auto
qed simp

text \<open>Segment \<open>g\<close> seals the events \<open>a .. b - 1\<close> of the hist.\<close>

definition sealedBy :: "Config \<Rightarrow> string \<Rightarrow> string \<Rightarrow> Event list \<Rightarrow> nat \<Rightarrow> nat \<Rightarrow> Segment \<Rightarrow> bool" where
  "sealedBy cfg t sid es a b g \<longleftrightarrow>
     a < b \<and> b \<le> length es \<and> sg_TenantID g = t \<and> sg_StreamID g = sid
     \<and> sg_FirstSequence g = int a + 1 \<and> sg_LastSequence g = int b \<and> sg_EventCount g = int b - int a
     \<and> sg_FirstPrevHash g = ev_PrevHash (es ! a) \<and> sg_LastHash g = ev_Hash (es ! (b - 1))
     \<and> sg_MerkleRoot g = merkleRoot (map ev_Hash (take (b - a) (drop a es)))
     \<and> sg_ManifestHash g = HashBytes (manifestText t (int a + 1) (int b) (sg_LastHash g) (sg_MerkleRoot g))
     \<and> cf_Sign cfg (sg_ManifestHash g) = Inr (sg_Signature g)"

fun sealedUpTo :: "Config \<Rightarrow> string \<Rightarrow> string \<Rightarrow> Event list \<Rightarrow> nat \<Rightarrow> Segment list \<Rightarrow> nat \<Rightarrow> bool" where
  "sealedUpTo cfg t sid es a [] b \<longleftrightarrow> a = b"
| "sealedUpTo cfg t sid es a (g # gs) b \<longleftrightarrow> (\<exists>c. sealedBy cfg t sid es a c g \<and> sealedUpTo cfg t sid es c gs b)"

lemma sealedBy_append: "sealedBy cfg t sid es a b g \<Longrightarrow> sealedBy cfg t sid (es @ fs) a b g"
  by (auto simp: sealedBy_def nth_append)

lemma sealedUpTo_append: "sealedUpTo cfg t sid es a gs b \<Longrightarrow> sealedUpTo cfg t sid (es @ fs) a gs b"
  by (induction gs arbitrary: a) (auto intro: sealedBy_append)

lemma sealedUpTo_snoc:
  "sealedUpTo cfg t sid es a gs b \<Longrightarrow> sealedBy cfg t sid es b c g \<Longrightarrow> sealedUpTo cfg t sid es a (gs @ [g]) c"
  by (induction gs arbitrary: a) auto

lemma sealedUpTo_mem: "sealedUpTo cfg t sid es a gs b \<Longrightarrow> g \<in> set gs \<Longrightarrow> \<exists>c d. sealedBy cfg t sid es c d g"
  by (induction gs arbitrary: a) auto

definition pendingFrom :: "string \<Rightarrow> Event list \<Rightarrow> nat \<Rightarrow> StreamState \<Rightarrow> bool" where
  "pendingFrom t es n st \<longleftrightarrow>
     n \<le> length es \<and> st_PendingHashes st = map ev_Hash (drop n es)
     \<and> st_PendingEvents st = map (\<lambda>e. EventKey t (ev_EventID e)) (drop n es)
     \<and> st_PendingPrevHash st = (if n < length es then ev_PrevHash (es ! n) else [])"

definition streamOK :: "Config \<Rightarrow> string \<Rightarrow> string \<Rightarrow> Event list \<Rightarrow> StreamState \<Rightarrow> Segment list \<Rightarrow> bool" where
  "streamOK cfg t sid es st gs \<longleftrightarrow>
     st_TenantID st = t \<and> st_StreamID st = sid \<and> sid \<noteq> [] \<and> st_NextSequence st = int (length es) + 1
     \<and> st_HeadHash st = lastHash [] es \<and> chained [] 1 es
     \<and> (\<exists>n. sealedUpTo cfg t sid es 0 gs n \<and> pendingFrom t es n st)"

lemma streamOK_empty:
  "sid \<noteq> [] \<Longrightarrow> streamOK cfg t sid [] (zeroStream\<lparr>st_TenantID := t, st_StreamID := sid, st_NextSequence := 1\<rparr>) []"
  by (simp add: streamOK_def lastHash_def pendingFrom_def zeroStream_def)

lemma placeEvent_Inr:
  "placeEvent st sid e = Inr e' \<Longrightarrow>
    \<exists>h. e' = e\<lparr>ev_StreamID := sid, ev_Sequence := st_NextSequence st, ev_PrevHash := st_HeadHash st, ev_Hash := h\<rparr>
    \<and> eventHash e' = Inr h"
  by (auto simp: placeEvent_def Let_def rbind_eq_Inr eventHash_def EventDigest_def EventContentDigest_def contentOnly_def hashFields_def)

lemma streamOK_extend:
  assumes ok: "streamOK cfg t sid es st gs" and e': "placeEvent st sid e = Inr e'"
    and key: "key = EventKey t (ev_EventID e')"
  shows "streamOK cfg t sid (es @ [e']) (extendStream st key e') gs"
proof -
  obtain n where n: "sealedUpTo cfg t sid es 0 gs n" "pendingFrom t es n st" using ok by (auto simp: streamOK_def)
  have coords: "ev_Sequence e' = st_NextSequence st" "ev_PrevHash e' = st_HeadHash st" "eventHash e' = Inr (ev_Hash e')"
    using placeEvent_Inr [OF e'] by auto
  have chain: "chained [] 1 (es @ [e'])"
    using ok coords by (simp add: chained_append streamOK_def)
  have pend: "pendingFrom t (es @ [e']) n (extendStream st key e')"
    using n(2) key coords by (auto simp: pendingFrom_def extendStream_def Let_def nth_append)
  show ?thesis
    using ok chain pend sealedUpTo_append [OF n(1), of "[e']"]
    by (auto simp: streamOK_def extendStream_def Let_def lastHash_def)
qed

lemma streamOK_seal:
  assumes ok: "streamOK cfg t sid es st gs" and pend: "st_PendingHashes st \<noteq> []"
    and seal: "sealSegment cfg newID st now = Inr (g, c)"
  shows "streamOK cfg t sid es (clearPending st) (gs @ [g])"
proof -
  obtain n where n: "sealedUpTo cfg t sid es 0 gs n" "pendingFrom t es n st" using ok by (auto simp: streamOK_def)
  have lt: "n < length es" using n(2) pend by (auto simp: pendingFrom_def)
  have st: "st_TenantID st = t" "st_StreamID st = sid" "st_NextSequence st = int (length es) + 1"
    "st_HeadHash st = ev_Hash (es ! (length es - 1))"
    using ok lt by (auto simp: streamOK_def lastHash_def last_conv_nth)
  have "sealedBy cfg t sid es n (length es) g"
    using seal n(2) lt st
    by (auto simp: sealedBy_def sealSegment_def Let_def pendingFrom_def of_nat_diff algebra_simps split: sum.splits)
  from sealedUpTo_snoc [OF n(1) this] show ?thesis
    using ok by (auto simp: streamOK_def clearPending_def pendingFrom_def intro!: exI [of _ "length es"])
qed

subsection \<open>The snapshot and its logs\<close>

type_synonym ledgerLog = "string \<Rightarrow> Event list"

definition eventKeyOf :: "Event \<Rightarrow> string" where
  "eventKeyOf e = EventKey (ev_TenantID e) (ev_EventID e)"

definition logged :: "ledgerLog \<Rightarrow> Event \<Rightarrow> bool" where
  "logged hist e \<longleftrightarrow> e \<in> set (hist (StreamKey (ev_TenantID e) (ev_StreamID e)))"

definition receiptOf :: "EventReceipt \<Rightarrow> Event \<Rightarrow> bool" where
  "receiptOf r e \<longleftrightarrow> rc_TenantID r = ev_TenantID e \<and> rc_EventID r = ev_EventID e \<and> rc_StreamID r = ev_StreamID e
     \<and> rc_Sequence r = ev_Sequence e \<and> rc_Hash r = ev_Hash e \<and> rc_IdempotencyKey r = ev_IdempotencyKey e"

definition streamsOK :: "Config \<Rightarrow> ledgerLog \<Rightarrow> StreamState gomap \<Rightarrow> Segment list gomap \<Rightarrow> bool" where
  "streamsOK cfg hist streams segments \<longleftrightarrow>
     (\<forall>key. case mget streams key of
        None \<Rightarrow> hist key = [] \<and> mget_or [] segments key = []
      | Some st \<Rightarrow> \<exists>t sid. key = StreamKey t sid \<and> KeySeparator \<notin> set t \<and> KeySeparator \<notin> set sid
          \<and> streamOK cfg t sid (hist key) st (mget_or [] segments key))"

definition membersOK :: "Config \<Rightarrow> ledgerLog \<Rightarrow> EventSchema gomap \<Rightarrow> bool" where
  "membersOK cfg hist schemas \<longleftrightarrow>
     (\<forall>key e. e \<in> set (hist key) \<longrightarrow> key = StreamKey (ev_TenantID e) (ev_StreamID e)
        \<and> KeySeparator \<notin> set (ev_TenantID e) \<and> KeySeparator \<notin> set (ev_EventID e) \<and> contentOK cfg schemas e)
     \<and> (\<forall>e e'. logged hist e \<and> logged hist e' \<and> eventKeyOf e = eventKeyOf e' \<longrightarrow> e = e')"

definition receiptsOK :: "ledgerLog \<Rightarrow> EventReceipt gomap \<Rightarrow> Event gomap \<Rightarrow> bool" where
  "receiptsOK hist receipts events \<longleftrightarrow>
     (\<forall>k r. mget receipts k = Some r \<longrightarrow> (\<exists>e. logged hist e \<and> k = eventKeyOf e \<and> receiptOf r e))
     \<and> (\<forall>e. logged hist e \<longrightarrow> (\<exists>r. mget receipts (eventKeyOf e) = Some r \<and> receiptOf r e
          \<and> (rc_Status r \<noteq> StatusArchived \<longrightarrow> mget events (eventKeyOf e) = Some e)))
     \<and> (\<forall>k e. mget events k = Some e \<longrightarrow> logged hist e \<and> k = eventKeyOf e)"

definition ledgerInv :: "Config \<Rightarrow> ledgerLog \<Rightarrow> Snapshot \<Rightarrow> bool" where
  "ledgerInv cfg hist data \<longleftrightarrow>
     streamsOK cfg hist (sn_Streams data) (sn_Segments data) \<and> membersOK cfg hist (sn_Schemas data)
     \<and> receiptsOK hist (sn_Receipts data) (sn_Events data)
     \<and> wf_map (sn_Streams data) \<and> wf_map (sn_Events data) \<and> wf_map (sn_Receipts data) \<and> wf_map (sn_Segments data)"

lemma ledgerInv_start: "ledgerInv cfg (\<lambda>_. []) NewSnapshot"
  by (simp add: ledgerInv_def streamsOK_def membersOK_def receiptsOK_def logged_def NewSnapshot_def mget_or_def)

lemma receiptsOK_receipt:
  assumes "receiptsOK hist receipts events" "logged hist e"
  obtains r where "mget receipts (eventKeyOf e) = Some r" "receiptOf r e"
    "rc_Status r \<noteq> StatusArchived \<longrightarrow> mget events (eventKeyOf e) = Some e"
  using assms unfolding receiptsOK_def by blast

text \<open>Receipts may change as long as they stay the receipt of their event and do not leave the archived status.\<close>

definition receiptChange :: "EventReceipt \<Rightarrow> EventReceipt \<Rightarrow> bool" where
  "receiptChange r r' \<longleftrightarrow>
     rc_TenantID r' = rc_TenantID r \<and> rc_EventID r' = rc_EventID r \<and> rc_StreamID r' = rc_StreamID r
     \<and> rc_Sequence r' = rc_Sequence r \<and> rc_Hash r' = rc_Hash r \<and> rc_IdempotencyKey r' = rc_IdempotencyKey r
     \<and> (rc_Status r = StatusArchived \<longrightarrow> rc_Status r' = StatusArchived)"

lemma receiptsOK_change:
  assumes ok: "receiptsOK hist receipts events" and r: "mget receipts k = Some r" and ch: "receiptChange r r'"
  shows "receiptsOK hist (mput receipts k r') events"
proof -
  have ro: "receiptOf r' e = receiptOf r e" for e using ch by (simp add: receiptOf_def receiptChange_def)
  show ?thesis
    unfolding receiptsOK_def
  proof (intro conjI allI impI)
    show "\<exists>e. logged hist e \<and> k' = eventKeyOf e \<and> receiptOf s e" if "mget (mput receipts k r') k' = Some s" for k' s
      using that ok r ro by (auto simp: receiptsOK_def mget_mput split: if_splits)
    show "\<exists>s. mget (mput receipts k r') (eventKeyOf e) = Some s \<and> receiptOf s e
        \<and> (rc_Status s \<noteq> StatusArchived \<longrightarrow> mget events (eventKeyOf e) = Some e)" if e: "logged hist e" for e
    proof -
      obtain s where s: "mget receipts (eventKeyOf e) = Some s" "receiptOf s e"
        "rc_Status s \<noteq> StatusArchived \<longrightarrow> mget events (eventKeyOf e) = Some e"
        using receiptsOK_receipt [OF ok e] .
      show ?thesis
      proof (cases "eventKeyOf e = k")
        case True
        then have "s = r" using s(1) r by simp
        then show ?thesis using True s ro ch by (auto simp: mget_mput receiptChange_def)
      qed (use s in \<open>simp add: mget_mput\<close>)
    qed
  qed (use ok in \<open>auto simp: receiptsOK_def\<close>)
qed

lemma receiptsOK_evict:
  assumes ok: "receiptsOK hist receipts events" and r: "mget receipts k = Some r" "rc_Status r = StatusArchived"
  shows "receiptsOK hist receipts (mdel events k)"
  unfolding receiptsOK_def
proof (intro conjI allI impI)
  show "\<exists>s. mget receipts (eventKeyOf e) = Some s \<and> receiptOf s e
      \<and> (rc_Status s \<noteq> StatusArchived \<longrightarrow> mget (mdel events k) (eventKeyOf e) = Some e)" if e: "logged hist e" for e
  proof -
    obtain s where s: "mget receipts (eventKeyOf e) = Some s" "receiptOf s e"
      "rc_Status s \<noteq> StatusArchived \<longrightarrow> mget events (eventKeyOf e) = Some e"
      using receiptsOK_receipt [OF ok e] .
    then show ?thesis using r by (auto simp: mget_mdel)
  qed
qed (use ok in \<open>auto simp: receiptsOK_def mget_mdel split: if_splits\<close>)

lemma ledgerInv_receipt:
  assumes "ledgerInv cfg hist data" "mget (sn_Receipts data) k = Some r" "receiptChange r r'"
  shows "ledgerInv cfg hist (data\<lparr>sn_Receipts := mput (sn_Receipts data) k r'\<rparr>)"
  using assms receiptsOK_change by (auto simp: ledgerInv_def)

lemma ledgerInv_evict:
  assumes "ledgerInv cfg hist data" "mget (sn_Receipts data) k = Some r" "rc_Status r = StatusArchived"
  shows "ledgerInv cfg hist (data\<lparr>sn_Events := mdel (sn_Events data) k\<rparr>)"
  using assms receiptsOK_evict by (auto simp: ledgerInv_def)

lemma ledgerInv_control:
  assumes "ledgerInv cfg hist data" "sn_Streams data' = sn_Streams data" "sn_Segments data' = sn_Segments data"
    "sn_Events data' = sn_Events data" "sn_Receipts data' = sn_Receipts data"
    "schemasExtend (sn_Schemas data) (sn_Schemas data')"
  shows "ledgerInv cfg hist data'"
proof -
  have "membersOK cfg hist (sn_Schemas data')"
    using assms(1,6) contentOK_extend unfolding ledgerInv_def membersOK_def by blast
  then show ?thesis using assms by (simp add: ledgerInv_def)
qed

subsection \<open>Every step keeps the invariant\<close>

lemma ledgerInv_transition:
  assumes inv: "ledgerInv cfg hist data" and tr: "transitionReceipt data now t i status evict = Inr (r', data')"
    and st: "status = StatusArchived \<or> \<not> evict \<and> rc_Status (mget_or zeroReceipt (sn_Receipts data) (EventKey t i)) \<noteq> StatusArchived"
  shows "ledgerInv cfg hist data'"
proof -
  let ?k = "EventKey t i"
  obtain r where r: "mget (sn_Receipts data) ?k = Some r"
    and r': "r' = r\<lparr>rc_Status := status, rc_IndexedAt := now, rc_ArchivedAt := (if evict then now else rc_ArchivedAt r)\<rparr>"
    and d': "data' = data\<lparr>sn_Receipts := mput (sn_Receipts data) ?k r', sn_Events := (if evict then mdel (sn_Events data) ?k else sn_Events data)\<rparr>"
    using tr by (auto simp: transitionReceipt_def Let_def split: option.splits)
  have "receiptChange r r'" using st r by (auto simp: receiptChange_def r' mget_or_def)
  note i1 = ledgerInv_receipt [OF inv r this]
  show ?thesis
  proof (cases evict)
    case True
    then have "rc_Status r' = StatusArchived" using st by (auto simp: r')
    with ledgerInv_evict [OF i1, of ?k r'] True show ?thesis by (simp add: d' mget_mput)
  qed (use i1 in \<open>simp add: d'\<close>)
qed

lemma ledgerInv_evictArchived: "ledgerInv cfg hist data \<Longrightarrow> ledgerInv cfg hist (evictArchived key data)"
  by (auto simp: evictArchived_def intro: ledgerInv_evict split: option.splits)

lemma ledgerInv_evictAll: "ledgerInv cfg hist data \<Longrightarrow> ledgerInv cfg hist (fold evictArchived keys data)"
  by (induction keys arbitrary: data) (auto intro: ledgerInv_evictArchived)

lemma ledgerInv_markArchived:
  "ledgerInv cfg hist data \<Longrightarrow> markArchived now t es data = Inr data' \<Longrightarrow> ledgerInv cfg hist data'"
proof (induction es arbitrary: data)
  case (Cons e es)
  let ?k = "EventKey t (ev_EventID e)"
  obtain r where r: "mget (sn_Receipts data) ?k = Some r"
    using Cons.prems(2) by (auto simp: Let_def split: option.splits)
  let ?r = "r\<lparr>rc_Status := StatusArchived, rc_IndexedAt := now, rc_ArchivedAt := now\<rparr>"
  let ?d = "data\<lparr>sn_Receipts := mput (sn_Receipts data) ?k ?r\<rparr>"
  have i1: "ledgerInv cfg hist ?d" by (rule ledgerInv_receipt [OF Cons.prems(1) r]) (simp add: receiptChange_def)
  have "ledgerInv cfg hist (?d\<lparr>sn_Events := mdel (sn_Events ?d) ?k\<rparr>)"
    by (rule ledgerInv_evict [OF i1, of _ ?r]) (simp_all add: mget_mput)
  then show ?case using Cons.IH Cons.prems(2) r by (simp add: Let_def)
qed simp

lemma ledgerInv_recordDead:
  "ledgerInv cfg hist data \<Longrightarrow> recordDead dead data = Inr data' \<Longrightarrow> ledgerInv cfg hist data'"
proof (induction dead data rule: recordDead.induct)
  case (2 key d rest data)
  let ?d = "data\<lparr>sn_DeadLetters := mput (sn_DeadLetters data) key d\<rparr>"
  have i1: "ledgerInv cfg hist ?d" by (rule ledgerInv_control [OF 2(3)]) (simp_all add: schemasExtend_def)
  show ?case
  proof (cases "mget (sn_Receipts data) key")
    case None
    then show ?thesis using 2(1) [OF refl] 2(4) i1 by (auto split: if_splits)
  next
    case (Some r)
    have "ledgerInv cfg hist (?d\<lparr>sn_Receipts := mput (sn_Receipts ?d) key
        (r\<lparr>rc_ErrorCode := ''archive_dead_letter'', rc_ErrorMessage := dl_ErrorMessage d\<rparr>)\<rparr>)"
      by (rule ledgerInv_receipt [OF i1, where r = r]) (simp_all add: Some receiptChange_def)
    then show ?thesis using 2(2) [OF refl] 2(4) Some by simp
  qed
qed simp

lemma ledgerInv_archiveCommit:
  assumes "ledgerInv cfg hist data" "archiveCommit now t evicted archived dead data = Inr data'"
  shows "ledgerInv cfg hist data'"
proof -
  obtain d1 d2 where "markArchived now t archived (fold evictArchived evicted data) = Inr d1" "recordDead dead d1 = Inr d2"
    and d': "data' = d2\<lparr>sn_ArchiveConflictFailures := mput (sn_ArchiveConflictFailures d2) t 0\<rparr>"
    using assms(2) by (auto simp: archiveCommit_def rbind_eq_Inr)
  then have "ledgerInv cfg hist d2"
    using ledgerInv_evictAll [OF assms(1)] ledgerInv_markArchived ledgerInv_recordDead by blast
  then show ?thesis by (rule ledgerInv_control) (simp_all add: d' schemasExtend_def)
qed

lemma streamsOK_stream:
  assumes "streamsOK cfg hist streams segments" "mget streams key = Some st"
  obtains t sid where "key = StreamKey t sid" "KeySeparator \<notin> set t" "KeySeparator \<notin> set sid"
    "streamOK cfg t sid (hist key) st (mget_or [] segments key)"
proof -
  have "case mget streams key of
      None \<Rightarrow> hist key = [] \<and> mget_or [] segments key = []
    | Some st \<Rightarrow> \<exists>t sid. key = StreamKey t sid \<and> KeySeparator \<notin> set t \<and> KeySeparator \<notin> set sid
        \<and> streamOK cfg t sid (hist key) st (mget_or [] segments key)"
    using assms(1) unfolding streamsOK_def by blast
  then show ?thesis using assms(2) that by auto
qed

lemma streamsOK_none:
  assumes "streamsOK cfg hist streams segments" "mget streams key = None"
  shows "hist key = []" "mget_or [] segments key = []"
proof -
  have "case mget streams key of
      None \<Rightarrow> hist key = [] \<and> mget_or [] segments key = []
    | Some st \<Rightarrow> \<exists>t sid. key = StreamKey t sid \<and> KeySeparator \<notin> set t \<and> KeySeparator \<notin> set sid
        \<and> streamOK cfg t sid (hist key) st (mget_or [] segments key)"
    using assms(1) unfolding streamsOK_def by blast
  then show "hist key = []" "mget_or [] segments key = []" using assms(2) by auto
qed

lemma streamsOK_update:
  assumes ok: "streamsOK cfg hist streams segments"
    and key: "key = StreamKey t sid" "KeySeparator \<notin> set t" "KeySeparator \<notin> set sid"
    and new: "streamOK cfg t sid es st gs"
  shows "streamsOK cfg (hist(key := es)) (mput streams key st) (mput segments key gs)"
  unfolding streamsOK_def
proof (intro allI)
  fix k
  show "case mget (mput streams key st) k of
        None \<Rightarrow> (hist(key := es)) k = [] \<and> mget_or [] (mput segments key gs) k = []
      | Some st \<Rightarrow> \<exists>t sid. k = StreamKey t sid \<and> KeySeparator \<notin> set t \<and> KeySeparator \<notin> set sid
          \<and> streamOK cfg t sid ((hist(key := es)) k) st (mget_or [] (mput segments key gs) k)"
  proof (cases "k = key")
    case True
    then show ?thesis using key new by (auto simp: mget_mput mget_or_def)
  next
    case False
    then have "mget (mput streams key st) k = mget streams k" "mget_or [] (mput segments key gs) k = mget_or [] segments k"
      "(hist(key := es)) k = hist k"
      by (simp_all add: mget_mput mget_or_def)
    then show ?thesis using ok unfolding streamsOK_def by presburger
  qed
qed

lemma ledgerInv_seal:
  assumes inv: "ledgerInv cfg hist data" and st: "mget (sn_Streams data) key = Some st" "st_PendingHashes st \<noteq> []"
    and seal: "sealSegment cfg newID st now = Inr gc"
  shows "ledgerInv cfg hist (recordSeal key st gc data)"
proof -
  obtain t sid where key: "key = StreamKey t sid" "KeySeparator \<notin> set t" "KeySeparator \<notin> set sid"
    and ok: "streamOK cfg t sid (hist key) st (mget_or [] (sn_Segments data) key)"
    using streamsOK_stream [OF _ st(1)] inv unfolding ledgerInv_def by blast
  have new: "streamOK cfg t sid (hist key) (clearPending st) (mget_or [] (sn_Segments data) key @ [fst gc])"
    using streamOK_seal [OF ok st(2)] seal by (metis prod.collapse)
  have "streamsOK cfg (hist(key := hist key)) (mput (sn_Streams data) key (clearPending st))
      (mput (sn_Segments data) key (mget_or [] (sn_Segments data) key @ [fst gc]))"
    by (rule streamsOK_update [OF _ key new]) (use inv in \<open>simp add: ledgerInv_def\<close>)
  then show ?thesis using inv by (simp add: ledgerInv_def recordSeal_def wf_map_mput)
qed

lemma ledgerInv_sealLoop:
  "ledgerInv cfg hist data \<Longrightarrow> distinct (map fst rest) \<Longrightarrow> \<forall>(k, st) \<in> set rest. mget (sn_Streams data) k = Some st
    \<Longrightarrow> sealLoop cfg newID now t i rest data = Inr (m, data') \<Longrightarrow> ledgerInv cfg hist data'"
proof (induction rest arbitrary: i data m)
  case (Cons kv rest)
  obtain key st where kv: "kv = (key, st)" by fastforce
  show ?case
  proof (cases "st_TenantID st \<noteq> t \<or> st_PendingHashes st = []")
    case True
    show ?thesis by (rule Cons.IH [where i = "Suc i" and m = m and data = data]) (use Cons.prems True kv in auto)
  next
    case False
    obtain gc r where gc: "sealSegment cfg (newID i) st now = Inr gc"
      and r: "sealLoop cfg newID now t (Suc i) rest (recordSeal key st gc data) = Inr r" "data' = snd r"
      using Cons.prems(4) False by (auto simp: kv rbind_eq_Inr)
    have inv: "ledgerInv cfg hist (recordSeal key st gc data)"
      by (rule ledgerInv_seal [OF Cons.prems(1) _ _ gc]) (use Cons.prems(3) False kv in auto)
    have "\<forall>(k, s) \<in> set rest. mget (sn_Streams (recordSeal key st gc data)) k = Some s"
      using Cons.prems(2,3) kv by (force simp: recordSeal_def mget_mput)
    then show ?thesis
      using Cons.IH [OF inv, of "Suc i" "fst r"] Cons.prems(2) kv r by simp
  qed
qed simp

lemma ledgerInv_sealPending:
  assumes "ledgerInv cfg hist data" "SealPendingSegments cfg newID now t data = Inr (m, data')"
  shows "ledgerInv cfg hist data'"
proof -
  have "\<forall>(k, st) \<in> set (sn_Streams data). mget (sn_Streams data) k = Some st" "distinct (map fst (sn_Streams data))"
    using assms(1) by (auto simp: ledgerInv_def mget_iff wf_map_def)
  then show ?thesis
    using assms ledgerInv_sealLoop by (fastforce simp: SealPendingSegments_def guardE_eq_Inr)
qed

lemma checkExisting_none:
  assumes inv: "ledgerInv cfg hist data" and no: "checkExistingIngest cfg get data t i d = NoExisting"
  shows "mget (sn_Receipts data) (EventKey t i) = None"
proof (rule ccontr)
  assume "mget (sn_Receipts data) (EventKey t i) \<noteq> None"
  then obtain r where r: "mget (sn_Receipts data) (EventKey t i) = Some r" by auto
  have hot: "mget (sn_Events data) (EventKey t i) = None"
    using no by (auto simp: checkExistingIngest_def Let_def split: option.splits sum.splits if_splits)
  have status: "rc_Status r \<noteq> StatusArchived"
    using no r hot by (auto simp: checkExistingIngest_def Let_def split: sum.splits if_splits)
  obtain e where e: "logged hist e" "EventKey t i = eventKeyOf e"
    using inv r unfolding ledgerInv_def receiptsOK_def by blast
  obtain s where s: "mget (sn_Receipts data) (eventKeyOf e) = Some s"
    "rc_Status s \<noteq> StatusArchived \<longrightarrow> mget (sn_Events data) (eventKeyOf e) = Some e"
    using receiptsOK_receipt [OF _ e(1)] inv unfolding ledgerInv_def by blast
  then show False using r e(2) hot status by simp
qed

lemma appendLedger_Inr:
  assumes "appendLedger cfg newID t e data = Inr (e', sealed, data')"
  defines "key \<equiv> EventKey t (ev_EventID e)" and "skey \<equiv> StreamKey t (Stream e)"
    and "st \<equiv> extendStream (currentStream data t (Stream e)) (EventKey t (ev_EventID e)) e'"
  shows "placeEvent (currentStream data t (Stream e)) (Stream e) e = Inr e' \<and>
    (let outbox = (if cf_LedgeredPublisher cfg then mput (sn_LedgeredOutbox data) key e' else sn_LedgeredOutbox data);
         data1 = data\<lparr>sn_Streams := mput (sn_Streams data) skey st, sn_Events := mput (sn_Events data) key e',
        sn_LedgeredOutbox := outbox, sn_Receipts := mput (sn_Receipts data) key (ledgeredReceipt t e')\<rparr>
      in sealed = [] \<and> data' = data1
         \<or> (\<exists>gc. sealSegment cfg newID st (ev_ReceivedAt e) = Inr gc \<and> sealed = [fst gc] \<and> data' = recordSeal skey st gc data1))"
  using assms by (auto simp: appendLedger_def Let_def rbind_eq_Inr split: if_splits)

lemma streamsOK_segments:
  assumes "streamsOK cfg hist streams segments" "\<forall>k. mget_or [] segments' k = mget_or [] segments k"
  shows "streamsOK cfg hist streams segments'"
proof -
  have eq: "mget_or [] segments' = mget_or [] segments" using assms(2) by auto
  show ?thesis using assms(1) unfolding streamsOK_def eq .
qed

lemma currentStream_OK:
  assumes ok: "streamsOK cfg hist (sn_Streams data) (sn_Segments data)"
    and t: "KeySeparator \<notin> set t" and sid: "KeySeparator \<notin> set sid" "sid \<noteq> []"
  shows "streamOK cfg t sid (hist (StreamKey t sid)) (currentStream data t sid) (mget_or [] (sn_Segments data) (StreamKey t sid))"
proof (cases "mget (sn_Streams data) (StreamKey t sid)")
  case None
  then show ?thesis
    using streamOK_empty [OF sid(2), of cfg t] streamsOK_none [OF ok None]
    by (simp add: currentStream_def mget_or_def zeroStream_def Let_def)
next
  case (Some st)
  obtain t' sid' where k: "StreamKey t sid = StreamKey t' sid'" "KeySeparator \<notin> set t'"
    and st: "streamOK cfg t' sid' (hist (StreamKey t sid)) st (mget_or [] (sn_Segments data) (StreamKey t sid))"
    using streamsOK_stream [OF ok Some] by metis
  have "t' = t" "sid' = sid" using stream_key.frame_inj [OF t k(2)] k(1) by auto
  then show ?thesis using Some st by (auto simp: currentStream_def mget_or_def Let_def streamOK_def)
qed

lemma logged_update:
  assumes "membersOK cfg hist schemas" "skey = StreamKey (ev_TenantID e') (ev_StreamID e')"
  shows "logged (hist(skey := hist skey @ [e'])) x \<longleftrightarrow> logged hist x \<or> x = e'"
  using assms by (auto simp: logged_def)

lemma ledgerInv_append:
  assumes inv: "ledgerInv cfg hist data" and p: "preparedOK cfg (sn_Schemas data) p"
    and fresh: "mget (sn_Receipts data) (EventKey (pr_TenantID p) (ev_EventID (pr_Event p))) = None"
    and app: "appendLedger cfg newID (pr_TenantID p) (pr_Event p) data = Inr (e', sealed, data')"
  defines "skey \<equiv> StreamKey (pr_TenantID p) (Stream (pr_Event p))"
  shows "ledgerInv cfg (hist(skey := hist skey @ [e'])) data'"
    and "ev_TenantID e' = pr_TenantID p \<and> ev_StreamID e' = Stream (pr_Event p) \<and> ev_SourceDigest e' = pr_InputDigest p"
proof -
  let ?t = "pr_TenantID p" let ?e = "pr_Event p" let ?sid = "Stream (pr_Event p)"
  let ?cur = "currentStream data ?t ?sid" let ?key = "EventKey ?t (ev_EventID ?e)"
  let ?st = "extendStream ?cur ?key e'" let ?hist = "hist(skey := hist skey @ [e'])"
  note ap = appendLedger_Inr [OF app]
  obtain h where e': "e' = ?e\<lparr>ev_StreamID := ?sid, ev_Sequence := st_NextSequence ?cur, ev_PrevHash := st_HeadHash ?cur, ev_Hash := h\<rparr>"
    using placeEvent_Inr [OF conjunct1 [OF ap]] by auto
  have coords: "ev_TenantID e' = ?t" "ev_StreamID e' = ?sid" "ev_EventID e' = ev_EventID ?e" "ev_SourceDigest e' = pr_InputDigest p"
    "eventKeyOf e' = ?key" "ev_IdempotencyKey e' = ev_IdempotencyKey ?e"
    using p by (simp_all add: e' preparedOK_def eventKeyOf_def)
  then show "ev_TenantID e' = ?t \<and> ev_StreamID e' = ?sid \<and> ev_SourceDigest e' = pr_InputDigest p" by simp
  have sep: "KeySeparator \<notin> set ?t" "KeySeparator \<notin> set ?sid" "?sid \<noteq> []" "KeySeparator \<notin> set (ev_EventID ?e)"
    using p by (simp_all add: preparedOK_def)
  have members: "membersOK cfg hist (sn_Schemas data)" and receipts: "receiptsOK hist (sn_Receipts data) (sn_Events data)"
    and streams: "streamsOK cfg hist (sn_Streams data) (sn_Segments data)"
    using inv by (simp_all add: ledgerInv_def)
  have lg: "logged ?hist x \<longleftrightarrow> logged hist x \<or> x = e'" for x
    by (rule logged_update [OF members]) (simp add: skey_def coords)
  have new: "eventKeyOf x \<noteq> ?key" if "logged hist x" for x
    using receiptsOK_receipt [OF receipts that] fresh by fastforce
  have st: "streamOK cfg ?t ?sid (hist skey @ [e']) ?st (mget_or [] (sn_Segments data) skey)"
    unfolding skey_def
    by (rule streamOK_extend [OF currentStream_OK [OF streams sep(1,2,3)] conjunct1 [OF ap]]) (simp add: coords)
  have s1: "streamsOK cfg ?hist (mput (sn_Streams data) skey ?st) (sn_Segments data)"
    by (rule streamsOK_segments [OF streamsOK_update [OF streams skey_def [THEN meta_eq_to_obj_eq] sep(1,2) st]])
      (simp add: mget_or_def mget_mput)
  have m1: "membersOK cfg ?hist (sn_Schemas data)"
    unfolding membersOK_def
  proof (intro conjI allI impI)
    fix k x assume x: "x \<in> set (?hist k)"
    have "contentOK cfg (sn_Schemas data) e'" using p by (simp add: e' preparedOK_def)
    then show "k = StreamKey (ev_TenantID x) (ev_StreamID x)" "KeySeparator \<notin> set (ev_TenantID x)"
      "KeySeparator \<notin> set (ev_EventID x)" "contentOK cfg (sn_Schemas data) x"
      using x members coords sep by (auto simp: membersOK_def skey_def split: if_splits)
  next
    fix x y assume "logged ?hist x \<and> logged ?hist y \<and> eventKeyOf x = eventKeyOf y"
    then show "x = y" using members new coords(5) unfolding lg membersOK_def by metis
  qed
  have ro: "receiptOf (ledgeredReceipt ?t e') e'" "rc_Status (ledgeredReceipt ?t e') = StatusLedgered"
    by (simp_all add: receiptOf_def ledgeredReceipt_def coords)
  have r1: "receiptsOK ?hist (mput (sn_Receipts data) ?key (ledgeredReceipt ?t e')) (mput (sn_Events data) ?key e')"
    unfolding receiptsOK_def
  proof (intro conjI allI impI)
    show "\<exists>x. logged ?hist x \<and> k = eventKeyOf x \<and> receiptOf r x"
      if "mget (mput (sn_Receipts data) ?key (ledgeredReceipt ?t e')) k = Some r" for k r
      using that receipts ro(1) coords(5) unfolding lg by (auto simp: receiptsOK_def mget_mput split: if_splits)
    show "\<exists>r. mget (mput (sn_Receipts data) ?key (ledgeredReceipt ?t e')) (eventKeyOf x) = Some r \<and> receiptOf r x
        \<and> (rc_Status r \<noteq> StatusArchived \<longrightarrow> mget (mput (sn_Events data) ?key e') (eventKeyOf x) = Some x)"
      if x: "logged ?hist x" for x
    proof (cases "x = e'")
      case False
      then have "logged hist x" "eventKeyOf x \<noteq> ?key" using x new unfolding lg by auto
      then show ?thesis using receiptsOK_receipt [OF receipts] by (metis mget_mput)
    qed (use ro(1) coords(5) in \<open>simp add: mget_mput\<close>)
    show "logged ?hist x" "k = eventKeyOf x" if "mget (mput (sn_Events data) ?key e') k = Some x" for k x
      using that receipts coords(5) unfolding lg by (auto simp: receiptsOK_def mget_mput split: if_splits)
  qed
  have d1: "ledgerInv cfg ?hist (data\<lparr>sn_Streams := mput (sn_Streams data) skey ?st, sn_Events := mput (sn_Events data) ?key e',
        sn_LedgeredOutbox := outbox, sn_Receipts := mput (sn_Receipts data) ?key (ledgeredReceipt ?t e')\<rparr>)" for outbox
    using inv s1 m1 r1 by (simp add: ledgerInv_def wf_map_mput)
  have pend: "st_PendingHashes ?st \<noteq> []" by (simp add: extendStream_def Let_def)
  show "ledgerInv cfg ?hist data'"
    using conjunct2 [OF ap] d1 ledgerInv_seal [OF d1 _ pend]
    by (auto simp: Let_def skey_def [symmetric] mget_mput)
qed

subsection \<open>Reachable snapshots\<close>

inductive ledgerReach :: "Config \<Rightarrow> ledgerLog \<Rightarrow> Snapshot \<Rightarrow> bool" for cfg where
  start: "ledgerReach cfg (\<lambda>_. []) NewSnapshot"
| commit: "ledgerReach cfg hist data \<Longrightarrow> preparedFrom cfg data p
    \<Longrightarrow> ingestCommit cfg get newID hint client p data = Committed r e sealed data'
    \<Longrightarrow> key = StreamKey (pr_TenantID p) (Stream (pr_Event p))
    \<Longrightarrow> ledgerReach cfg (hist(key := hist key @ [e])) data'"
| transition: "ledgerReach cfg hist data \<Longrightarrow> transitionReceipt data now t i status evict = Inr (r, data')
    \<Longrightarrow> status = StatusArchived \<or> \<not> evict \<and> rc_Status (mget_or zeroReceipt (sn_Receipts data) (EventKey t i)) \<noteq> StatusArchived
    \<Longrightarrow> ledgerReach cfg hist data'"
| seal: "ledgerReach cfg hist data \<Longrightarrow> SealPendingSegments cfg newIDs now t data = Inr (m, data') \<Longrightarrow> ledgerReach cfg hist data'"
| archive: "ledgerReach cfg hist data \<Longrightarrow> archiveCommit now t evicted archived dead data = Inr data' \<Longrightarrow> ledgerReach cfg hist data'"
| control: "ledgerReach cfg hist data \<Longrightarrow> sn_Streams data' = sn_Streams data \<Longrightarrow> sn_Segments data' = sn_Segments data
    \<Longrightarrow> sn_Events data' = sn_Events data \<Longrightarrow> sn_Receipts data' = sn_Receipts data
    \<Longrightarrow> schemasExtend (sn_Schemas data) (sn_Schemas data') \<Longrightarrow> ledgerReach cfg hist data'"

lemma ingestCommit_Committed:
  assumes "ingestCommit cfg get newID hint client p data = Committed r e sealed data'"
  shows "checkExistingIngest cfg get data (pr_TenantID p) (ev_EventID (pr_Event p)) (pr_InputDigest p) = NoExisting
    \<and> appendLedger cfg newID (pr_TenantID p) (pr_Event p) data = Inr (e, sealed, data') \<and> r = ledgeredReceipt (pr_TenantID p) e
    \<and> \<not> idempotencyKeyReused data (pr_TenantID p) (EventKey (pr_TenantID p) (ev_EventID (pr_Event p))) (ev_IdempotencyKey (pr_Event p))"
  using assms by (auto simp: ingestCommit_def Let_def split: if_splits existing.splits option.splits sum.splits)

lemma ledgerReach_inv:
  assumes "ledgerReach cfg hist data" and ae: "aead_ok (cf_Aead cfg)"
  shows "ledgerInv cfg hist data"
  using assms(1)
proof (induction rule: ledgerReach.induct)
  case (commit hist data p get newID hint client r e sealed data' key)
  note c = ingestCommit_Committed [OF commit.hyps(3)]
  show ?case
    unfolding commit.hyps(4)
    by (rule ledgerInv_append(1) [OF commit.IH preparedFrom_OK [OF commit.hyps(2) ae]])
      (use c checkExisting_none [OF commit.IH] in blast)+
qed (blast intro: ledgerInv_start ledgerInv_transition ledgerInv_sealPending ledgerInv_archiveCommit ledgerInv_control)+

subsection \<open>Reading the log back\<close>

lemma sort_slice_cong:
  assumes "\<And>x y. x \<in> set xs \<Longrightarrow> y \<in> set xs \<Longrightarrow> lt x y = lt' x y"
  shows "sort_slice lt xs = sort_slice lt' xs"
proof -
  have ins: "insert_less lt x ys = insert_less lt' x ys" if "\<And>y. y \<in> set ys \<Longrightarrow> lt y x = lt' y x" for x ys
    using that by (induction ys) auto
  show ?thesis using assms
  proof (induction xs)
    case (Cons x xs)
    then have "sort_slice lt xs = sort_slice lt' xs" by simp
    then show ?case using Cons.prems by (auto intro!: ins)
  qed simp
qed

lemma chained_sequences: "chained head n es \<Longrightarrow> map ev_Sequence es = map (\<lambda>i. n + int i) [0..<length es]"
  by (rule nth_equalityI) (simp_all add: chained_nth)

lemma chained_distinct:
  assumes "chained head n es"
  shows "distinct es" "inj_on ev_Sequence (set es)" "sorted_wrt (\<lambda>a b. ev_Sequence a < ev_Sequence b) es"
proof -
  have d: "distinct (map ev_Sequence es)"
    unfolding chained_sequences [OF assms] by (simp add: distinct_map inj_on_def)
  then show "distinct es" "inj_on ev_Sequence (set es)" by (simp_all add: distinct_map)
  show "sorted_wrt (\<lambda>a b. ev_Sequence a < ev_Sequence b) es"
    by (auto simp: sorted_wrt_iff_nth_less chained_nth [OF assms])
qed

lemma streamEvents_log:
  assumes chain: "chained head n es" and d: "distinct events" and s: "{e \<in> set events. ev_StreamID e = sid} = set es"
  shows "streamEvents events sid = es"
proof -
  let ?xs = "filter (\<lambda>e. ev_StreamID e = sid) events"
  note c = chained_distinct [OF chain]
  have set: "set ?xs = set es" using s by auto
  have m: "mset ?xs = mset es" using set_eq_iff_mset_eq_distinct [OF distinct_filter [OF d] c(1)] set by blast
  have "sort_slice sequenceLess ?xs = sort_slice (\<lambda>a b. ev_Sequence a < ev_Sequence b) ?xs"
    by (rule sort_slice_cong) (use c(2) set in \<open>auto simp: sequenceLess_def dest: inj_onD\<close>)
  also have "\<dots> = sort_slice (\<lambda>a b. ev_Sequence a < ev_Sequence b) es" by (rule sort_slice_perm [OF m c(2)])
  also have "\<dots> = es"
    by (rule sort_slice_sorted_id [OF strict_order_key]) (use c(3) in \<open>auto elim: sorted_wrt_mono_rel [rotated]\<close>)
  finally show ?thesis by (simp add: streamEvents_def)
qed

subsection \<open>What verification reads\<close>

text \<open>The archive gives back the event whose canonical text was stored under its key.\<close>

definition archiveReadable :: "Config \<Rightarrow> (string \<Rightarrow> string result) \<Rightarrow> Event \<Rightarrow> bool" where
  "archiveReadable cfg get e \<longleftrightarrow>
     (case get (eventArchiveKey (ev_TenantID e) (ev_StreamID e) (ev_Sequence e) (ev_EventID e)) of
        Inl _ \<Rightarrow> False | Inr raw \<Rightarrow> cf_DecodeEvent cfg raw = Inr e)"

definition evictedReadable :: "Config \<Rightarrow> (string \<Rightarrow> string result) \<Rightarrow> ledgerLog \<Rightarrow> Snapshot \<Rightarrow> bool" where
  "evictedReadable cfg get hist data \<longleftrightarrow>
     (\<forall>e. logged hist e \<and> mget (sn_Events data) (eventKeyOf e) = None \<longrightarrow> cf_ArchiveConfigured cfg \<and> archiveReadable cfg get e)"

lemma archivedEvent_readable:
  assumes "archiveReadable cfg get e" "cf_ArchiveConfigured cfg" "receiptOf r e" "eventHash e = Inr (ev_Hash e)"
  shows "archivedEvent cfg get r = Inr e"
proof -
  have "ev_Hash e \<noteq> []" using assms(4) by (auto simp: eventHash_def rbind_eq_Inr)
  then show ?thesis
    using assms by (auto simp: archivedEvent_def archiveReadable_def receiptOf_def split: sum.splits)
qed

lemma logged_stream:
  assumes inv: "ledgerInv cfg hist data" and e: "logged hist e"
  shows "\<exists>st. mget (sn_Streams data) (StreamKey (ev_TenantID e) (ev_StreamID e)) = Some st
      \<and> streamOK cfg (ev_TenantID e) (ev_StreamID e) (hist (StreamKey (ev_TenantID e) (ev_StreamID e))) st
          (mget_or [] (sn_Segments data) (StreamKey (ev_TenantID e) (ev_StreamID e)))"
proof -
  let ?key = "StreamKey (ev_TenantID e) (ev_StreamID e)"
  have streams: "streamsOK cfg hist (sn_Streams data) (sn_Segments data)" and t: "KeySeparator \<notin> set (ev_TenantID e)"
    using inv e by (auto simp: ledgerInv_def membersOK_def logged_def)
  have "mget (sn_Streams data) ?key \<noteq> None" using streamsOK_none(1) [OF streams] e by (fastforce simp: logged_def)
  then obtain st where st: "mget (sn_Streams data) ?key = Some st" by auto
  obtain t' sid' where k: "?key = StreamKey t' sid'" "KeySeparator \<notin> set t'"
    and ok: "streamOK cfg t' sid' (hist ?key) st (mget_or [] (sn_Segments data) ?key)"
    using streamsOK_stream [OF streams st] by metis
  have "t' = ev_TenantID e" "sid' = ev_StreamID e" using stream_key.frame_inj [OF t k(2)] k(1) by auto
  then show ?thesis using st ok by blast
qed

lemma chained_hash: "chained head n es \<Longrightarrow> e \<in> set es \<Longrightarrow> eventHash e = Inr (ev_Hash e)"
  by (induction es arbitrary: head n) auto

lemma logged_hash: "ledgerInv cfg hist data \<Longrightarrow> logged hist e \<Longrightarrow> eventHash e = Inr (ev_Hash e)"
  using logged_stream [of cfg hist data e] chained_hash by (auto simp: streamOK_def logged_def)

lemma resolveHot_spec:
  assumes "\<forall>(k, e) \<in> set kvs. CloneEvent e = Inr e \<and> mget (sn_Receipts data) k \<noteq> None" "t \<noteq> []"
  shows "resolveHot data t P False kvs = Inr (filter (\<lambda>e. ev_TenantID e = t \<and> P e) (map snd kvs))"
  using assms(1)
proof (induction kvs)
  case (Cons kv kvs)
  obtain k e where kv: "kv = (k, e)" by fastforce
  have "CloneEvent e = Inr e" "mget (sn_Receipts data) k \<noteq> None" using Cons.prems kv by auto
  then show ?case using Cons kv assms(2) by (auto simp: Let_def split: option.splits)
qed simp

lemma resolveCold_spec:
  assumes "\<forall>k \<in> set keys. \<exists>e. archivedEvent cfg get (mget_or zeroReceipt (sn_Receipts data) k) = Inr e \<and> f k = e \<and> CloneEvent e = Inr e"
  shows "resolveCold cfg get data P keys = Inr (filter P (map f keys))"
  using assms by (induction keys) auto

lemma logged_content: "membersOK cfg hist schemas \<Longrightarrow> logged hist e \<Longrightarrow> contentOK cfg schemas e"
  unfolding membersOK_def logged_def by blast

lemma archivedKeys_iff:
  assumes inv: "ledgerInv cfg hist data" and t: "t \<noteq> []"
  shows "k \<in> set (archivedKeys data t) \<longleftrightarrow>
    (\<exists>e. logged hist e \<and> k = eventKeyOf e \<and> ev_TenantID e = t \<and> mget (sn_Events data) k = None)"
proof -
  have ok: "receiptsOK hist (sn_Receipts data) (sn_Events data)" and wf: "wf_map (sn_Receipts data)"
    using inv by (simp_all add: ledgerInv_def)
  have mem: "k \<in> set (archivedKeys data t) \<longleftrightarrow> (\<exists>r. mget (sn_Receipts data) k = Some r \<and> rc_TenantID r = t
      \<and> rc_Status r = StatusArchived \<and> mget (sn_Events data) k = None)"
    using t mget_iff [OF wf] by (force simp: archivedKeys_def)
  show ?thesis
  proof
    assume "k \<in> set (archivedKeys data t)"
    then show "\<exists>e. logged hist e \<and> k = eventKeyOf e \<and> ev_TenantID e = t \<and> mget (sn_Events data) k = None"
      unfolding mem using ok by (fastforce simp: receiptsOK_def receiptOf_def)
  next
    assume "\<exists>e. logged hist e \<and> k = eventKeyOf e \<and> ev_TenantID e = t \<and> mget (sn_Events data) k = None"
    then obtain e where e: "logged hist e" "k = eventKeyOf e" "ev_TenantID e = t" "mget (sn_Events data) k = None" by blast
    obtain r where "mget (sn_Receipts data) k = Some r" "receiptOf r e"
      "rc_Status r \<noteq> StatusArchived \<longrightarrow> mget (sn_Events data) k = Some e"
      using receiptsOK_receipt [OF ok e(1)] e(2) by blast
    then show "k \<in> set (archivedKeys data t)" unfolding mem using e by (auto simp: receiptOf_def)
  qed
qed

lemma resolve_log:
  assumes inv: "ledgerInv cfg hist data" and rd: "evictedReadable cfg get hist data" and t: "t \<noteq> []"
  shows "\<exists>events. resolveSnapshotEvents cfg get data t P False = Inr events \<and> distinct events
    \<and> set events = {e. logged hist e \<and> ev_TenantID e = t \<and> P e}"
proof -
  have ok: "receiptsOK hist (sn_Receipts data) (sn_Events data)" and members: "membersOK cfg hist (sn_Schemas data)"
    and wf: "wf_map (sn_Events data)" "wf_map (sn_Receipts data)"
    using inv by (simp_all add: ledgerInv_def)
  define f where "f k = (SOME e. logged hist e \<and> eventKeyOf e = k)" for k
  have f: "f (eventKeyOf e) = e" if "logged hist e" for e
    unfolding f_def by (rule some_equality) (use that members in \<open>auto simp: membersOK_def\<close>)
  have clone: "CloneEvent e = Inr e" if "logged hist e" for e
    using contentOK_clone [OF logged_content [OF members that]] .
  have hotmem: "logged hist e \<and> k = eventKeyOf e \<and> mget (sn_Receipts data) k \<noteq> None" if "(k, e) \<in> set (sn_Events data)" for k e
  proof -
    have "logged hist e" "k = eventKeyOf e" using that mget_iff [OF wf(1), of k e] ok by (auto simp: receiptsOK_def)
    then show ?thesis using receiptsOK_receipt [OF ok] by (metis option.distinct(1))
  qed
  let ?hot = "filter (\<lambda>e. ev_TenantID e = t \<and> P e) (map snd (sn_Events data))"
  have hot: "resolveHot data t P False (sn_Events data) = Inr ?hot"
    by (rule resolveHot_spec [OF _ t]) (use hotmem clone in blast)
  let ?cold = "filter P (map f (archivedKeys data t))"
  have cold: "resolveCold cfg get data P (archivedKeys data t) = Inr ?cold"
  proof (rule resolveCold_spec, intro ballI)
    fix k assume "k \<in> set (archivedKeys data t)"
    then obtain e where e: "logged hist e" "k = eventKeyOf e" "mget (sn_Events data) k = None"
      using archivedKeys_iff [OF inv t] by blast
    obtain r where r: "mget (sn_Receipts data) k = Some r" "receiptOf r e" using receiptsOK_receipt [OF ok e(1)] e(2) by metis
    have "archivedEvent cfg get r = Inr e"
      by (rule archivedEvent_readable) (use rd e r logged_hash [OF inv e(1)] in \<open>auto simp: evictedReadable_def\<close>)
    then show "\<exists>e. archivedEvent cfg get (mget_or zeroReceipt (sn_Receipts data) k) = Inr e \<and> f k = e \<and> CloneEvent e = Inr e"
      using r e f clone by (auto simp: mget_or_def)
  qed
  have dhot: "distinct ?hot"
  proof -
    have "inj_on snd (set (sn_Events data))"
    proof (rule inj_onI)
      fix p q assume p: "p \<in> set (sn_Events data)" "q \<in> set (sn_Events data)" "snd p = snd q"
      then have "fst p = eventKeyOf (snd p)" "fst q = eventKeyOf (snd q)" using hotmem by (metis prod.collapse)+
      then show "p = q" using p(3) by (simp add: prod_eq_iff)
    qed
    then have "distinct (map snd (sn_Events data))" using wf(1) by (simp add: distinct_map wf_map_def)
    then show ?thesis by simp
  qed
  have dcold: "distinct ?cold"
  proof -
    have "distinct (archivedKeys data t)" using wf(2) by (simp add: archivedKeys_def wf_map_def distinct_map_filter)
    moreover have "inj_on f (set (archivedKeys data t))"
    proof (rule inj_onI)
      fix k k' assume k: "k \<in> set (archivedKeys data t)" "k' \<in> set (archivedKeys data t)" "f k = f k'"
      then show "k = k'" using archivedKeys_iff [OF inv t] f by metis
    qed
    ultimately show ?thesis by (simp add: distinct_map)
  qed
  have shot: "set ?hot = {e. logged hist e \<and> ev_TenantID e = t \<and> P e \<and> mget (sn_Events data) (eventKeyOf e) \<noteq> None}"
  proof -
    have "e \<in> snd ` set (sn_Events data) \<longleftrightarrow> logged hist e \<and> mget (sn_Events data) (eventKeyOf e) \<noteq> None" for e
    proof
      assume "e \<in> snd ` set (sn_Events data)"
      then obtain k where k: "(k, e) \<in> set (sn_Events data)" by auto
      then show "logged hist e \<and> mget (sn_Events data) (eventKeyOf e) \<noteq> None"
        using hotmem [OF k] mget_iff [OF wf(1), of k e] by auto
    next
      assume e: "logged hist e \<and> mget (sn_Events data) (eventKeyOf e) \<noteq> None"
      then obtain e' where e': "mget (sn_Events data) (eventKeyOf e) = Some e'" by auto
      then have "logged hist e'" "eventKeyOf e = eventKeyOf e'" using ok unfolding receiptsOK_def by blast+
      then have "e' = e" using members e unfolding membersOK_def by metis
      then show "e \<in> snd ` set (sn_Events data)" using mget_in [OF e'] by force
    qed
    then show ?thesis by auto
  qed
  have scold: "set ?cold = {e. logged hist e \<and> ev_TenantID e = t \<and> P e \<and> mget (sn_Events data) (eventKeyOf e) = None}"
  proof (intro equalityI subsetI)
    fix e assume "e \<in> set ?cold"
    then obtain k where "k \<in> set (archivedKeys data t)" "e = f k" "P e" by auto
    then show "e \<in> {e. logged hist e \<and> ev_TenantID e = t \<and> P e \<and> mget (sn_Events data) (eventKeyOf e) = None}"
      using archivedKeys_iff [OF inv t, of k] f by auto
  next
    fix e assume e: "e \<in> {e. logged hist e \<and> ev_TenantID e = t \<and> P e \<and> mget (sn_Events data) (eventKeyOf e) = None}"
    then have "eventKeyOf e \<in> set (archivedKeys data t)" using archivedKeys_iff [OF inv t, of "eventKeyOf e"] by auto
    then have "f (eventKeyOf e) \<in> f ` set (archivedKeys data t)" by (rule imageI)
    then show "e \<in> set ?cold" using e f by auto
  qed
  have "resolveSnapshotEvents cfg get data t P False = Inr (?hot @ ?cold)"
    by (simp add: resolveSnapshotEvents_def hot cold)
  moreover have "distinct (?hot @ ?cold)" using dhot dcold shot scold by auto
  moreover have "set (?hot @ ?cold) = {e. logged hist e \<and> ev_TenantID e = t \<and> P e}"
    unfolding set_append shot scold by auto
  ultimately show ?thesis by blast
qed

subsection \<open>Honest histories verify\<close>

definition signerOK :: "Config \<Rightarrow> bool" where
  "signerOK cfg \<longleftrightarrow> (\<forall>m s. cf_Sign cfg m = Inr s \<longrightarrow> cf_Verify cfg m s = Inr True)"

lemma checkChain_honest:
  "chained head n es \<Longrightarrow> \<forall>e \<in> set es. contentOK cfg schemas e \<Longrightarrow> checkChain cfg schemas sid head es = []"
  by (induction es arbitrary: head n) (auto simp: checkEvent_def contentOK_verifies)

lemma lastWith_skip: "(\<forall>e \<in> set es. ev_Sequence e \<noteq> n) \<Longrightarrow> fold (\<lambda>e acc. if ev_Sequence e = n then field e else acc) es x = x"
  by (induction es arbitrary: x) auto

lemma lastWith_nth:
  assumes "chained head 1 es" "i < length es"
  shows "lastWith field (int i + 1) es = field (es ! i)"
proof -
  have split: "es = take i es @ es ! i # drop (Suc i) es" using assms(2) by (rule id_take_nth_drop)
  have "\<forall>e \<in> set (drop (Suc i) es). ev_Sequence e \<noteq> int i + 1"
    using chained_nth [OF assms(1)] by (auto simp: in_set_conv_nth)
  then show ?thesis
    unfolding lastWith_def by (subst split) (simp add: lastWith_skip chained_nth [OF assms])
qed

lemma filter_range_chained:
  assumes "chained head 1 es" "a \<le> b" "b \<le> length es"
  shows "filter (\<lambda>e. int a + 1 \<le> ev_Sequence e \<and> ev_Sequence e \<le> int b) es = take (b - a) (drop a es)"
proof -
  have split: "es = take a es @ take (b - a) (drop a es) @ drop b es"
    using assms(2) by (metis append_take_drop_id drop_drop le_add_diff_inverse2)
  let ?P = "\<lambda>e. int a + 1 \<le> ev_Sequence e \<and> ev_Sequence e \<le> int b"
  have "filter ?P (take a es) = []" "filter ?P (drop b es) = []"
    using chained_nth [OF assms(1)] by (auto simp: filter_empty_conv in_set_conv_nth)
  moreover have "filter ?P (take (b - a) (drop a es)) = take (b - a) (drop a es)"
    using chained_nth [OF assms(1)] assms(3) by (auto simp: filter_id_conv in_set_conv_nth)
  ultimately show ?thesis by (subst split) simp
qed

lemma checkSegment_honest:
  assumes chain: "chained [] 1 es" and sid: "\<forall>e \<in> set es. ev_StreamID e = sid"
    and g: "sealedBy cfg t sid es a b g" and sign: "signerOK cfg"
  shows "checkSegment cfg es g = []"
proof -
  have ab: "a < b" "b \<le> length es" and f: "sg_StreamID g = sid" "sg_FirstSequence g = int a + 1" "sg_LastSequence g = int b"
    using g by (simp_all add: sealedBy_def)
  have "filter (\<lambda>e. ev_StreamID e = sg_StreamID g \<and> ev_Sequence e \<ge> sg_FirstSequence g \<and> ev_Sequence e \<le> sg_LastSequence g) es
      = filter (\<lambda>e. int a + 1 \<le> ev_Sequence e \<and> ev_Sequence e \<le> int b) es"
    using sid f by (intro filter_cong) auto
  also have "\<dots> = take (b - a) (drop a es)" by (rule filter_range_chained [OF chain]) (use ab in auto)
  finally have range: "filter (\<lambda>e. ev_StreamID e = sg_StreamID g \<and> ev_Sequence e \<ge> sg_FirstSequence g \<and> ev_Sequence e \<le> sg_LastSequence g) es
      = take (b - a) (drop a es)" .
  have lo: "lastWith ev_PrevHash (int a + 1) es = ev_PrevHash (es ! a)" by (rule lastWith_nth [OF chain]) (use ab in auto)
  have hi: "lastWith ev_Hash (int b) es = ev_Hash (es ! (b - 1))"
    using lastWith_nth [OF chain, of "b - 1" ev_Hash] ab by (simp add: of_nat_diff)
  have "cf_Verify cfg (sg_ManifestHash g) (sg_Signature g) = Inr True" using g sign by (auto simp: sealedBy_def signerOK_def)
  then show ?thesis
    unfolding checkSegment_def Let_def range using g lo hi ab by (auto simp: sealedBy_def of_nat_diff)
qed

definition aggregatesVerify :: "Config \<Rightarrow> string \<Rightarrow> Snapshot \<Rightarrow> bool" where
  "aggregatesVerify cfg t data \<longleftrightarrow>
     list_all (\<lambda>a. (ag_TenantID a = t \<or> aggregateReferencesTenant (sn_Checkpoints data) t a)
        \<longrightarrow> verifyAggregateCheckpoint cfg t a (sn_Checkpoints data) = None) (sn_AggregateCheckpoints data)"

lemma tenantSegments_mem:
  assumes "g \<in> set (tenantSegments data t sid)"
  shows "\<exists>key gs s. (key, gs) \<in> set (sn_Segments data) \<and> g \<in> set gs \<and> SplitTenantKey key = (t, s, True) \<and> (sid = [] \<or> s = sid)"
proof -
  obtain key gs where kg: "(key, gs) \<in> set (sn_Segments data)" "g \<in> set gs"
    "case SplitTenantKey key of (tid, s, ok) \<Rightarrow> ok \<and> tid = t \<and> (sid = [] \<or> s = sid)"
    using assms by (auto simp: tenantSegments_def)
  obtain tid s ok where "SplitTenantKey key = (tid, s, ok)" by (metis prod_cases3)
  then show ?thesis using kg by auto
qed

lemma verifySnapshot_honest:
  assumes inv: "ledgerInv cfg hist data" and sign: "signerOK cfg" and agg: "aggregatesVerify cfg t data"
    and t: "KeySeparator \<notin> set t"
    and ev: "distinct events" "set events = {e. logged hist e \<and> ev_TenantID e = t \<and> (sid = [] \<or> ev_StreamID e = sid)}"
  shows "verifySnapshot cfg t events (tenantSegments data t sid) data = []"
proof -
  have members: "membersOK cfg hist (sn_Schemas data)" and streams: "streamsOK cfg hist (sn_Streams data) (sn_Segments data)"
    and wf: "wf_map (sn_Segments data)" using inv by (simp_all add: ledgerInv_def)
  have set: "e \<in> set (hist (StreamKey t s)) \<longleftrightarrow> logged hist e \<and> ev_TenantID e = t \<and> ev_StreamID e = s" for e s
  proof
    assume e: "e \<in> set (hist (StreamKey t s))"
    then have k: "StreamKey t s = StreamKey (ev_TenantID e) (ev_StreamID e)" "KeySeparator \<notin> set (ev_TenantID e)"
      using members unfolding membersOK_def by blast+
    then have "ev_TenantID e = t \<and> ev_StreamID e = s" using stream_key.frame_inj [OF t k(2)] by auto
    then show "logged hist e \<and> ev_TenantID e = t \<and> ev_StreamID e = s" using e by (auto simp: logged_def)
  qed (auto simp: logged_def)
  have content: "\<forall>e \<in> set (hist k). contentOK cfg (sn_Schemas data) e" for k using members unfolding membersOK_def by blast
  have stream: "streamEvents events s = hist (StreamKey t s)" if "chained [] 1 (hist (StreamKey t s))" "sid = [] \<or> s = sid" for s
    by (rule streamEvents_log [OF that(1) ev(1)]) (use ev(2) set that(2) in auto)
  have chains: "checkChain cfg (sn_Schemas data) s [] (streamEvents events s) = []" if nm: "s \<in> set (streamNames events)" for s
  proof -
    obtain e where e: "logged hist e" "ev_TenantID e = t" "ev_StreamID e = s" "sid = [] \<or> s = sid"
      using nm ev(2) by (auto simp: streamNames_def)
    have "chained [] 1 (hist (StreamKey t s))" using logged_stream [OF inv e(1)] e by (auto simp: streamOK_def)
    then show ?thesis using stream e(4) checkChain_honest content by simp
  qed
  have segments: "checkSegment cfg (streamEvents events (sg_StreamID g)) g = []" if gm: "g \<in> set (tenantSegments data t sid)" for g
  proof -
    obtain key gs s where kg: "(key, gs) \<in> set (sn_Segments data)" "g \<in> set gs" "SplitTenantKey key = (t, s, True)" "sid = [] \<or> s = sid"
      using tenantSegments_mem [OF gm] by blast
    have key: "key = StreamKey t s" using kg(3) by (simp add: SplitTenantKey_ok_iff StreamKey_def)
    have gs: "mget_or [] (sn_Segments data) key = gs" using mget_iff [OF wf, THEN iffD2, OF kg(1)] by (simp add: mget_or_def)
    have "mget (sn_Streams data) key \<noteq> None" using streamsOK_none(2) [OF streams, of key] gs kg(2) by fastforce
    then obtain st where st: "mget (sn_Streams data) key = Some st" by auto
    obtain t' s' where k': "key = StreamKey t' s'" "KeySeparator \<notin> set t'" and ok: "streamOK cfg t' s' (hist key) st gs"
      using streamsOK_stream [OF streams st] gs by metis
    have eq: "t' = t" "s' = s" using stream_key.frame_inj [OF t k'(2)] k'(1) key by auto
    have ch: "chained [] 1 (hist (StreamKey t s))" using ok key by (simp add: streamOK_def)
    obtain a b where ab: "sealedBy cfg t s (hist key) a b g"
      using ok sealedUpTo_mem kg(2) eq unfolding streamOK_def by blast
    have "sg_StreamID g = s" using ab by (simp add: sealedBy_def)
    then show ?thesis
      using checkSegment_honest [OF ch _ ab [unfolded key] sign] stream [OF ch kg(4)] set by simp
  qed
  have aggs: "verifyAggregateCheckpoint cfg t a (sn_Checkpoints data) = None"
    if "a \<in> set (sn_AggregateCheckpoints data)" "ag_TenantID a = t \<or> aggregateReferencesTenant (sn_Checkpoints data) t a" for a
    using agg that by (auto simp: aggregatesVerify_def list_all_iff)
  show ?thesis
    unfolding verifySnapshot_def Let_def using chains segments aggs by auto
qed

end
