(* ===== verification/Assurance.thy ===== *)
theory Assurance
  imports Chain
begin

section \<open>What the service assures across its components\<close>

text \<open>
  The properties that span ingest, sealing, archival and verification, stated over the reachable
  snapshots of the evidence chain, with a concrete run for their witnesses.
\<close>

subsection \<open>A concrete run\<close>

definition exampleTenant :: Tenant where
  "exampleTenant = \<lparr>tn_ID = ''t1'', tn_Name = ''T'', tn_HomeRegion = ''eu'', tn_DataRegion = ''eu'', tn_Active = True,
     tn_EventsPerSecond = 2, tn_Burst = 1, tn_CreatedAt = 0\<rparr>"

definition exampleData :: Snapshot where
  "exampleData = exampleSnapshot\<lparr>sn_Tenants := [(''t1'', exampleTenant)],
     sn_AdminActions := [adminAction ''f1'' 0 ''t1'' ''ops'' ''tenant.created'' ''tenant'' ''t1'' '''',
       adminAction ''f2'' 0 ''t1'' ''ops'' ''source.created'' ''source'' ''crm'' ''allowed_client_ids=[svc]'',
       adminAction ''f3'' 0 ''t1'' ''ops'' ''schema.created'' ''event_schema'' ''user'' ''version 1'']\<rparr>"

lemma validateEvent_digest: "validateEvent cfg data t c (e\<lparr>ev_SourceDigest := d\<rparr>) = validateEvent cfg data t c e"
proof -
  let ?e = "e\<lparr>ev_SourceDigest := d\<rparr>"
  have f: "hasField ?e = hasField e" "rejectSensitiveChanges cfg ?e = rejectSensitiveChanges cfg e"
    "ev_SourceSystem ?e = ev_SourceSystem e" "ev_SchemaID ?e = ev_SchemaID e" "ev_SchemaVersion ?e = ev_SchemaVersion e"
    "ev_EventType ?e = ev_EventType e" "ev_DataClassification ?e = ev_DataClassification e" "ev_Payload ?e = ev_Payload e"
    by (simp_all add: hasField_def rejectSensitiveChanges_def fun_eq_iff)
  show ?thesis unfolding validateEvent_def f ..
qed

definition exampleStamped :: Event where
  "exampleStamped = stampEvent exampleConfig 9 ''t1'' exampleEvent"

lemma exampleStamped_valid:
  "validateEvent exampleConfig exampleData ''t1'' ''svc'' exampleStamped = Inr exampleSchema"
  by code_simp

lemma exampleStamped_text: "\<not> isl (CanonicalJSON (Event_value (contentOnly exampleStamped)))"
  by code_simp

lemma exampleStamped_protected:
  "\<exists>e. protectSensitiveFields exampleConfig (\<lambda>_. exampleNonce) (exampleStamped\<lparr>ev_SourceDigest := d\<rparr>) exampleSchema = Inr e"
  by (simp add: protectSensitiveFields_def exampleSchema_def exampleStamped_def stampEvent_def exampleEvent_def exampleConfig_def
      originals_def Let_def mget_def mput_def EncryptJSON_def exampleCodec_def SearchDigestBound_def encryptedPrefix_def
      SearchDigestSuffix_def)

lemma example_prepared:
  obtains p d q where
    "ingestPrepare exampleConfig (\<lambda>_. exampleNonce) exampleData [] 9 ''t1'' ''svc'' exampleEvent '''' = (Inr p, q)"
    "EventContentDigest exampleStamped = Inr d" "pr_TenantID p = ''t1''" "pr_InputDigest p = d"
    "protectSensitiveFields exampleConfig (\<lambda>_. exampleNonce) (exampleStamped\<lparr>ev_SourceDigest := d\<rparr>) exampleSchema = Inr (pr_Event p)"
proof -
  obtain d where d: "EventContentDigest exampleStamped = Inr d"
    using exampleStamped_text by (cases "CanonicalJSON (Event_value (contentOnly exampleStamped))") (auto simp: EventContentDigest_def)
  obtain e where e: "protectSensitiveFields exampleConfig (\<lambda>_. exampleNonce) (exampleStamped\<lparr>ev_SourceDigest := d\<rparr>) exampleSchema = Inr e"
    using exampleStamped_protected by blast
  have cl: "CloneEvent exampleEvent = Inr exampleEvent"
    by (simp add: CloneEvent_iff exampleEvent_def payload_value_def map_value_def)
  have r: "resolveIngestTenantFromData exampleData ''t1'' ''svc'' (ev_SourceSystem exampleEvent) = Inr ''t1''" by code_simp
  have s: "requireTenantScope ''t1'' = None" "ifPresent requireTenantScope ''t1'' = None" by code_simp+
  obtain q where q: "checkTenantAndQuota exampleData [] 9 ''t1'' = (None, q)"
    by (simp add: checkTenantAndQuota_def exampleData_def exampleTenant_def mget_def Let_def wrap64_def mget_or_def)
  have "ingestPrepare exampleConfig (\<lambda>_. exampleNonce) exampleData [] 9 ''t1'' ''svc'' exampleEvent ''''
      = (Inr \<lparr>pr_TenantID = ''t1'', pr_InputDigest = d, pr_Event = e\<rparr>, q)"
    using d e exampleStamped_valid
    by (simp add: ingestPrepare_def supportedWait_def cl exampleEvent_valid(1) r s q validateEvent_digest
        exampleStamped_def [symmetric] Let_def) (simp add: exampleEvent_def)
  then show thesis by (rule that) (use d e in simp_all)
qed


lemma example_reach:
  obtains p e data where
    "preparedFrom exampleConfig exampleData p"
    "ingestCommit exampleConfig get ''c1'' ''t1'' ''svc'' p exampleData = Committed (ledgeredReceipt ''t1'' e) e [] data"
    "ledgerReach exampleConfig ((\<lambda>_. [])(StreamKey ''t1'' ''t1:operation:op1'' := [e])) data"
    "ev_TenantID e = ''t1''" "ev_EventID e = ''e1''" "ev_StreamID e = ''t1:operation:op1''" "ev_Sequence e = 1"
    "sn_Events data = [(EventKey ''t1'' ''e1'', e)]" "sn_AggregateCheckpoints data = []" "sn_Segments data = []"
    "sn_Sources data = sn_Sources exampleData" "sn_Receipts data = [(EventKey ''t1'' ''e1'', ledgeredReceipt ''t1'' e)]"
    "pr_TenantID p = ''t1''" "ev_EventID (pr_Event p) = ''e1''" "Stream (pr_Event p) = ''t1:operation:op1''"
    "ev_SourceSystem (pr_Event p) = ''crm''" "ev_SourceDigest (pr_Event p) \<noteq> ''''"
    "ev_OperationID e = ''op1''" "ev_AggregateType e = ''''" "ev_AggregateID e = ''''" "ev_AggregateVersion e = 0"
    "ev_OccurredAt e = 700000 * ns_per_day" "sn_Schemas data = sn_Schemas exampleData" "sn_LegalHolds data = []"
proof -
  obtain p d q where p:
    "ingestPrepare exampleConfig (\<lambda>_. exampleNonce) exampleData [] 9 ''t1'' ''svc'' exampleEvent '''' = (Inr p, q)"
    "EventContentDigest exampleStamped = Inr d" "pr_TenantID p = ''t1''" "pr_InputDigest p = d"
    "protectSensitiveFields exampleConfig (\<lambda>_. exampleNonce) (exampleStamped\<lparr>ev_SourceDigest := d\<rparr>) exampleSchema = Inr (pr_Event p)"
    by (rule example_prepared)
  obtain pl where pl: "pr_Event p = exampleStamped\<lparr>ev_SourceDigest := d, ev_Payload := pl\<rparr>"
    using protect_keeps [OF p(5)] by auto
  have f: "ev_EventID (pr_Event p) = ''e1''" "ev_TenantID (pr_Event p) = ''t1''" "Stream (pr_Event p) = ''t1:operation:op1''"
    "ev_SourceSystem (pr_Event p) = ''crm''" "ev_SourceDigest (pr_Event p) = d" "ev_ReceivedAt (pr_Event p) = 9"
    "ev_OperationID (pr_Event p) = ''op1''" "ev_AggregateType (pr_Event p) = ''''" "ev_AggregateID (pr_Event p) = ''''"
    "ev_AggregateVersion (pr_Event p) = 0" "ev_OccurredAt (pr_Event p) = 700000 * ns_per_day"
    by (simp_all add: pl exampleStamped_def stampEvent_def exampleEvent_def Stream_def)
  have dn: "d \<noteq> []" using p(2) by (auto simp: EventContentDigest_def rbind_eq_Inr)
  have r0: "ledgerReach exampleConfig (\<lambda>_. []) exampleData"
    by (rule ledgerReach.control [OF ledgerReach.start])
      (simp_all add: exampleData_def exampleSnapshot_def NewSnapshot_def schemasExtend_def)
  have prep: "preparedFrom exampleConfig exampleData p"
    unfolding preparedFrom_def
    apply (intro exI conjI)
         apply (rule p(1))
    by (auto simp: exampleNonce_ok payload_wf_def exampleEvent_def wf_map_def exampleConfig_def exampleCodec_ok
        exampleData_def exampleSnapshot_def exampleSchemas_def exampleSchema_def mget_def schemasExtend_def split: if_splits)
  have empt: "sn_Streams exampleData = []" "sn_Events exampleData = []" "sn_Receipts exampleData = []"
     "sn_AggregateCheckpoints exampleData = []" "sn_Segments exampleData = []" "sn_LegalHolds exampleData = []"
    by (simp_all add: exampleData_def exampleSnapshot_def NewSnapshot_def)
  have res: "resolveIngestTenantFromData exampleData ''t1'' ''svc'' ''crm'' = Inr ''t1''" by code_simp
  let ?pl = "(pr_Event p)\<lparr>ev_StreamID := ''t1:operation:op1'', ev_Sequence := 1, ev_PrevHash := []\<rparr>"
  obtain h where h: "eventHash ?pl = Inr h" using eventHash_total [of ?pl d] f(5) dn by (auto simp: EventDigest_def)
  let ?e = "?pl\<lparr>ev_Hash := h\<rparr>"
  have cs: "currentStream exampleData ''t1'' ''t1:operation:op1'' = zeroStream\<lparr>st_TenantID := ''t1'', st_StreamID := ''t1:operation:op1'', st_NextSequence := 1\<rparr>"
    by (simp add: currentStream_def empt mget_or_def zeroStream_def Let_def)
  have place: "placeEvent (currentStream exampleData ''t1'' ''t1:operation:op1'') ''t1:operation:op1'' (pr_Event p) = Inr ?e"
    unfolding cs by (simp add: placeEvent_def zeroStream_def Let_def h)
  have pend: "length (st_PendingHashes (extendStream (currentStream exampleData ''t1'' ''t1:operation:op1'') k ?e)) = 1" for k
    unfolding cs by (simp add: extendStream_def zeroStream_def Let_def)
  have size: "cf_SegmentSize exampleConfig = 2" "\<not> cf_LedgeredPublisher exampleConfig" by (simp_all add: exampleConfig_def)
  obtain data where app: "appendLedger exampleConfig ''c1'' ''t1'' (pr_Event p) exampleData = Inr (?e, [], data)"
    and data: "sn_Events data = [(EventKey ''t1'' ''e1'', ?e)]" "sn_AggregateCheckpoints data = []" "sn_Segments data = []"
      "sn_Sources data = sn_Sources exampleData" "sn_Receipts data = [(EventKey ''t1'' ''e1'', ledgeredReceipt ''t1'' ?e)]"
      "sn_Schemas data = sn_Schemas exampleData" "sn_LegalHolds data = []"
    by (simp add: appendLedger_def f place pend size Let_def empt mput_def)
  have ex: "checkExistingIngest exampleConfig get exampleData ''t1'' ''e1'' d = NoExisting"
    "\<not> idempotencyKeyReused exampleData ''t1'' k i" for k i
    by (simp_all add: checkExistingIngest_def idempotencyKeyReused_def empt)
  have com: "ingestCommit exampleConfig get ''c1'' ''t1'' ''svc'' p exampleData = Committed (ledgeredReceipt ''t1'' ?e) ?e [] data"
    by (simp add: ingestCommit_def f p(3,4) res ex app Let_def)
  have "ledgerReach exampleConfig ((\<lambda>_. [])(StreamKey ''t1'' ''t1:operation:op1'' := (\<lambda>_. []) (StreamKey ''t1'' ''t1:operation:op1'') @ [?e])) data"
    by (rule ledgerReach.commit [OF r0 prep com]) (simp add: f p(3))
  then show thesis by (intro that [OF prep com]) (use data f dn p(3) in simp_all)
qed


lemma exampleConfig_aead: "aead_ok (cf_Aead exampleConfig)"
  by (simp add: exampleConfig_def exampleAead_ok)

lemma exampleConfig_signer: "signerOK exampleConfig"
  by (simp add: signerOK_def exampleConfig_def)

subsection \<open>The chain\<close>


lemma committed_once:
  assumes "ledgerReach cfg hist data" and ae: "aead_ok (cf_Aead cfg)"
  shows "\<forall>e e'. logged hist e \<and> logged hist e' \<and> ev_TenantID e = ev_TenantID e' \<and> ev_IdempotencyKey e = ev_IdempotencyKey e'
           \<and> ev_IdempotencyKey e \<noteq> [] \<longrightarrow> e = e'"
  using assms(1)
proof (induction rule: ledgerReach.induct)
  case (commit hist data p get newID hint client r e sealed data' key)
  note c = ingestCommit_Committed [OF commit.hyps(3)]
  have inv: "ledgerInv cfg hist data" by (rule ledgerReach_inv [OF commit.hyps(1) ae])
  have fresh: "mget (sn_Receipts data) (EventKey (pr_TenantID p) (ev_EventID (pr_Event p))) = None"
    using c checkExisting_none [OF inv] by blast
  have app: "appendLedger cfg newID (pr_TenantID p) (pr_Event p) data = Inr (e, sealed, data')" using c by blast
  note co = ledgerInv_append(2) [OF inv preparedFrom_OK [OF commit.hyps(2) ae] fresh app]
  have idem: "ev_IdempotencyKey e = ev_IdempotencyKey (pr_Event p)"
    using placeEvent_Inr [OF conjunct1 [OF appendLedger_Inr [OF app]]] by auto
  have members: "membersOK cfg hist (sn_Schemas data)" and receipts: "receiptsOK hist (sn_Receipts data) (sn_Events data)"
    using inv by (simp_all add: ledgerInv_def)
  have lg: "logged (hist(key := hist key @ [e])) x \<longleftrightarrow> logged hist x \<or> x = e" for x
    by (rule logged_update [OF members]) (simp add: commit.hyps(4) co)
  have new: "ev_IdempotencyKey x \<noteq> ev_IdempotencyKey e"
    if x: "logged hist x" "ev_TenantID x = ev_TenantID e" "ev_IdempotencyKey x \<noteq> []" for x
  proof
    assume same: "ev_IdempotencyKey x = ev_IdempotencyKey e"
    obtain r' where r': "mget (sn_Receipts data) (eventKeyOf x) = Some r'" "receiptOf r' x"
      using receiptsOK_receipt [OF receipts x(1)] by metis
    have "eventKeyOf x \<noteq> EventKey (pr_TenantID p) (ev_EventID (pr_Event p))" using r'(1) fresh by auto
    moreover have "rc_TenantID r' = pr_TenantID p" "rc_IdempotencyKey r' = ev_IdempotencyKey (pr_Event p)" "rc_IdempotencyKey r' \<noteq> []"
      using r'(2) x same co idem by (simp_all add: receiptOf_def)
    ultimately have "idempotencyKeyReused data (pr_TenantID p) (EventKey (pr_TenantID p) (ev_EventID (pr_Event p))) (ev_IdempotencyKey (pr_Event p))"
      using mget_in [OF r'(1)] unfolding idempotencyKeyReused_def by fastforce
    then show False using c by blast
  qed
  show ?case unfolding lg using commit.IH new by metis
qed (simp_all add: logged_def)



lemma example_logged: "StreamKey (ev_TenantID e) (ev_StreamID e) = k \<Longrightarrow> logged ((\<lambda>_. [])(k := [e])) x \<longleftrightarrow> x = e"
  by (metis empty_iff fun_upd_apply list.set(1) list.set(2) logged_def singleton_iff)



subsection \<open>Verification\<close>




subsection \<open>Retries\<close>




lemma appendLedger_total:
  assumes "placeEvent (currentStream data t (Stream e)) (Stream e) e = Inr e'" "\<forall>st now. \<exists>gc. sealSegment cfg newID st now = Inr gc"
  shows "\<exists>segs data'. appendLedger cfg newID t e data = Inr (e', segs, data')"
proof -
  let ?st = "extendStream (currentStream data t (Stream e)) (EventKey t (ev_EventID e)) e'"
  obtain gc where gc: "sealSegment cfg newID ?st (ev_ReceivedAt e) = Inr gc" using assms(2) by blast
  show ?thesis
    unfolding appendLedger_def Let_def assms(1) rbind_simps gc
    by (cases "int (length (st_PendingHashes ?st)) \<ge> cf_SegmentSize cfg") simp_all
qed

lemma late_transition:
  assumes "transitionReceipt data now t i status False = Inr (r, data')" "mget (sn_Events data) (EventKey t i) = None"
    and "status \<noteq> StatusArchived"
  shows "eventFromSnapshot cfg get data' t i = Inl (Err ErrNotFound '''') \<and> checkExistingIngest cfg get data' t i d = NoExisting
    \<and> sn_Streams data' = sn_Streams data \<and> sn_Sources data' = sn_Sources data \<and> sn_Events data' = sn_Events data
    \<and> mkeys (sn_Receipts data') = mkeys (mput (sn_Receipts data) (EventKey t i) r)"
  using assms
  by (auto simp: transitionReceipt_def Let_def eventFromSnapshot_def checkExistingIngest_def mget_mput split: option.splits)

text \<open>
  C36. A late transition undoes archival. The receipt transition of an ingest whose own archive write failed
  does not look at the receipt's status. When the archive pass has meanwhile archived the event and
  evicted its body, the transition sets the receipt back to indexed: the event can no longer be read,
  neither hot nor archived, and a retry of the very same request is committed a second time, as the
  next event of the stream.
\<close>

theorem late_transition_loses_archived_event:
  "\<exists>p e data1 data2 r data3 e2 segs data4.
     ingestCommit exampleConfig get ''c1'' ''t1'' ''svc'' p exampleData = Committed (ledgeredReceipt ''t1'' e) e [] data1
     \<and> archiveCommit 10 ''t1'' [] [e] [] data1 = Inr data2
     \<and> transitionReceipt data2 11 ''t1'' ''e1'' StatusIndexed False = Inr (r, data3)
     \<and> eventFromSnapshot exampleConfig get data3 ''t1'' ''e1'' = Inl (Err ErrNotFound '''')
     \<and> ingestCommit exampleConfig get ''c2'' ''t1'' ''svc'' p data3 = Committed (ledgeredReceipt ''t1'' e2) e2 segs data4
     \<and> ev_EventID e2 = ev_EventID e \<and> ev_StreamID e2 = ev_StreamID e \<and> ev_Sequence e = 1 \<and> ev_Sequence e2 = 2"
proof -
  obtain p e data where r:
    "ingestCommit exampleConfig get ''c1'' ''t1'' ''svc'' p exampleData = Committed (ledgeredReceipt ''t1'' e) e [] data"
    "ledgerReach exampleConfig ((\<lambda>_. [])(StreamKey ''t1'' ''t1:operation:op1'' := [e])) data"
    "ev_TenantID e = ''t1''" "ev_EventID e = ''e1''" "ev_StreamID e = ''t1:operation:op1''" "ev_Sequence e = 1"
    "sn_Events data = [(EventKey ''t1'' ''e1'', e)]" "sn_Sources data = sn_Sources exampleData"
    "sn_Receipts data = [(EventKey ''t1'' ''e1'', ledgeredReceipt ''t1'' e)]"
    and p: "pr_TenantID p = ''t1''" "ev_EventID (pr_Event p) = ''e1''" "Stream (pr_Event p) = ''t1:operation:op1''"
    "ev_SourceSystem (pr_Event p) = ''crm''" "ev_SourceDigest (pr_Event p) \<noteq> ''''"
    by (rule example_reach [where get = get]) blast
  let ?k = "EventKey ''t1'' ''e1''" let ?sid = "''t1:operation:op1''"
  obtain data2 where a: "archiveCommit 10 ''t1'' [] [e] [] data = Inr data2" and a2: "sn_Events data2 = []" "mkeys (sn_Receipts data2) = [?k]"
      "sn_Streams data2 = sn_Streams data" "sn_Sources data2 = sn_Sources data"
    by (simp add: archiveCommit_def Let_def r mget_def mput_def mdel_def mkeys_def)
  obtain r3 data3 where t: "transitionReceipt data2 11 ''t1'' ''e1'' StatusIndexed False = Inr (r3, data3)"
    using a2(2) mget_mkeys [of "sn_Receipts data2" ?k]
    by (auto simp: transitionReceipt_def Let_def split: option.splits)
  note l = late_transition [OF t, where cfg = exampleConfig and get = get]
  have d3: "sn_Events data3 = []" "sn_Streams data3 = sn_Streams data" "sn_Sources data3 = sn_Sources data"
    "set (mkeys (sn_Receipts data3)) = {?k}"
    "eventFromSnapshot exampleConfig get data3 ''t1'' ''e1'' = Inl (Err ErrNotFound '''')"
    "checkExistingIngest exampleConfig get data3 ''t1'' ''e1'' d = NoExisting" for d
    using l a2 by (simp_all add: StatusIndexed_def StatusArchived_def mkeys_mput)
  have "streamOK exampleConfig ''t1'' ?sid [e] (currentStream data ''t1'' ?sid) (mget_or [] (sn_Segments data) (StreamKey ''t1'' ?sid))"
    using currentStream_OK [of exampleConfig _ data "''t1''" ?sid] ledgerReach_inv [OF r(2) exampleConfig_aead]
    by (fastforce simp: ledgerInv_def KeySeparator_char)
  then have seq: "st_NextSequence (currentStream data3 ''t1'' ?sid) = 2"
    using d3(2) by (simp add: streamOK_def currentStream_def)
  let ?pl = "(pr_Event p)\<lparr>ev_StreamID := ?sid, ev_Sequence := 2, ev_PrevHash := st_HeadHash (currentStream data3 ''t1'' ?sid)\<rparr>"
  obtain h where h: "eventHash ?pl = Inr h" using eventHash_total [of ?pl] p(5) by (auto simp: EventDigest_def)
  let ?e2 = "?pl\<lparr>ev_Hash := h\<rparr>"
  have place: "placeEvent (currentStream data3 ''t1'' ?sid) ?sid (pr_Event p) = Inr ?e2" by (simp add: placeEvent_def seq h Let_def)
  have sign: "\<exists>gc. sealSegment exampleConfig n st now = Inr gc" for n st now by (simp add: sealSegment_def exampleConfig_def Let_def)
  obtain segs data4 where app: "appendLedger exampleConfig ''c2'' ''t1'' (pr_Event p) data3 = Inr (?e2, segs, data4)"
    using appendLedger_total [of data3 "''t1''" "pr_Event p" ?e2] place sign p(3) by metis
  have "\<not> idempotencyKeyReused data3 ''t1'' ?k ik" for ik
    using d3(1,4) by (force simp: idempotencyKeyReused_def mkeys_def)
  moreover have "resolveIngestTenantFromData exampleData ''t1'' ''svc'' ''crm'' = Inr ''t1''" by code_simp
  then have "resolveIngestTenantFromData data3 ''t1'' ''svc'' ''crm'' = Inr ''t1''"
    using d3(3) r(8) by (simp add: resolveIngestTenantFromData_def sourceAccessAllowed_def)
  ultimately have "ingestCommit exampleConfig get ''c2'' ''t1'' ''svc'' p data3 = Committed (ledgeredReceipt ''t1'' ?e2) ?e2 segs data4"
    by (simp add: ingestCommit_def p d3(6) app Let_def)
  with r(1) a t d3(5) show ?thesis by (intro exI conjI) (assumption | simp add: r p)+
qed

subsection \<open>Quota\<close>

text \<open>The verdicts of a sequence of ingest attempts of one tenant at the given clock readings.\<close>

fun quotaRun :: "Snapshot \<Rightarrow> string \<Rightarrow> time list \<Rightarrow> quotaWindow gomap \<Rightarrow> error option list \<times> quotaWindow gomap" where
  "quotaRun data t [] quotas = ([], quotas)"
| "quotaRun data t (now # nows) quotas =
     (case checkTenantAndQuota data quotas now t of (v, quotas1) \<Rightarrow>
        (case quotaRun data t nows quotas1 of (vs, quotas2) \<Rightarrow> (v # vs, quotas2)))"

lemma quotaRun_window:
  assumes ten: "mget (sn_Tenants data) t = Some tenant" "tn_Active tenant" "tn_EventsPerSecond tenant > 0"
    and limit: "limit = (if wrap64 (tn_EventsPerSecond tenant + tn_Burst tenant) \<le> 0 then tn_EventsPerSecond tenant
                  else wrap64 (tn_EventsPerSecond tenant + tn_Burst tenant))"
  shows "mget quotas t = Some w \<Longrightarrow> qw_Started w \<noteq> 0 \<Longrightarrow> \<forall>now \<in> set nows. now < qw_Started w + 1000000000
     \<Longrightarrow> qw_Count w \<le> limit
     \<Longrightarrow> int (length (filter (\<lambda>v. v = None) (fst (quotaRun data t nows quotas)))) = min (int (length nows)) (limit - qw_Count w)"
proof (induction nows arbitrary: quotas w)
  case (Cons now nows)
  have step: "checkTenantAndQuota data quotas now t =
      (if qw_Count w \<ge> limit then (Some (Err ErrQuotaExceeded ''''), mput quotas t w)
       else (None, mput quotas t (w\<lparr>qw_Count := qw_Count w + 1\<rparr>)))"
    using Cons.prems ten limit by (auto simp: checkTenantAndQuota_def Let_def mget_or_def)
  show ?case
  proof (cases "qw_Count w \<ge> limit")
    case True
    then show ?thesis using Cons.IH [of "mput quotas t w" w] Cons.prems step
      by (auto simp: mget_mput split: prod.splits)
  next
    case False
    then show ?thesis using Cons.IH [of "mput quotas t (w\<lparr>qw_Count := qw_Count w + 1\<rparr>)" "w\<lparr>qw_Count := qw_Count w + 1\<rparr>"] Cons.prems step
      by (auto simp: mget_mput split: prod.splits)
  qed
qed simp


text \<open>
  C24. The quota of a window is exact. From a new window on, of the attempts an active tenant with a positive
  rate makes within one second exactly the first events-per-second plus burst pass (the rate alone when
  that sum overflows or is not positive), however many are made and in whatever order the clock
  readings come.
\<close>

theorem quota_exact_in_window:
  assumes "mget (sn_Tenants data) t = Some tenant" and "tn_Active tenant" and "tn_EventsPerSecond tenant > 0"
    and "\<forall>w. mget quotas t = Some w \<longrightarrow> qw_Started w = 0 \<or> now - qw_Started w \<ge> 1000000000"
    and "now \<noteq> 0" and "\<forall>n \<in> set nows. n < now + 1000000000"
    and "limit = (if wrap64 (tn_EventsPerSecond tenant + tn_Burst tenant) \<le> 0 then tn_EventsPerSecond tenant
           else wrap64 (tn_EventsPerSecond tenant + tn_Burst tenant))"
  shows "int (length (filter (\<lambda>v. v = None) (fst (quotaRun data t (now # nows) quotas)))) = min (int (length (now # nows))) limit"
proof -
  let ?w = "\<lparr>qw_Started = now, qw_Count = 1\<rparr>"
  have pos: "limit > 0" using assms(3,7) by auto
  have "checkTenantAndQuota data quotas now t = (None, mput quotas t ?w)"
  proof (cases "mget quotas t")
    case None
    then show ?thesis using assms pos by (auto simp: checkTenantAndQuota_def Let_def mget_or_def)
  next
    case (Some w)
    then have "qw_Started w = 0 \<or> now - qw_Started w \<ge> 1000000000" using assms(4) by blast
    then show ?thesis using Some assms(1-3,5,7) pos by (auto simp: checkTenantAndQuota_def Let_def mget_or_def)
  qed
  then show ?thesis
    using quotaRun_window [OF assms(1-3,7), of "mput quotas t ?w" ?w nows] assms(5,6) pos
    by (auto simp: mget_mput split: prod.splits)
qed

theorem quota_exact_in_window_witness:
  "int (length (filter (\<lambda>v. v = None) (fst (quotaRun exampleData ''t1'' [5, 5, 6, 9, 7] [])))) = 3"
proof -
  define tenant where "tenant = \<lparr>tn_ID = ''t1'', tn_Name = ''T'', tn_HomeRegion = ''eu'',
     tn_DataRegion = ''eu'', tn_Active = True, tn_EventsPerSecond = 2, tn_Burst = 1, tn_CreatedAt = 0\<rparr>"
  have ten: "mget (sn_Tenants exampleData) ''t1'' = Some tenant" by (simp add: exampleData_def exampleTenant_def tenant_def mget_def)
  have a: "tn_Active tenant" "tn_EventsPerSecond tenant > 0"
    "3 = (if wrap64 (tn_EventsPerSecond tenant + tn_Burst tenant) \<le> 0 then tn_EventsPerSecond tenant
           else wrap64 (tn_EventsPerSecond tenant + tn_Burst tenant))"
    by (simp_all add: tenant_def wrap64_def)
  show ?thesis
    using quota_exact_in_window [OF ten a(1,2), where quotas = "[]" and now = 5 and nows = "[5, 6, 9, 7]", OF _ _ _ a(3)] by simp
qed


subsection \<open>Tamper evidence\<close>

lemma colon_free_HashBytes [simp]: "CHR '':'' \<notin> set (HashBytes s)"
proof -
  have "hexLower d \<noteq> CHR '':''" if "d < 16" for d
  proof -
    have "\<forall>d \<in> {0..<16}. hexLower d \<noteq> CHR '':''" by code_simp
    then show ?thesis using that by simp
  qed
  then have "hexLower (x div 16) \<noteq> CHR '':''" "hexLower (x mod 16) \<noteq> CHR '':''" if "x < 256" for x
    using that by auto
  then show ?thesis by (fastforce simp: HashBytes_def hexEncode_def dest!: sha256_less)
qed

lemma colon_free_itoa [simp]: "CHR '':'' \<notin> set (itoa i)"
proof -
  have "CHR '':'' \<notin> set (natDec n)" for n using natDec_digits [of n] by (auto simp: is_digit_def dest: bspec)
  then show ?thesis by (simp add: itoa_def)
qed

lemma append_sep_inj_right:
  assumes "c \<notin> set a" "c \<notin> set b" "x @ c # a = y @ c # b"
  shows "x = y \<and> a = b"
proof -
  have "rev a @ c # rev x = rev b @ c # rev y" using arg_cong [OF assms(3), of rev] by simp
  then show ?thesis using append_sep_inj [of c "rev a" "rev b" "rev x" "rev y"] assms(1,2) by simp
qed

lemma manifestText_inj:
  assumes "manifestText t lo hi lh mroot = manifestText t' lo' hi' lh' mroot'"
    and "CHR '':'' \<notin> set lh" "CHR '':'' \<notin> set lh'" "CHR '':'' \<notin> set mroot" "CHR '':'' \<notin> set mroot'"
  shows "t = t' \<and> lo = lo' \<and> hi = hi' \<and> lh = lh' \<and> mroot = mroot'"
proof -
  have "(t @ '':'' @ itoa lo @ '':'' @ itoa hi @ '':'' @ lh) @ CHR '':'' # mroot
      = (t' @ '':'' @ itoa lo' @ '':'' @ itoa hi' @ '':'' @ lh') @ CHR '':'' # mroot'"
    using assms(1) by (simp add: manifestText_def)
  from append_sep_inj_right [OF assms(4,5) this]
  have 1: "mroot = mroot'" "(t @ '':'' @ itoa lo @ '':'' @ itoa hi) @ CHR '':'' # lh = (t' @ '':'' @ itoa lo' @ '':'' @ itoa hi') @ CHR '':'' # lh'"
    by simp_all
  from append_sep_inj_right [OF assms(2,3) 1(2)]
  have 2: "lh = lh'" "(t @ '':'' @ itoa lo) @ CHR '':'' # itoa hi = (t' @ '':'' @ itoa lo') @ CHR '':'' # itoa hi'" by simp_all
  from append_sep_inj_right [OF _ _ 2(2)]
  have 3: "itoa hi = itoa hi'" "t @ CHR '':'' # itoa lo = t' @ CHR '':'' # itoa lo'" by simp_all
  from append_sep_inj_right [OF _ _ 3(2)] show ?thesis using 1 2 3 itoa_inj by simp
qed

definition hexHash :: "string \<Rightarrow> bool" where
  "hexHash h \<longleftrightarrow> (\<exists>a. h = HashBytes a)"

lemma hexHash_colon: "hexHash h \<Longrightarrow> CHR '':'' \<notin> set h"
  by (auto simp: hexHash_def)

lemma hexHash_sized: "\<forall>h \<in> set hs. hexHash h \<Longrightarrow> hash_sized hs"
  by (auto simp: hash_sized_def hexHash_def)

lemma merkleLoop_hex: "\<forall>h \<in> set hs. hexHash h \<Longrightarrow> \<forall>h \<in> set (merkleLoop hs). hexHash h"
proof (induction hs rule: merkleLoop.induct)
  case (1 hs)
  show ?case
  proof (cases "length hs > 1")
    case True
    have "\<forall>h \<in> set (merkleLevel hs). hexHash h" by (auto simp: merkleLevel_pairs hexHash_def)
    with 1(1) [OF True] have "\<forall>h \<in> set (merkleLoop (merkleLevel hs)). hexHash h" .
    then show ?thesis using True merkleLoop.simps [of hs] by simp
  next
    case False
    then show ?thesis using 1(2) merkleLoop.simps [of hs] by simp
  qed
qed

lemma merkleRoot_hex: "\<forall>h \<in> set hs. hexHash h \<Longrightarrow> hexHash (merkleRoot hs)"
proof (cases "hs = []")
  case False
  assume h: "\<forall>h \<in> set hs. hexHash h"
  obtain r where "merkleLoop hs = [r]" using merkleLoop_length [OF False] by (metis One_nat_def length_0_conv length_Suc_conv)
  then show ?thesis using merkleLoop_hex [OF h] False by (simp add: merkleRoot_def)
qed (auto simp: merkleRoot_def hexHash_def)

lemma lastWith_from: "lastWith field n es = [] \<or> (\<exists>e \<in> set es. lastWith field n es = field e)"
proof -
  have "fold (\<lambda>e acc. if ev_Sequence e = n then field e else acc) es x = x
      \<or> (\<exists>e \<in> set es. fold (\<lambda>e acc. if ev_Sequence e = n then field e else acc) es x = field e)" for x
    by (induction es arbitrary: x) (auto split: if_splits)
  then show ?thesis by (simp add: lastWith_def)
qed

text \<open>The evidence of an event that its ledger hash covers.\<close>

definition sameEvidence :: "Event \<Rightarrow> Event \<Rightarrow> bool" where
  "sameEvidence e e' \<longleftrightarrow> ev_Hash e = ev_Hash e' \<and> ev_Sequence e = ev_Sequence e' \<and> runes (ev_PrevHash e) = runes (ev_PrevHash e')
     \<and> runes (ev_StreamID e) = runes (ev_StreamID e') \<and> runes (ev_SourceDigest e) = runes (ev_SourceDigest e')"

definition rangeEvents :: "Segment \<Rightarrow> Event list \<Rightarrow> Event list" where
  "rangeEvents g es = filter (\<lambda>e. ev_StreamID e = sg_StreamID g \<and> ev_Sequence e \<ge> sg_FirstSequence g \<and> ev_Sequence e \<le> sg_LastSequence g) es"

text \<open>Every text whose SHA-256 the check of the stream and its segment relies on.\<close>

definition signedTexts :: "Segment \<Rightarrow> Event list \<Rightarrow> string set" where
  "signedTexts g es = {manifestText (sg_TenantID g) (sg_FirstSequence g) (sg_LastSequence g) (sg_LastHash g) (sg_MerkleRoot g)}
     \<union> set (merklePairs (map ev_Hash (rangeEvents g es))) \<union> {a. \<exists>e \<in> set es. hashText e = Inr a}"

lemma checkChain_clean:
  "checkChain cfg schemas sid head es = [] \<Longrightarrow> e \<in> set es \<Longrightarrow> eventHash e = Inr (ev_Hash e) \<and> ev_SourceDigest e \<noteq> []"
proof (induction es arbitrary: head)
  case (Cons x es)
  then show ?case by (auto simp: checkEvent_def verifyContentDigest_def split: if_splits option.splits)
qed simp

lemma checkSegment_clean:
  assumes "checkSegment cfg es g = []"
  shows "merkleRoot (map ev_Hash (rangeEvents g es)) = sg_MerkleRoot g"
    and "int (length (rangeEvents g es)) = sg_LastSequence g - sg_FirstSequence g + 1"
    and "lastWith ev_Hash (sg_LastSequence g) es = sg_LastHash g"
    and "sg_ManifestHash g = HashBytes (manifestText (sg_TenantID g) (sg_FirstSequence g) (sg_LastSequence g) (sg_LastHash g) (sg_MerkleRoot g))"
    and "cf_Verify cfg (sg_ManifestHash g) (sg_Signature g) = Inr True"
  using assms by (auto simp: checkSegment_def rangeEvents_def Let_def split: if_splits)

lemma clean_hex:
  assumes "checkChain cfg schemas sid head es = []"
  shows "\<forall>h \<in> set (map ev_Hash (rangeEvents g es)). hexHash h" and "CHR '':'' \<notin> set (lastWith ev_Hash n es)"
proof -
  have h: "hexHash (ev_Hash e)" if "e \<in> set es" for e
    using checkChain_clean [OF assms that] unfolding hexHash_def eventHash_text rbind_eq_Inr by (metis sum.inject(2))
  then show "\<forall>h \<in> set (map ev_Hash (rangeEvents g es)). hexHash h" by (auto simp: rangeEvents_def)
  show "CHR '':'' \<notin> set (lastWith ev_Hash n es)" using lastWith_from [of ev_Hash n es] h hexHash_colon by fastforce
qed

lemma evidence_pinned:
  assumes c: "checkChain cfg schemas sid head es = []" and s: "checkSegment cfg es g = []"
    and c': "checkChain cfg' schemas' sid' head' es' = []" and s': "checkSegment cfg' es' g' = []"
    and same: "sg_ManifestHash g = sg_ManifestHash g'"
    and nocol: "\<not> (\<exists>a \<in> signedTexts g es. \<exists>b \<in> signedTexts g' es'. collision a b)"
  shows "sg_TenantID g = sg_TenantID g' \<and> sg_FirstSequence g = sg_FirstSequence g' \<and> sg_LastSequence g = sg_LastSequence g'
    \<and> list_all2 sameEvidence (rangeEvents g es) (rangeEvents g' es')"
proof -
  note k = checkSegment_clean [OF s] and k' = checkSegment_clean [OF s']
  note x = clean_hex [OF c] and x' = clean_hex [OF c']
  let ?m = "\<lambda>g. manifestText (sg_TenantID g) (sg_FirstSequence g) (sg_LastSequence g) (sg_LastHash g) (sg_MerkleRoot g)"
  let ?h = "\<lambda>g es. map ev_Hash (rangeEvents g es)"
  have "?m g = ?m g'"
    using HashBytes_eq_or_collision [of "?m g" "?m g'"] k(4) k'(4) same nocol by (auto simp: signedTexts_def)
  moreover have "CHR '':'' \<notin> set (sg_MerkleRoot g)" "CHR '':'' \<notin> set (sg_MerkleRoot g')"
    using merkleRoot_hex [OF x(1)] merkleRoot_hex [OF x'(1)] k(1) k'(1) hexHash_colon by metis+
  ultimately have eq: "sg_TenantID g = sg_TenantID g'" "sg_FirstSequence g = sg_FirstSequence g'" "sg_LastSequence g = sg_LastSequence g'"
    "sg_MerkleRoot g = sg_MerkleRoot g'"
    using manifestText_inj [of "sg_TenantID g"] x(2) x'(2) k(3) k'(3) by metis+
  have len: "length (?h g es) = length (?h g' es')" using k(2) k'(2) eq by simp
  have hashes: "?h g es = ?h g' es'"
    using merkleRoot_binds [OF len hexHash_sized [OF x(1)] hexHash_sized [OF x'(1)]] k(1) k'(1) eq(4) nocol
    by (auto simp: signedTexts_def)
  have "sameEvidence (rangeEvents g es ! i) (rangeEvents g' es' ! i)" if i: "i < length (rangeEvents g es)" for i
  proof -
    let ?e = "rangeEvents g es ! i" and ?e' = "rangeEvents g' es' ! i"
    have mem: "?e \<in> set es" "?e' \<in> set es'" using i len nth_mem [of i "rangeEvents g es"] nth_mem [of i "rangeEvents g' es'"]
      by (auto simp: rangeEvents_def)
    have h: "ev_Hash ?e = ev_Hash ?e'" using hashes i len by (metis length_map nth_map)
    note e = checkChain_clean [OF c mem(1)] and e' = checkChain_clean [OF c' mem(2)]
    have "\<not> (\<exists>a b. hashText ?e = Inr a \<and> hashText ?e' = Inr b \<and> collision a b)" using nocol mem by (auto simp: signedTexts_def)
    with eventHash_binds [of ?e "ev_Hash ?e" ?e'] e e' h show ?thesis by (auto simp: sameEvidence_def EventDigest_def)
  qed
  then show ?thesis using eq len by (simp add: list_all2_conv_all_nth)
qed


text \<open>
  C3. A signature pins the events. Take two bodies of evidence that both pass the check of the stream and
  of a segment, and whose segments carry one manifest hash, the text the signature covers. Then the
  segments have the same tenant and the same range, and event for event the same hash, sequence,
  predecessor, stream and source digest; or two of the texts hashed by the two checks are a collision of
  SHA-256. So no sealed event can be changed, dropped, inserted or moved under the old signature.
\<close>

theorem signature_pins_events:
  assumes "checkChain cfg schemas sid head es = []" and "checkSegment cfg es g = []"
    and "checkChain cfg' schemas' sid' head' es' = []" and "checkSegment cfg' es' g' = []"
    and "sg_ManifestHash g = sg_ManifestHash g'"
  shows "sg_TenantID g = sg_TenantID g' \<and> sg_FirstSequence g = sg_FirstSequence g' \<and> sg_LastSequence g = sg_LastSequence g'
      \<and> list_all2 sameEvidence (rangeEvents g es) (rangeEvents g' es')
    \<or> (\<exists>a \<in> signedTexts g es. \<exists>b \<in> signedTexts g' es'. collision a b)"
  using evidence_pinned [OF assms] by blast

theorem signature_pins_events_witness:
  "\<exists>schemas e g. checkChain exampleConfig schemas ''t1:operation:op1'' '''' [e] = [] \<and> checkSegment exampleConfig [e] g = []
     \<and> ev_EventID e = ''e1''
     \<and> (\<forall>es' g'. checkChain exampleConfig schemas ''t1:operation:op1'' '''' es' = [] \<and> checkSegment exampleConfig es' g' = []
          \<and> sg_ManifestHash g = sg_ManifestHash g' \<and> rangeEvents g' es' \<noteq> [] \<and> ev_Sequence (hd (rangeEvents g' es')) \<noteq> 1
          \<longrightarrow> (\<exists>a b. collision a b))"
proof -
  obtain e data where r:
    "ledgerReach exampleConfig ((\<lambda>_. [])(StreamKey ''t1'' ''t1:operation:op1'' := [e])) data"
    "ev_TenantID e = ''t1''" "ev_EventID e = ''e1''" "ev_StreamID e = ''t1:operation:op1''" "ev_Sequence e = 1" "sn_Segments data = []"
    by (rule example_reach [where get = "\<lambda>_. Inl (Err ErrNotFound '''')"]) blast
  let ?hist = "(\<lambda>_. [])(StreamKey ''t1'' ''t1:operation:op1'' := [e])" and ?sid = "''t1:operation:op1''"
  have inv: "ledgerInv exampleConfig ?hist data" by (rule ledgerReach_inv [OF r(1) exampleConfig_aead])
  have l: "logged ?hist e" using r by (simp add: example_logged)
  obtain st where st: "streamOK exampleConfig ''t1'' ?sid [e] st []"
    using logged_stream [OF inv l] r by (auto simp: mget_or_def)
  then have ch: "chained [] 1 [e]" and pend: "st_PendingHashes st \<noteq> []" by (auto simp: streamOK_def pendingFrom_def)
  obtain g c where g: "sealSegment exampleConfig ''c2'' st 11 = Inr (g, c)" by (simp add: sealSegment_def exampleConfig_def Let_def)
  have s: "sealedBy exampleConfig ''t1'' ?sid [e] 0 1 g"
  proof -
    obtain n where n: "sealedBy exampleConfig ''t1'' ?sid [e] 0 n g" using streamOK_seal [OF st pend g] by (auto simp: streamOK_def)
    then have "n = 1" by (simp add: sealedBy_def)
    then show ?thesis using n by simp
  qed
  have a: "checkChain exampleConfig (sn_Schemas data) ?sid [] [e] = []"
    by (rule checkChain_honest [OF ch]) (use logged_content [OF _ l] inv in \<open>simp add: ledgerInv_def\<close>)
  have b: "checkSegment exampleConfig [e] g = []"
    by (rule checkSegment_honest [OF ch _ s exampleConfig_signer]) (simp add: r)
  have rng: "rangeEvents g [e] = [e]" using s r(4,5) by (simp add: rangeEvents_def sealedBy_def)
  have "\<exists>a b. collision a b"
    if p: "checkChain exampleConfig (sn_Schemas data) ?sid [] es' = []" "checkSegment exampleConfig es' g' = []"
      "sg_ManifestHash g = sg_ManifestHash g'" "rangeEvents g' es' \<noteq> []" "ev_Sequence (hd (rangeEvents g' es')) \<noteq> 1" for es' g'
    using signature_pins_events [OF a b p(1-3)] p(4,5) r(5)
    by (auto simp: rng list_all2_Cons1 sameEvidence_def)
  with a b r(3) show ?thesis by blast
qed


subsection \<open>Eviction\<close>

definition archivedIn :: "(string \<Rightarrow> string result) \<Rightarrow> Event \<Rightarrow> bool" where
  "archivedIn get e \<longleftrightarrow> (\<exists>raw. CanonicalJSON (Event_value e) = Inr raw
     \<and> get (eventArchiveKey (ev_TenantID e) (ev_StreamID e) (ev_Sequence e) (ev_EventID e)) = Inr raw)"

text \<open>What a pass over any write-once store leaves behind.\<close>

context worm_store
begin

lemma archiveEvent_keeps: "get s k = Inr d \<Longrightarrow> get (snd (archiveEvent put s e)) k = Inr d"
  by (auto simp: archiveEvent_def put_keeps split: sum.splits)

lemma archiveEvents_keep: "get s k = Inr d \<Longrightarrow> get (snd (archiveEvents put now t es dead s)) k = Inr d"
proof (induction es arbitrary: dead s)
  case (Cons e es)
  have "get (snd (archiveEvent put s e)) k = Inr d" by (rule archiveEvent_keeps [OF Cons.prems])
  then show ?case using Cons.IH by (auto split: prod.splits option.splits sum.splits) (metis snd_conv)+
qed simp

lemma archiveEvents_stored:
  "archiveEvents put now t es dead s = (Inr (archived, dead'), s') \<Longrightarrow> e \<in> set archived \<Longrightarrow> e \<in> set es \<and> archivedIn (get s') e"
proof (induction es arbitrary: dead s archived)
  case (Cons x es)
  obtain r s1 where x: "archiveEvent put s x = (r, s1)" by fastforce
  show ?case
  proof (cases r)
    case None
    obtain archived1 where r1: "archiveEvents put now t es dead s1 = (Inr (archived1, dead'), s')" "archived = x # archived1"
      using Cons.prems(1) x None by (auto split: prod.splits sum.splits)
    have "archivedIn (get s1) x" using x None by (auto simp: archiveEvent_def archivedIn_def get_put split: sum.splits)
    then have "archivedIn (get s') x"
      using archiveEvents_keep [where es = es and now = now and t = t and dead = dead and s = s1] r1(1) by (fastforce simp: archivedIn_def)
    then show ?thesis using Cons.IH [OF r1(1)] r1(2) Cons.prems(2) by auto
  next
    case (Some err)
    then show ?thesis using Cons x by (auto split: if_splits)
  qed
qed simp

end

lemma evictAll_lost:
  "mget (sn_Events data) k = Some e \<Longrightarrow> mget (sn_Events (fold evictArchived keys data)) k = None
    \<Longrightarrow> \<exists>r. mget (sn_Receipts data) k = Some r \<and> rc_Status r = StatusArchived"
proof (induction keys arbitrary: data)
  case (Cons key keys)
  have rc: "sn_Receipts (evictArchived key data) = sn_Receipts data" by (simp add: evictArchived_def split: option.splits)
  show ?case
  proof (cases "mget (sn_Events (evictArchived key data)) k")
    case None
    then show ?thesis using Cons.prems(1) by (auto simp: evictArchived_def mget_mdel split: option.splits if_splits)
  next
    case (Some e')
    then show ?thesis using Cons.IH [of "evictArchived key data"] Cons.prems rc
      by (auto simp: evictArchived_def mget_mdel split: option.splits if_splits)
  qed
qed simp

lemma markArchived_lost:
  "markArchived now t es data = Inr data' \<Longrightarrow> mget (sn_Events data) k \<noteq> None \<Longrightarrow> mget (sn_Events data') k = None
    \<Longrightarrow> \<exists>e \<in> set es. k = EventKey t (ev_EventID e)"
proof (induction es arbitrary: data)
  case (Cons e es)
  show ?case
  proof (cases "k = EventKey t (ev_EventID e)")
    case False
    then show ?thesis using Cons.IH [OF _ _ Cons.prems(3)] Cons.prems(1,2)
      by (fastforce simp: Let_def mget_mdel split: option.splits)
  qed simp
qed simp

lemma recordDead_events: "recordDead dead data = Inr data' \<Longrightarrow> sn_Events data' = sn_Events data"
proof (induction dead data rule: recordDead.induct)
  case (2 key d rest data)
  show ?case
  proof (cases "mget (sn_Receipts data) key")
    case None
    then show ?thesis using 2(1) [OF refl] 2(3) by (auto split: if_splits)
  next
    case (Some r)
    then show ?thesis using 2(2) [OF refl] 2(3) by simp
  qed
qed simp

lemma archiveCommit_lost:
  assumes "archiveCommit now t evicted archived dead data = Inr data'" "mget (sn_Events data) k = Some e" "mget (sn_Events data') k = None"
  shows "(\<exists>r. mget (sn_Receipts data) k = Some r \<and> rc_Status r = StatusArchived) \<or> (\<exists>x \<in> set archived. k = EventKey t (ev_EventID x))"
proof -
  obtain d1 d2 where d: "markArchived now t archived (fold evictArchived evicted data) = Inr d1" "recordDead dead d1 = Inr d2"
    "data' = d2\<lparr>sn_ArchiveConflictFailures := mput (sn_ArchiveConflictFailures d2) t 0\<rparr>"
    using assms(1) by (auto simp: archiveCommit_def rbind_eq_Inr)
  then have "mget (sn_Events d1) k = None" using assms(3) recordDead_events by fastforce
  then show ?thesis using markArchived_lost [OF d(1)] evictAll_lost [OF assms(2)] by (meson option.exhaust)
qed

lemma archivePlan_events:
  assumes "x \<in> set (ap_Events (archivePlan t data))" "wf_map (sn_Events data)"
  shows "\<exists>k. mget (sn_Events data) k = Some x \<and> ev_TenantID x = t"
  using assms mget_iff [OF assms(2)] by (force simp: archivePlan_def Let_def)

lemma ArchivePending_Inr:
  assumes "ArchivePending cfg put now t later (data, s) = (Inr n, data', s')"
  shows "data' = later data \<or> (\<exists>dead s1 archived dead'.
    archiveSegments put now t (ap_Segments (archivePlan t data)) [] s = (Inr dead, s1)
    \<and> archiveEvents put now t (ap_Events (archivePlan t data)) dead s1 = (Inr (archived, dead'), s')
    \<and> archiveCommit now t (ap_Evicted (archivePlan t data)) archived dead' (later data) = Inr data')"
proof -
  obtain r1 s1 where 1: "archiveSegments put now t (ap_Segments (archivePlan t data)) [] s = (r1, s1)" by fastforce
  obtain dead where r1: "r1 = Inr dead"
    using assms 1 by (cases r1) (auto simp: ArchivePending_def Let_def split: option.splits if_splits)
  obtain r2 s2 where 2: "archiveEvents put now t (ap_Events (archivePlan t data)) dead s1 = (r2, s2)" by fastforce
  obtain archived dead' where r2: "r2 = Inr (archived, dead')"
    using assms 1 2 r1 by (cases r2) (auto simp: ArchivePending_def Let_def split: option.splits if_splits)
  show ?thesis
    using assms 1 2 unfolding r1 r2
    by (cases "archiveCommit now t (ap_Evicted (archivePlan t data)) archived dead' (later data)")
      (auto simp: ArchivePending_def Let_def split: option.splits if_splits)
qed



definition exampleStored :: Event where
  "exampleStored = exampleEvent\<lparr>ev_StreamID := ''s'', ev_Sequence := 1, ev_Hash := ''h''\<rparr>"

definition exampleHot :: Snapshot where
  "exampleHot = NewSnapshot\<lparr>sn_Events := [(EventKey ''t1'' ''e1'', exampleStored)],
     sn_Receipts := [(EventKey ''t1'' ''e1'', ledgeredReceipt ''t1'' exampleStored)]\<rparr>"

definition examplePass :: "int result \<times> Snapshot \<times> FileStore" where
  "examplePass = ArchivePending (exampleConfig\<lparr>cf_ArchiveConfigured := True\<rparr>) (\<lambda>s k d. filePut noFaults s k d) 9 ''t1'' (\<lambda>d. d)
     (exampleHot, \<lparr>fs_Dir = ''/a'', fs_objects = []\<rparr>)"


end
