(* ===== verification/Attestation.thy ===== *)
theory Attestation
  imports Chain
begin

section \<open>Aggregate attestations\<close>

text \<open>
  What the aggregate attestation of a tenant's checkpoints promises: the signed payload determines every
  field it frames, and the record a pass creates verifies against the checkpoints it was made from and
  survives the retention trim.
\<close>

subsection \<open>The payload is uniquely decodable\<close>

lemma length_beBytes [simp]: "length (beBytes n v) = n"
  by (induction n arbitrary: v) simp_all

lemma beBytes_inj: "beBytes n v = beBytes n w \<Longrightarrow> v < 256 ^ n \<Longrightarrow> w < 256 ^ n \<Longrightarrow> v = w"
proof (induction n arbitrary: v w)
  case (Suc n)
  have "beBytes n (v div 256) = beBytes n (w div 256)" "char_of (v mod 256) = (char_of (w mod 256) :: char)"
    using Suc.prems(1) by simp_all
  then have "v div 256 = w div 256" "v mod 256 = w mod 256"
    using Suc.IH [of "v div 256" "w div 256"] Suc.prems(2,3) arg_cong [of _ _ "of_char :: char \<Rightarrow> nat"]
    by (auto simp: div_less_iff_less_mult mult.commute)
  then show ?case by (metis div_mult_mod_eq)
qed simp

definition uint64 :: "int \<Rightarrow> bool" where
  "uint64 v \<longleftrightarrow> 0 \<le> v \<and> v < 2 ^ 64"

lemma uint_inj: "uint64 v \<Longrightarrow> uint64 w \<Longrightarrow> writeAggregateUint v @ x = writeAggregateUint w @ y \<longleftrightarrow> v = w \<and> x = y"
proof -
  assume v: "uint64 v" and w: "uint64 w"
  have "v = w" if "writeAggregateUint v = writeAggregateUint w"
  proof -
    have "nat v = nat w"
      by (rule beBytes_inj [of 8]) (use that v w in \<open>auto simp: writeAggregateUint_def uint64_def nat_less_iff\<close>)
    then show ?thesis using v w by (auto simp: uint64_def)
  qed
  then show ?thesis by (auto simp: writeAggregateUint_def)
qed

definition sized :: "string \<Rightarrow> bool" where
  "sized s \<longleftrightarrow> uint64 (int (length s))"

lemma field_inj:
  assumes "sized v" "sized w"
  shows "writeAggregateField v @ x = writeAggregateField w @ y \<longleftrightarrow> v = w \<and> x = y"
proof -
  have "writeAggregateField v @ x = writeAggregateField w @ y
      \<longleftrightarrow> int (length v) = int (length w) \<and> v @ x = w @ y"
    using uint_inj [of "int (length v)" "int (length w)" "v @ x" "w @ y"] assms by (simp add: writeAggregateField_def sized_def)
  then show ?thesis by auto
qed

lemma fields_inj:
  "length vs = length ws \<Longrightarrow> \<forall>v \<in> set vs \<union> set ws. sized v
    \<Longrightarrow> concat (map writeAggregateField vs) @ x = concat (map writeAggregateField ws) @ y \<longleftrightarrow> vs = ws \<and> x = y"
proof (induction vs ws rule: list_induct2)
  case (Cons v vs w ws)
  then show ?case using field_inj [of v w] by auto
qed simp

definition refSized :: "CheckpointRef \<Rightarrow> bool" where
  "refSized r \<longleftrightarrow> sized (cr_StreamID r) \<and> sized (cr_CheckpointID r) \<and> sized (cr_MerkleRoot r) \<and> cr_Sequence r < 2 ^ 64"

lemma refs_inj:
  "length rs = length qs \<Longrightarrow> \<forall>r \<in> set rs \<union> set qs. refSized r
    \<Longrightarrow> writeAggregateRefs rs = Inr x \<Longrightarrow> writeAggregateRefs qs = Inr x \<Longrightarrow> rs = qs"
proof (induction rs qs arbitrary: x rule: list_induct2)
  case (Cons r rs q qs)
  obtain x1 x2 where x: "writeAggregateRefs rs = Inr x1" "writeAggregateRefs qs = Inr x2" and pos: "cr_Sequence r > 0" "cr_Sequence q > 0"
    and eq: "writeAggregateField (cr_StreamID r) @ writeAggregateField (cr_CheckpointID r)
             @ writeAggregateUint (cr_Sequence r) @ writeAggregateField (cr_MerkleRoot r) @ x1 =
       writeAggregateField (cr_StreamID q) @ writeAggregateField (cr_CheckpointID q)
             @ writeAggregateUint (cr_Sequence q) @ writeAggregateField (cr_MerkleRoot q) @ x2"
    using Cons.prems(2,3) by (auto simp: rbind_eq_Inr split: if_splits)
  have sz: "refSized r" "refSized q" using Cons.prems(1) by auto
  then have "cr_StreamID r = cr_StreamID q \<and> cr_CheckpointID r = cr_CheckpointID q \<and> cr_Sequence r = cr_Sequence q
      \<and> cr_MerkleRoot r = cr_MerkleRoot q \<and> x1 = x2"
    using eq pos by (simp add: refSized_def field_inj uint_inj uint64_def)
  then show ?case using Cons.IH [OF _ x(1)] x(2) Cons.prems(1) by auto
qed simp

text \<open>What Go's types guarantee of every record: 64-bit integers and lengths.\<close>

definition attestationSized :: "AggregateCheckpoint \<Rightarrow> bool" where
  "attestationSized a \<longleftrightarrow> sized (ag_TenantID a) \<and> sized (ag_Algorithm a) \<and> ag_AttestationVersion a < 2 ^ 64 \<and> ag_StreamCount a < 2 ^ 64
     \<and> uint64 (int (length (ag_StreamRoots a))) \<and> uint64 (int (length (ag_CheckpointRefs a)))
     \<and> list_all sized (ag_StreamRoots a) \<and> list_all refSized (ag_CheckpointRefs a)"

text \<open>
  C17. The signed payload of an aggregate attestation is uniquely decodable: two records with one payload
  have the same version, tenant, algorithm, stream count, stream roots and checkpoint references, so a
  signature over the payload cannot be moved to another set of checkpoints.
\<close>

theorem attestation_payload_injective:
  assumes "aggregateAttestationPayload a = Inr p" and "aggregateAttestationPayload b = Inr p"
    and "attestationSized a" and "attestationSized b"
  shows "ag_AttestationVersion a = ag_AttestationVersion b \<and> ag_TenantID a = ag_TenantID b \<and> ag_Algorithm a = ag_Algorithm b
    \<and> ag_StreamCount a = ag_StreamCount b \<and> ag_StreamRoots a = ag_StreamRoots b \<and> ag_CheckpointRefs a = ag_CheckpointRefs b"
proof -
  obtain x y where x: "writeAggregateRefs (ag_CheckpointRefs a) = Inr x" and y: "writeAggregateRefs (ag_CheckpointRefs b) = Inr y"
    and pos: "ag_AttestationVersion a \<ge> 0" "ag_StreamCount a \<ge> 0" "ag_AttestationVersion b \<ge> 0" "ag_StreamCount b \<ge> 0"
    and eq: "writeAggregateUint (ag_AttestationVersion a)
             @ writeAggregateField (ag_TenantID a) @ writeAggregateField (ag_Algorithm a)
             @ writeAggregateUint (ag_StreamCount a) @ writeAggregateUint (int (length (ag_StreamRoots a)))
             @ concat (map writeAggregateField (ag_StreamRoots a))
             @ writeAggregateUint (int (length (ag_CheckpointRefs a))) @ x =
        writeAggregateUint (ag_AttestationVersion b)
             @ writeAggregateField (ag_TenantID b) @ writeAggregateField (ag_Algorithm b)
             @ writeAggregateUint (ag_StreamCount b) @ writeAggregateUint (int (length (ag_StreamRoots b)))
             @ concat (map writeAggregateField (ag_StreamRoots b))
             @ writeAggregateUint (int (length (ag_CheckpointRefs b))) @ y"
    using assms(1,2) by (auto simp: aggregateAttestationPayload_def rbind_eq_Inr split: if_splits)
  have s: "uint64 (ag_AttestationVersion a)" "uint64 (ag_AttestationVersion b)" "uint64 (ag_StreamCount a)" "uint64 (ag_StreamCount b)"
    using pos assms(3,4) by (simp_all add: attestationSized_def uint64_def)
  have hd: "ag_AttestationVersion a = ag_AttestationVersion b" "ag_TenantID a = ag_TenantID b" "ag_Algorithm a = ag_Algorithm b"
      "ag_StreamCount a = ag_StreamCount b" and len: "length (ag_StreamRoots a) = length (ag_StreamRoots b)"
    and rest: "concat (map writeAggregateField (ag_StreamRoots a)) @ writeAggregateUint (int (length (ag_CheckpointRefs a))) @ x
        = concat (map writeAggregateField (ag_StreamRoots b)) @ writeAggregateUint (int (length (ag_CheckpointRefs b))) @ y"
    using eq s assms(3,4) by (simp_all add: uint_inj field_inj attestationSized_def)
  have "\<forall>v \<in> set (ag_StreamRoots a) \<union> set (ag_StreamRoots b). sized v"
    using assms(3,4) by (auto simp: attestationSized_def list_all_iff)
  note fi = fields_inj [OF len this]
  have roots: "ag_StreamRoots a = ag_StreamRoots b"
    and tl: "writeAggregateUint (int (length (ag_CheckpointRefs a))) @ x = writeAggregateUint (int (length (ag_CheckpointRefs b))) @ y"
    using rest [unfolded fi] by blast+
  have "length (ag_CheckpointRefs a) = length (ag_CheckpointRefs b)" "x = y"
    using tl uint_inj [of "int (length (ag_CheckpointRefs a))" "int (length (ag_CheckpointRefs b))"] assms(3,4)
    by (simp_all add: attestationSized_def)
  moreover have "\<forall>r \<in> set (ag_CheckpointRefs a) \<union> set (ag_CheckpointRefs b). refSized r"
    using assms(3,4) by (auto simp: attestationSized_def list_all_iff)
  ultimately have "ag_CheckpointRefs a = ag_CheckpointRefs b" using refs_inj x y by metis
  then show ?thesis using hd roots by simp
qed


definition exampleAttestation :: AggregateCheckpoint where
  "exampleAttestation = \<lparr>ag_ID = ''a'', ag_TenantID = ''t1'', ag_StreamCount = 1, ag_Root = ''r'', ag_Signature = '''', ag_Algorithm = ''x'',
     ag_CreatedAt = 0, ag_StreamRoots = [''r''], ag_AttestationVersion = 2,
     ag_CheckpointRefs = [\<lparr>cr_StreamID = ''s'', cr_CheckpointID = ''c'', cr_Sequence = 1, cr_MerkleRoot = ''r''\<rparr>]\<rparr>"

theorem attestation_payload_injective_witness:
  "\<exists>p. aggregateAttestationPayload exampleAttestation = Inr p
     \<and> (\<forall>b. attestationSized b \<and> aggregateAttestationPayload b = Inr p \<longrightarrow> ag_TenantID b = ''t1'' \<and> ag_StreamRoots b = [''r''])"
proof -
  obtain p where p: "aggregateAttestationPayload exampleAttestation = Inr p"
    by (simp add: aggregateAttestationPayload_def exampleAttestation_def)
  have "attestationSized exampleAttestation"
    by (simp add: attestationSized_def exampleAttestation_def sized_def uint64_def refSized_def)
  moreover have "ag_TenantID exampleAttestation = ''t1''" "ag_StreamRoots exampleAttestation = [''r'']"
    by (simp_all add: exampleAttestation_def)
  ultimately show ?thesis using attestation_payload_injective [OF p] p by metis
qed

subsection \<open>A created attestation verifies\<close>

definition ownedBy :: "string \<Rightarrow> string \<Rightarrow> bool" where
  "ownedBy t key \<longleftrightarrow> (case SplitTenantKey key of (owner, _, ok) \<Rightarrow> ok \<and> owner = t)"

text \<open>The tenant's checkpoints are filed under their own stream and carry distinct identifiers.\<close>

definition checkpointsOK :: "string \<Rightarrow> Checkpoint list gomap \<Rightarrow> bool" where
  "checkpointsOK t cps \<longleftrightarrow> wf_map cps \<and> distinct (map cp_ID (concat (map snd (filter (\<lambda>kc. ownedBy t (fst kc)) cps))))
     \<and> (\<forall>(key, cs) \<in> set cps. \<forall>c \<in> set cs. ownedBy t key \<longrightarrow> key = StreamKey (cp_TenantID c) (cp_StreamID c) \<and> cp_TenantID c = t)"

lemma latestCheckpoint_mem: "latestCheckpoint c cs \<in> set (c # cs)"
proof (induction cs arbitrary: c)
  case (Cons x cs)
  show ?case using Cons.IH [of "if laterCheckpoint x c then x else c"] by (auto simp: latestCheckpoint_def split: if_splits)
qed (simp add: latestCheckpoint_def)

definition refOf :: "string \<Rightarrow> string \<times> Checkpoint list \<Rightarrow> CheckpointRef \<Rightarrow> bool" where
  "refOf t kc ref \<longleftrightarrow> (\<exists>cp \<in> set (snd kc). SplitTenantKey (fst kc) = (t, cr_StreamID ref, True)
      \<and> ref = \<lparr>cr_StreamID = cp_StreamID cp, cr_CheckpointID = cp_ID cp, cr_Sequence = cp_Sequence cp, cr_MerkleRoot = cp_MerkleRoot cp\<rparr>
      \<and> cp_TenantID cp = t \<and> cp_ID cp \<noteq> [] \<and> cp_MerkleRoot cp \<noteq> [] \<and> cp_Sequence cp > 0)"

lemma collectRefs_spec:
  assumes "collectRefs t kvs = Inr refs"
  shows "list_all2 (refOf t) (filter (\<lambda>kc. ownedBy t (fst kc) \<and> snd kc \<noteq> []) kvs) refs"
  using assms
proof (induction kvs arbitrary: refs)
  case (Cons kv rest)
  obtain key vals where kv: "kv = (key, vals)" by fastforce
  obtain owner sid ok where sp: "SplitTenantKey key = (owner, sid, ok)" by (metis prod_cases3)
  show ?case
  proof (cases "vals = [] \<or> \<not> ok \<or> owner \<noteq> t")
    case True
    then have "collectRefs t rest = Inr refs" using Cons.prems kv sp by (cases "vals") auto
    moreover have "\<not> (ownedBy t key \<and> vals \<noteq> [])" using True sp by (auto simp: ownedBy_def)
    ultimately show ?thesis using Cons.IH [of refs] kv by auto
  next
    case False
    then obtain c cs where v: "vals = c # cs" by (cases "vals") auto
    let ?cp = "latestCheckpoint c cs"
    let ?ref = "\<lparr>cr_StreamID = cp_StreamID ?cp, cr_CheckpointID = cp_ID ?cp, cr_Sequence = cp_Sequence ?cp, cr_MerkleRoot = cp_MerkleRoot ?cp\<rparr>"
    have ok: "owner = t" "ok" using False by auto
    have good: "cp_TenantID ?cp = t" "cp_StreamID ?cp = sid" "cp_ID ?cp \<noteq> []" "cp_MerkleRoot ?cp \<noteq> []" "cp_Sequence ?cp > 0"
      using Cons.prems kv v sp ok by (auto simp: Let_def split: if_splits)
    then obtain rs where rs: "collectRefs t rest = Inr rs" "refs = ?ref # rs"
      using Cons.prems kv v sp ok by (auto simp: Let_def rbind_eq_Inr)
    have "ownedBy t key" using sp ok by (simp add: ownedBy_def)
    moreover have "refOf t kv ?ref"
      unfolding refOf_def kv v fst_conv snd_conv by (rule bexI [of _ ?cp, OF _ latestCheckpoint_mem]) (simp add: good sp ok)
    ultimately show ?thesis
      using Cons.IH [OF rs(1)] kv v unfolding rs(2) by simp
  qed
qed simp

lemma ownedBy_key: "SplitTenantKey key = (t, sid, True) \<Longrightarrow> key = StreamKey t sid"
  by (simp add: SplitTenantKey_ok_iff StreamKey_def)


lemma refLess_strict: "strict_order refLess"
  unfolding strict_order_def refLess_def by (auto split: if_splits)

lemma list_all2_right: "list_all2 P xs ys \<Longrightarrow> y \<in> set ys \<Longrightarrow> \<exists>x \<in> set xs. P x y"
  by (metis in_set_conv_nth list_all2_conv_all_nth)

lemma refs_exact:
  assumes ok: "checkpointsOK t cps" and refs: "collectRefs t cps = Inr refs" and ref: "ref \<in> set refs"
  shows "exactCheckpointReference cps t ref" "cr_CheckpointID ref \<noteq> []" "cr_MerkleRoot ref \<noteq> []"
proof -
  obtain key cs cp where kc: "(key, cs) \<in> set cps" "ownedBy t key" and cp: "cp \<in> set cs" "SplitTenantKey key = (t, cr_StreamID ref, True)"
    "ref = \<lparr>cr_StreamID = cp_StreamID cp, cr_CheckpointID = cp_ID cp, cr_Sequence = cp_Sequence cp, cr_MerkleRoot = cp_MerkleRoot cp\<rparr>"
    "cp_TenantID cp = t" "cp_ID cp \<noteq> []" "cp_MerkleRoot cp \<noteq> []"
    using list_all2_right [OF collectRefs_spec [OF refs] ref] unfolding refOf_def by fastforce
  have wf: "wf_map cps" using ok by (simp add: checkpointsOK_def)
  have mem: "mget cps (StreamKey t (cr_StreamID ref)) = Some cs" using kc(1) ownedBy_key [OF cp(2)] mget_iff [OF wf] by blast
  have "cs \<in> set (map snd (filter (\<lambda>kc. ownedBy t (fst kc)) cps))" using kc by force
  then have "distinct (map cp_ID cs)" using ok unfolding checkpointsOK_def map_concat by (metis (no_types, lifting) distinct_concat_iff image_eqI set_map map_map)
  then have one: "filter (\<lambda>c. cp_ID c = cr_CheckpointID ref) cs = [cp]"
    using cp(1,3) by (induction cs) (auto simp: filter_empty_conv image_iff)
  show "exactCheckpointReference cps t ref"
    by (simp add: exactCheckpointReference_def mem one Let_def) (simp add: cp)
  show "cr_CheckpointID ref \<noteq> []" "cr_MerkleRoot ref \<noteq> []" using cp by simp_all
qed

lemma checkRefs_clean:
  "\<forall>ref \<in> set refs. exactCheckpointReference cps t ref \<and> cr_CheckpointID ref \<noteq> [] \<and> cr_MerkleRoot ref \<noteq> []
    \<Longrightarrow> distinct (map cr_StreamID refs) \<Longrightarrow> distinct (map cr_CheckpointID refs)
    \<Longrightarrow> set (map cr_StreamID refs) \<inter> set ss = {} \<Longrightarrow> set (map cr_CheckpointID refs) \<inter> set cs = {}
    \<Longrightarrow> checkRefs cps t refs refs (map cr_MerkleRoot refs) ss cs = None"
proof (induction refs arbitrary: ss cs)
  case (Cons ref refs)
  have "checkRefs cps t refs refs (map cr_MerkleRoot refs) (cr_StreamID ref # ss) (cr_CheckpointID ref # cs) = None"
    by (rule Cons.IH) (use Cons.prems in auto)
  then show ?case using Cons.prems by auto
qed simp


lemma picked_distinct:
  "list_all2 (\<lambda>cs i. i \<in> set (map cp_ID cs)) css is \<Longrightarrow> distinct (map cp_ID (concat css))
    \<Longrightarrow> distinct is \<and> set is \<subseteq> set (map cp_ID (concat css))"
  by (induction rule: list_all2_induct) auto

lemma list_all2_maps: "list_all2 (\<lambda>a b. f a = g b) xs ys \<Longrightarrow> map f xs = map g ys"
  by (induction rule: list_all2_induct) simp_all

lemma refOf_key: "refOf t kc ref \<Longrightarrow> fst kc = StreamKey t (cr_StreamID ref)"
  unfolding refOf_def using ownedBy_key by blast

lemma refs_distinct:
  assumes ok: "checkpointsOK t cps" and refs: "collectRefs t cps = Inr refs"
  shows "distinct (map cr_StreamID refs)" "distinct (map cr_CheckpointID refs)"
proof -
  let ?kvs = "filter (\<lambda>kc. ownedBy t (fst kc) \<and> snd kc \<noteq> []) cps"
  note spec = collectRefs_spec [OF refs]
  have "list_all2 (\<lambda>kc ref. fst kc = StreamKey t (cr_StreamID ref)) ?kvs refs"
    by (rule list_all2_mono [OF spec refOf_key])
  from list_all2_maps [OF this] have "map fst ?kvs = map (StreamKey t) (map cr_StreamID refs)" unfolding map_map comp_def .
  moreover have "distinct (map fst ?kvs)" using ok by (simp add: checkpointsOK_def wf_map_def distinct_map_filter)
  ultimately show "distinct (map cr_StreamID refs)" by (metis distinct_map)
  have "concat (map snd ?kvs) = concat (map snd (filter (\<lambda>kc. ownedBy t (fst kc)) cps))" by (induction cps) auto
  then have d: "distinct (map cp_ID (concat (map snd ?kvs)))" using ok by (simp add: checkpointsOK_def)
  have "list_all2 (\<lambda>kc ref. cr_CheckpointID ref \<in> set (map cp_ID (snd kc))) ?kvs refs"
    by (rule list_all2_mono [OF spec]) (auto simp: refOf_def)
  then have "list_all2 (\<lambda>cs i. i \<in> set (map cp_ID cs)) (map snd ?kvs) (map cr_CheckpointID refs)"
    by (simp add: list_all2_map1 list_all2_map2)
  from picked_distinct [OF this d] show "distinct (map cr_CheckpointID refs)" by blast
qed

lemma refs_sorted:
  assumes "checkpointsOK t (sn_Checkpoints data)" "aggregateCheckpointRefs data t = Inr refs"
  shows "checkRefs (sn_Checkpoints data) t refs (sortCheckpointRefs refs) (aggregateRoots refs) [] [] = None"
proof -
  obtain rs where rs: "collectRefs t (sn_Checkpoints data) = Inr rs" "refs = sortCheckpointRefs rs"
    using assms(2) by (auto simp: aggregateCheckpointRefs_def rbind_eq_Inr)
  have m: "mset refs = mset rs" by (simp add: rs(2) sortCheckpointRefs_def)
  have d: "distinct (map cr_StreamID refs)" "distinct (map cr_CheckpointID refs)"
    using refs_distinct [OF assms(1) rs(1)] mset_eq_imp_distinct_iff [of "map cr_StreamID refs" "map cr_StreamID rs"]
      mset_eq_imp_distinct_iff [of "map cr_CheckpointID refs" "map cr_CheckpointID rs"] m by simp_all
  have e: "\<forall>ref \<in> set refs. exactCheckpointReference (sn_Checkpoints data) t ref \<and> cr_CheckpointID ref \<noteq> [] \<and> cr_MerkleRoot ref \<noteq> []"
    using refs_exact [OF assms(1) rs(1)] mset_eq_setD [OF m] by auto
  have "sortCheckpointRefs refs = refs" by (simp add: rs(2) sortCheckpointRefs_def sort_slice_idem [OF refLess_strict])
  then show ?thesis using checkRefs_clean [OF e d] by (simp add: aggregateRoots_def)
qed

lemma verify_same:
  "sameAggregateAttestation a b \<Longrightarrow> verifyAggregateCheckpoint cfg t a cps = verifyAggregateCheckpoint cfg t b cps"
proof -
  assume "sameAggregateAttestation a b"
  then have f: "ag_TenantID a = ag_TenantID b" "ag_AttestationVersion a = ag_AttestationVersion b" "ag_StreamCount a = ag_StreamCount b"
    "ag_Root a = ag_Root b" "ag_Signature a = ag_Signature b" "ag_Algorithm a = ag_Algorithm b"
    "ag_StreamRoots a = ag_StreamRoots b" "ag_CheckpointRefs a = ag_CheckpointRefs b"
    by (simp_all add: sameAggregateAttestation_def)
  show ?thesis unfolding verifyAggregateCheckpoint_def aggregateAttestationPayload_def f ..
qed

subsection \<open>The retention trim\<close>

lemma trimNewest_spec:
  "keep \<ge> 0 \<Longrightarrow> int (length (filter (\<lambda>a. ag_TenantID a = t) (trimNewest t keep xs))) \<le> keep
     \<and> filter (\<lambda>a. ag_TenantID a \<noteq> t) (trimNewest t keep xs) = filter (\<lambda>a. ag_TenantID a \<noteq> t) xs
     \<and> (keep \<ge> 1 \<longrightarrow> find (\<lambda>a. ag_TenantID a = t) (trimNewest t keep xs) = find (\<lambda>a. ag_TenantID a = t) xs)"
proof (induction xs arbitrary: keep)
  case (Cons a xs)
  show ?case
  proof (cases "ag_TenantID a = t \<and> keep \<noteq> 0")
    case True
    then show ?thesis using Cons.IH [of "keep - 1"] Cons.prems by auto
  next
    case False
    then show ?thesis using Cons.IH [of keep] Cons.prems by auto
  qed
qed simp

lemma trim_spec:
  assumes "n \<ge> 1"
  shows "int (length (filter (\<lambda>a. ag_TenantID a = t) (fst (trimAggregateCheckpoints items t n)))) \<le> n"
    and "filter (\<lambda>a. ag_TenantID a \<noteq> t) (fst (trimAggregateCheckpoints items t n)) = filter (\<lambda>a. ag_TenantID a \<noteq> t) items"
    and "lastAggregateCheckpoint (fst (trimAggregateCheckpoints items t n)) t = lastAggregateCheckpoint items t"
proof -
  note s = trimNewest_spec [of n t "rev items"]
  show "int (length (filter (\<lambda>a. ag_TenantID a = t) (fst (trimAggregateCheckpoints items t n)))) \<le> n"
    using s assms by (auto simp: trimAggregateCheckpoints_def rev_filter [symmetric])
  show "filter (\<lambda>a. ag_TenantID a \<noteq> t) (fst (trimAggregateCheckpoints items t n)) = filter (\<lambda>a. ag_TenantID a \<noteq> t) items"
    using s assms by (auto simp: trimAggregateCheckpoints_def rev_filter [symmetric])
  show "lastAggregateCheckpoint (fst (trimAggregateCheckpoints items t n)) t = lastAggregateCheckpoint items t"
    using s assms by (auto simp: trimAggregateCheckpoints_def lastAggregateCheckpoint_def)
qed


subsection \<open>CreateAggregateCheckpoint\<close>

text \<open>The record a pass signs for the given references.\<close>

definition signedAttestation :: "Config \<Rightarrow> string \<Rightarrow> time \<Rightarrow> string \<Rightarrow> CheckpointRef list \<Rightarrow> AggregateCheckpoint \<Rightarrow> bool" where
  "signedAttestation cfg newID now t refs a \<longleftrightarrow> ag_TenantID a = t \<and> ag_StreamCount a = int (length refs) \<and> ag_StreamRoots a = aggregateRoots refs
     \<and> ag_Root a = merkleRoot (aggregateRoots refs) \<and> ag_Algorithm a = cf_Algorithm cfg
     \<and> ag_AttestationVersion a = aggregateAttestationVersion \<and> ag_CheckpointRefs a = refs
     \<and> (\<exists>payload. aggregateAttestationPayload a = Inr payload \<and> cf_Sign cfg payload = Inr (ag_Signature a))"

lemma payload_unsigned: "aggregateAttestationPayload (a\<lparr>ag_Signature := s\<rparr>) = aggregateAttestationPayload a"
proof -
  let ?a = "a\<lparr>ag_Signature := s\<rparr>"
  have f: "ag_AttestationVersion ?a = ag_AttestationVersion a" "ag_StreamCount ?a = ag_StreamCount a" "ag_TenantID ?a = ag_TenantID a"
    "ag_Algorithm ?a = ag_Algorithm a" "ag_StreamRoots ?a = ag_StreamRoots a" "ag_CheckpointRefs ?a = ag_CheckpointRefs a"
    by simp_all
  show ?thesis unfolding aggregateAttestationPayload_def f ..
qed

lemma Create_Inr:
  assumes "CreateAggregateCheckpoint cfg newID now t data = Inr (changed, data')" "aggregateCheckpointRefs data t = Inr refs" "refs \<noteq> []"
  shows "\<exists>candidate items'. signedAttestation cfg newID now t refs candidate
     \<and> (items' = sn_AggregateCheckpoints data \<and> (\<exists>latest. lastAggregateCheckpoint items' t = Some latest \<and> sameAggregateAttestation latest candidate)
        \<or> items' = sn_AggregateCheckpoints data @ [candidate])
     \<and> data' = data\<lparr>sn_AggregateCheckpoints := fst (trimAggregateCheckpoints items' t (retentionCap cfg))\<rparr>"
proof -
  let ?items = "sn_AggregateCheckpoints data"
  let ?u = "\<lparr>ag_ID = newID, ag_TenantID = t, ag_StreamCount = int (length refs), ag_Root = merkleRoot (aggregateRoots refs),
      ag_Signature = '''', ag_Algorithm = cf_Algorithm cfg, ag_CreatedAt = now, ag_StreamRoots = aggregateRoots refs,
      ag_AttestationVersion = aggregateAttestationVersion, ag_CheckpointRefs = refs\<rparr>"
  obtain payload where p1: "aggregateAttestationPayload ?u = Inr payload"
    using assms by (cases "aggregateAttestationPayload ?u") (simp_all add: CreateAggregateCheckpoint_def guardE_eq_Inr Let_def)
  obtain sig where "cf_Sign cfg payload = Inr sig"
    using assms p1 by (cases "cf_Sign cfg payload") (simp_all add: CreateAggregateCheckpoint_def guardE_eq_Inr Let_def)
  note p = p1 this
  let ?c = "?u\<lparr>ag_Signature := sig\<rparr>"
  have c: "signedAttestation cfg newID now t refs ?c"
    using p payload_unsigned [where a = ?u and s = sig] by (simp add: signedAttestation_def)
  have body: "(case lastAggregateCheckpoint ?items t of
       Some latest \<Rightarrow>
         if sameAggregateAttestation latest ?c
         then (case trimAggregateCheckpoints ?items t (retentionCap cfg) of (trimmed, changed) \<Rightarrow>
                 Inr (changed, data\<lparr>sn_AggregateCheckpoints := trimmed\<rparr>))
         else Inr (True, data\<lparr>sn_AggregateCheckpoints := fst (trimAggregateCheckpoints (?items @ [?c]) t (retentionCap cfg))\<rparr>)
     | None \<Rightarrow> Inr (True, data\<lparr>sn_AggregateCheckpoints := fst (trimAggregateCheckpoints (?items @ [?c]) t (retentionCap cfg))\<rparr>))
     = (Inr (changed, data') :: (bool \<times> Snapshot) result)"
    using assms(1) unfolding CreateAggregateCheckpoint_def guardE_eq_Inr
    by (simp only: assms(2,3) rbind_simps Let_def p if_False sum.case simp_thms)
  show ?thesis
  proof (cases "\<exists>latest. lastAggregateCheckpoint ?items t = Some latest \<and> sameAggregateAttestation latest ?c")
    case True
    then have "data' = data\<lparr>sn_AggregateCheckpoints := fst (trimAggregateCheckpoints ?items t (retentionCap cfg))\<rparr>"
      using body by (auto split: prod.splits)
    then show ?thesis using c True by blast
  next
    case False
    then have "data' = data\<lparr>sn_AggregateCheckpoints := fst (trimAggregateCheckpoints (?items @ [?c]) t (retentionCap cfg))\<rparr>"
      using body by (auto split: option.splits if_splits)
    then show ?thesis using c by blast
  qed
qed

lemma signed_verifies:
  assumes "signedAttestation cfg newID now t refs a" "signerOK cfg" "refs \<noteq> []"
    "checkRefs cps t refs (sortCheckpointRefs refs) (aggregateRoots refs) [] [] = None"
  shows "verifyAggregateCheckpoint cfg t a cps = None"
  using assms
  by (auto simp: verifyAggregateCheckpoint_def signedAttestation_def signerOK_def aggregateRoots_def aggregateAttestationVersion_def Let_def)



definition exampleSealed :: Snapshot where
  "exampleSealed = NewSnapshot\<lparr>sn_Checkpoints := [(StreamKey ''t1'' ''s'', [\<lparr>cp_ID = ''c'', cp_TenantID = ''t1'', cp_StreamID = ''s'',
     cp_Sequence = 1, cp_MerkleRoot = ''r'', cp_Signature = '''', cp_Algorithm = ''test'', cp_CreatedAt = 0\<rparr>])],
     sn_AggregateCheckpoints := [exampleAttestation\<lparr>ag_TenantID := ''t2''\<rparr>]\<rparr>"


end
