(* ===== verification/Selection.thy ===== *)
theory Selection
  imports Assurance
begin

section \<open>Selecting authenticated evidence: service/query_match.go, query_evidence.go, export_checkpoint_hold.go\<close>

text \<open>
  Every read of committed events goes the same way: the tenant's receipts name the evidence, each event
  is taken from the hot map or the archive, authenticated against its receipt, its exact schema, its
  content digest and its chain hash, and only then offered to a filter. The filters are the query
  conditions and the legal holds; the export gate reports the active hold with the lowest ID that
  covers a selected event, after a pre-filter on the time windows.
\<close>

subsection \<open>Filters (query_match.go)\<close>

definition containsString :: "string list \<Rightarrow> string \<Rightarrow> bool" where
  "containsString xs wanted \<longleftrightarrow> wanted \<in> set xs"

definition hasTarget :: "Event \<Rightarrow> string \<Rightarrow> bool" where
  "hasTarget e targetID \<longleftrightarrow> (\<exists>t \<in> set (ev_Targets e). tg_ID t = targetID)"

definition appendUnique :: "string list \<Rightarrow> string \<Rightarrow> string list" where
  "appendUnique xs wanted = (if wanted \<in> set xs then xs else xs @ [wanted])"

text \<open>A condition of the query: an empty filter field selects everything.\<close>

definition wants :: "string \<Rightarrow> string \<Rightarrow> bool" where
  "wants wanted actual \<longleftrightarrow> wanted = '''' \<or> actual = wanted"

definition queryDigest :: "Config \<Rightarrow> string \<Rightarrow> any \<Rightarrow> string \<Rightarrow> string \<Rightarrow> string result" where
  "queryDigest cfg digest v tenantID field =
     (if IsBoundSearchDigest digest then SearchDigestBound (cf_Codec cfg) v (cf_EncryptionKey cfg) tenantID field
      else SearchDigest (cf_Codec cfg) v (cf_EncryptionKey cfg))"

definition digestMatches :: "Config \<Rightarrow> Event \<Rightarrow> Query \<Rightarrow> EventSchema gomap \<Rightarrow> bool" where
  "digestMatches cfg e q schemas =
     (case payloadGet (ev_Payload e) (qy_PayloadField q @ SearchDigestSuffix) of
        Some (Some (VString stored)) \<Rightarrow>
          if IsBoundSearchDigest stored = IsBoundSearchDigest (qy_PayloadDigest q) then stored = qy_PayloadDigest q
          else (case mget schemas (SchemaKey (ev_TenantID e) (ev_SchemaID e) (ev_SchemaVersion e)) of
                  None \<Rightarrow> False
                | Some schema \<Rightarrow>
                    if containsString (es_EncryptedFields schema) (qy_PayloadField q) then False
                    else (case payloadGet (ev_Payload e) (qy_PayloadField q) of
                            None \<Rightarrow> False
                          | Some v \<Rightarrow> queryDigest cfg (qy_PayloadDigest q) v (ev_TenantID e) (qy_PayloadField q) = Inr (qy_PayloadDigest q)))
      | _ \<Rightarrow> False)"

definition matches :: "Config \<Rightarrow> Event \<Rightarrow> Query \<Rightarrow> EventSchema gomap \<Rightarrow> bool" where
  "matches cfg e q schemas \<longleftrightarrow>
     \<not> ev_OccurredAt e < qy_From q \<and> ev_OccurredAt e < qy_To q
     \<and> wants (qy_EventType q) (ev_EventType e) \<and> wants (qy_SourceSystem q) (ev_SourceSystem e)
     \<and> wants (qy_ActorID q) (ac_ID (ev_Actor e)) \<and> (qy_TargetID q = '''' \<or> hasTarget e (qy_TargetID q))
     \<and> wants (qy_AggregateType q) (ev_AggregateType e) \<and> wants (qy_AggregateID q) (ev_AggregateID e)
     \<and> wants (qy_OperationID q) (ev_OperationID e) \<and> wants (qy_CausationID q) (ev_CausationID e)
     \<and> wants (qy_CorrelationID q) (ev_CorrelationID e) \<and> wants (qy_TraceID q) (ev_TraceID e)
     \<and> wants (qy_Outcome q) (ev_Outcome e)
     \<and> (qy_PayloadField q = '''' \<or> digestMatches cfg e q schemas)
     \<and> wants (qy_StreamID q) (ev_StreamID e)"

definition holdMatchesEvent :: "Config \<Rightarrow> LegalHold \<Rightarrow> Event \<Rightarrow> EventSchema gomap \<Rightarrow> bool" where
  "holdMatchesEvent cfg hold e schemas =
     (let f = lh_Filter hold in
      if qy_From f = 0 \<and> qy_To f = 0 then True
      else if qy_From f = 0 \<or> qy_To f = 0 then False
      else matches cfg e f schemas)"

definition holdCanSelectAnySelected :: "LegalHold \<Rightarrow> Query \<Rightarrow> bool" where
  "holdCanSelectAnySelected hold q =
     (let f = lh_Filter hold in
      if qy_From f = 0 \<and> qy_To f = 0 then True
      else if qy_From f = 0 \<or> qy_To f = 0 then False
      else if qy_From q = 0 \<or> qy_To q = 0 \<or> \<not> qy_From q < qy_To q then True
      else if \<not> qy_From f < qy_To f then True
      else qy_From f < qy_To q \<and> qy_From q < qy_To f)"

definition compareEvents :: "Event \<Rightarrow> Event \<Rightarrow> bool" where
  "compareEvents a b \<longleftrightarrow>
     (if ev_OccurredAt a = ev_OccurredAt b then
        if ev_Sequence a = ev_Sequence b then ev_EventID a < ev_EventID b else ev_Sequence a < ev_Sequence b
      else ev_OccurredAt a < ev_OccurredAt b)"

definition sortEvents :: "Event list \<Rightarrow> Event list" where
  "sortEvents = sort_slice compareEvents"

definition replayChange :: "string \<times> FieldChange \<Rightarrow> payload \<Rightarrow> payload" where
  "replayChange fc state =
     (case fc_After (snd fc) of None \<Rightarrow> mdel state (fst fc) | Some v \<Rightarrow> mput state (fst fc) (Some v))"

definition replay :: "Event list \<Rightarrow> string \<Rightarrow> string \<Rightarrow> string \<Rightarrow> ReplayResult" where
  "replay events tenantID operationID aggregateID =
     \<lparr>re_TenantID = tenantID, re_OperationID = operationID, re_AggregateID = aggregateID,
      re_EventCount = int (length events),
      re_State = Some (fold (\<lambda>e state. fold replayChange (ev_ChangedFields e) state) events []),
      re_LastSequence = fold (\<lambda>e _. ev_Sequence e) events 0\<rparr>"

subsection \<open>Authenticated evidence (query_evidence.go, timeline_evidence.go, ledgered_intent.go)\<close>

definition zeroSchema :: EventSchema where
  "zeroSchema = \<lparr>es_TenantID = '''', es_SchemaID = '''', es_Version = 0, es_EventType = '''', es_RequiredFields = [],
     es_AllowedFields = [], es_EncryptedFields = [], es_SearchableFields = [], es_Classification = '''',
     es_Active = False, es_CreatedAt = 0\<rparr>"

definition validatePublicationEvent :: "Config \<Rightarrow> Event \<Rightarrow> EventReceipt \<Rightarrow> EventSchema gomap \<Rightarrow> error option" where
  "validatePublicationEvent cfg e r schemas =
     (if rc_TenantID r = '''' \<or> rc_EventID r = '''' \<or> rc_StreamID r = '''' \<or> rc_Sequence r \<le> 0 \<or> rc_Hash r = ''''
         \<or> ev_TenantID e \<noteq> rc_TenantID r \<or> ev_EventID e \<noteq> rc_EventID r \<or> ev_StreamID e \<noteq> rc_StreamID r
         \<or> ev_Sequence e \<noteq> rc_Sequence r \<or> ev_Hash e \<noteq> rc_Hash r
      then Some (Err ErrOther ''publication evidence identity mismatch'')
      else if verifyContentDigest cfg e schemas \<noteq> None then Some (Err ErrOther ''publication evidence content mismatch'')
      else if eventHash e \<noteq> Inr (rc_Hash r) then Some (Err ErrOther ''publication evidence hash mismatch'')
      else None)"

definition schemaBody :: "string \<Rightarrow> Event \<Rightarrow> EventSchema \<Rightarrow> bool" where
  "schemaBody tenantID e schema \<longleftrightarrow>
     es_TenantID schema = tenantID \<and> es_SchemaID schema = ev_SchemaID e \<and> es_Version schema = ev_SchemaVersion e"

record queryEvidence =
  qe_receipt :: EventReceipt
  qe_event :: "Event option"
  qe_schemas :: "EventSchema gomap"

definition resolveQueryEvidence :: "Config \<Rightarrow> (string \<Rightarrow> string result) \<Rightarrow> queryEvidence \<Rightarrow> Event result" where
  "resolveQueryEvidence cfg get c =
     rbind (case qe_event c of Some e \<Rightarrow> Inr e | None \<Rightarrow> archivedEvent cfg get (qe_receipt c)) (\<lambda>e.
       case mget (qe_schemas c) (SchemaKey (ev_TenantID e) (ev_SchemaID e) (ev_SchemaVersion e)) of
         None \<Rightarrow> Inl (Err ErrConflict ''query evidence exact schema identity mismatch'')
       | Some schema \<Rightarrow>
           if \<not> schemaBody (ev_TenantID e) e schema
           then Inl (Err ErrConflict ''query evidence exact schema identity mismatch'')
           else guardE (validatePublicationEvent cfg e (qe_receipt c) (qe_schemas c)) (Inr e))"

text \<open>
  The keys of a tenant's receipts: a receipt that is the tenant's by its body or by its key must be so
  by both, under the key of its event.
\<close>

definition ownsReceipt :: "string \<Rightarrow> string \<Rightarrow> EventReceipt \<Rightarrow> bool" where
  "ownsReceipt tenantID key r \<longleftrightarrow>
     rc_TenantID r = tenantID \<or> (case SplitTenantKey key of (keyTenant, rest, validKey) \<Rightarrow> validKey \<and> keyTenant = tenantID)"

definition tenantReceiptKeys :: "string \<Rightarrow> Snapshot \<Rightarrow> string \<Rightarrow> string list result" where
  "tenantReceiptKeys mismatch data tenantID =
     (let owned = filter (\<lambda>kr. ownsReceipt tenantID (fst kr) (snd kr)) (sn_Receipts data) in
      if \<exists>kr \<in> set owned. rc_TenantID (snd kr) \<noteq> tenantID \<or> fst kr \<noteq> EventKey tenantID (rc_EventID (snd kr))
      then Inl (Err ErrConflict mismatch)
      else Inr (sort_slice (<) (map fst owned)))"

text \<open>The event a receipt's key names, from the hot map or, once archived, from the archive.\<close>

definition committedEvidence :: "Config \<Rightarrow> (string \<Rightarrow> string result) \<Rightarrow> Snapshot \<Rightarrow> string \<Rightarrow> Event result" where
  "committedEvidence cfg get data key =
     (let r = mget_or zeroReceipt (sn_Receipts data) key in
      case mget (sn_Events data) key of
        Some e \<Rightarrow> resolveQueryEvidence cfg get \<lparr>qe_receipt = r, qe_event = Some e, qe_schemas = sn_Schemas data\<rparr>
      | None \<Rightarrow>
          if rc_Status r \<noteq> StatusArchived then Inl (Err ErrNotFound '''')
          else resolveQueryEvidence cfg get \<lparr>qe_receipt = r, qe_event = None, qe_schemas = sn_Schemas data\<rparr>)"

definition exactSchema :: "string \<Rightarrow> Snapshot \<Rightarrow> string \<Rightarrow> Event \<Rightarrow> EventSchema result" where
  "exactSchema mismatch data tenantID e =
     (let schema = mget_or zeroSchema (sn_Schemas data) (SchemaKey tenantID (ev_SchemaID e) (ev_SchemaVersion e)) in
      if schemaBody tenantID e schema then Inr schema else Inl (Err ErrConflict mismatch))"

fun timelineScan :: "Config \<Rightarrow> (string \<Rightarrow> string result) \<Rightarrow> Snapshot \<Rightarrow> string \<Rightarrow> (Event \<Rightarrow> bool) \<Rightarrow> string list \<Rightarrow> Event list result" where
  "timelineScan cfg get data tenantID predicate [] = Inr []"
| "timelineScan cfg get data tenantID predicate (key # keys) =
     rbind (committedEvidence cfg get data key) (\<lambda>e.
     rbind (exactSchema ''timeline schema identity mismatch'' data tenantID e) (\<lambda>_.
     rbind (timelineScan cfg get data tenantID predicate keys) (\<lambda>events.
       Inr (if predicate e then e # events else events))))"

definition readTimelineEvidence :: "Config \<Rightarrow> (string \<Rightarrow> string result) \<Rightarrow> Snapshot \<Rightarrow> string \<Rightarrow> (Event \<Rightarrow> bool) \<Rightarrow> Event list result" where
  "readTimelineEvidence cfg get data tenantID predicate =
     rbind (tenantReceiptKeys ''timeline receipt identity mismatch'' data tenantID) (\<lambda>keys.
     rbind (timelineScan cfg get data tenantID predicate keys) (\<lambda>events.
       if events = [] then Inl (Err ErrNotFound '''') else Inr events))"

fun evidenceCandidates :: "Snapshot \<Rightarrow> string \<Rightarrow> EventReference list \<Rightarrow> queryEvidence list result" where
  "evidenceCandidates data tenantID [] = Inr []"
| "evidenceCandidates data tenantID (ref # refs) =
     (let key = EventKey tenantID (er_EventID ref) in
      case mget (sn_Receipts data) key of
        None \<Rightarrow> Inl (Err ErrNotFound '''')
      | Some r \<Rightarrow>
          if rc_TenantID r \<noteq> tenantID \<or> rc_EventID r \<noteq> er_EventID ref
          then Inl (Err ErrConflict ''query evidence receipt identity mismatch'')
          else if er_StreamID ref \<noteq> '''' \<and> (er_StreamID ref \<noteq> rc_StreamID r \<or> er_Sequence ref \<noteq> rc_Sequence r \<or> er_Hash ref \<noteq> rc_Hash r)
          then Inl (Err ErrConflict ''query evidence coordinates changed'')
          else
            rbind (case mget (sn_Events data) key of
                     Some e \<Rightarrow>
                       rbind (CloneEvent e) (\<lambda>cloned.
                         let schemaKey = SchemaKey tenantID (ev_SchemaID e) (ev_SchemaVersion e) in
                         Inr \<lparr>qe_receipt = r, qe_event = Some cloned,
                              qe_schemas = (case mget (sn_Schemas data) schemaKey of None \<Rightarrow> [] | Some s \<Rightarrow> [(schemaKey, s)])\<rparr>)
                   | None \<Rightarrow>
                       if rc_Status r \<noteq> StatusArchived then Inl (Err ErrNotFound '''')
                       else Inr \<lparr>qe_receipt = r, qe_event = None,
                                 qe_schemas = filter (\<lambda>ks. es_TenantID (snd ks) = tenantID) (sn_Schemas data)\<rparr>)
              (\<lambda>c. rbind (evidenceCandidates data tenantID refs) (\<lambda>cs. Inr (c # cs))))"

fun resolveReferences :: "Config \<Rightarrow> (string \<Rightarrow> string result) \<Rightarrow> (EventReference \<times> queryEvidence) list \<Rightarrow> Event list result" where
  "resolveReferences cfg get [] = Inr []"
| "resolveReferences cfg get ((ref, c) # rest) =
     rbind (resolveQueryEvidence cfg get c) (\<lambda>e.
       if er_OccurredAt ref \<noteq> 0 \<and> er_OccurredAt ref \<noteq> ev_OccurredAt e
       then Inl (Err ErrConflict ''projected occurrence differs from ledger evidence'')
       else rbind (resolveReferences cfg get rest) (\<lambda>es. Inr (e # es)))"

definition readQueryEvidence :: "Config \<Rightarrow> (string \<Rightarrow> string result) \<Rightarrow> Snapshot \<Rightarrow> string \<Rightarrow> EventReference list \<Rightarrow> Event list result" where
  "readQueryEvidence cfg get data tenantID refs =
     rbind (evidenceCandidates data tenantID refs) (\<lambda>cs. resolveReferences cfg get (zip refs cs))"

subsection \<open>Query and hold selection (export_checkpoint_hold.go, console_evidence.go, export.go)\<close>

definition matchesExportHoldEvidence :: "Config \<Rightarrow> Event \<Rightarrow> EventSchema \<Rightarrow> Query \<Rightarrow> bool result" where
  "matchesExportHoldEvidence cfg source schema q =
     (if \<not> matches cfg source (q\<lparr>qy_PayloadField := '''', qy_PayloadDigest := ''''\<rparr>) [] then Inr False
      else if qy_PayloadField q = '''' then Inr True
      else (case payloadGet (ev_Payload source) (qy_PayloadField q) of
              None \<Rightarrow> Inr False
            | Some v \<Rightarrow>
                if \<not> containsString (es_SearchableFields schema) (qy_PayloadField q) then Inr False
                else rbind (queryDigest cfg (qy_PayloadDigest q) v (ev_TenantID source) (qy_PayloadField q))
                       (\<lambda>derived. Inr (derived = qy_PayloadDigest q))))"

definition activeHold :: "string \<Rightarrow> LegalHold \<Rightarrow> bool" where
  "activeHold tenantID hold \<longleftrightarrow> lh_TenantID hold = tenantID \<and> lh_ReleasedAt hold = None"

definition holdLess :: "LegalHold \<Rightarrow> LegalHold \<Rightarrow> bool" where
  "holdLess a b \<longleftrightarrow> lh_ID a < lh_ID b"

definition holdBlockingCandidates :: "Snapshot \<Rightarrow> string \<Rightarrow> Query \<Rightarrow> LegalHold list" where
  "holdBlockingCandidates data tenantID q =
     sort_slice holdLess (filter (\<lambda>h. activeHold tenantID h \<and> holdCanSelectAnySelected h q) (mvals (sn_LegalHolds data)))"

definition holdBlockingExport :: "Config \<Rightarrow> (string \<Rightarrow> string result) \<Rightarrow> Snapshot \<Rightarrow> string \<Rightarrow> Query \<Rightarrow> LegalHold option result" where
  "holdBlockingExport cfg get data tenantID q =
     (let holds = holdBlockingCandidates data tenantID q; schemas = sn_Schemas data in
      if holds = [] then Inr None
      else rbind (eventsFromSnapshot cfg get data tenantID (\<lambda>e. matches cfg e q schemas)) (\<lambda>events.
             Inr (find (\<lambda>h. \<exists>e \<in> set events. holdMatchesEvent cfg h e schemas) holds)))"

definition holdCovers :: "Config \<Rightarrow> Event \<Rightarrow> EventSchema \<Rightarrow> LegalHold \<Rightarrow> bool result" where
  "holdCovers cfg source schema hold =
     (let f = lh_Filter hold in
      if qy_From f = 0 \<and> qy_To f = 0 then Inr True
      else if qy_From f \<noteq> 0 \<and> qy_To f \<noteq> 0 then matchesExportHoldEvidence cfg source schema f
      else Inr False)"

fun firstCovering :: "Config \<Rightarrow> Event \<Rightarrow> EventSchema \<Rightarrow> nat \<Rightarrow> nat \<Rightarrow> LegalHold list \<Rightarrow> nat result" where
  "firstCovering cfg source schema blocker index [] = Inr blocker"
| "firstCovering cfg source schema blocker index (hold # holds) =
     rbind (holdCovers cfg source schema hold) (\<lambda>covers.
       if covers then Inr index else firstCovering cfg source schema blocker (Suc index) holds)"

definition holdSource :: "Config \<Rightarrow> (string \<Rightarrow> string result) \<Rightarrow> Snapshot \<Rightarrow> string \<Rightarrow> string \<Rightarrow> (Event \<times> EventSchema) result" where
  "holdSource cfg get data tenantID key =
     rbind (committedEvidence cfg get data key) (\<lambda>e.
     rbind (exactSchema ''current export Hold schema identity mismatch'' data tenantID e) (\<lambda>schema.
     rbind (reconstructEventForDigest cfg e (sn_Schemas data)) (\<lambda>source. Inr (source, schema))))"

fun holdScan :: "Config \<Rightarrow> (string \<Rightarrow> string result) \<Rightarrow> Snapshot \<Rightarrow> string \<Rightarrow> Query \<Rightarrow> LegalHold list \<Rightarrow> nat \<Rightarrow> string list \<Rightarrow> nat result" where
  "holdScan cfg get data tenantID q holds blocker [] = Inr blocker"
| "holdScan cfg get data tenantID q holds blocker (key # keys) =
     rbind (holdSource cfg get data tenantID key) (\<lambda>(source, schema).
     rbind (matchesExportHoldEvidence cfg source schema q) (\<lambda>selected.
       if \<not> selected then holdScan cfg get data tenantID q holds blocker keys
       else rbind (firstCovering cfg source schema blocker 0 (take blocker holds)) (\<lambda>blocker'.
              holdScan cfg get data tenantID q holds blocker' keys)))"

definition holdBlockingExportEvidence :: "Config \<Rightarrow> (string \<Rightarrow> string result) \<Rightarrow> Snapshot \<Rightarrow> ExportJob \<Rightarrow> LegalHold option result" where
  "holdBlockingExportEvidence cfg get data job =
     (let holds = holdBlockingCandidates data (ej_TenantID job) (ej_Query job) in
      if holds = [] then Inr None
      else rbind (tenantReceiptKeys ''current export Hold evidence identity mismatch'' data (ej_TenantID job)) (\<lambda>keys.
           rbind (holdScan cfg get data (ej_TenantID job) (ej_Query job) holds (length holds) keys) (\<lambda>blocker.
             Inr (if blocker < length holds then Some (holds ! blocker) else None))))"

definition MaxQuerySnapshotEvents :: nat where
  "MaxQuerySnapshotEvents = 10000"

definition errExportPlanInvalid :: error where
  "errExportPlanInvalid = Err ErrConflict ''invalid export execution plan''"

fun exportSelection :: "Config \<Rightarrow> (string \<Rightarrow> string result) \<Rightarrow> Snapshot \<Rightarrow> ExportJob \<Rightarrow> Event list \<Rightarrow> (string \<times> EventReceipt) list \<Rightarrow> Event list result" where
  "exportSelection cfg get data job events [] = Inr events"
| "exportSelection cfg get data job events ((key, r) # rest) =
     (if rc_TenantID r \<noteq> ej_TenantID job then exportSelection cfg get data job events rest
      else if key \<noteq> EventKey (ej_TenantID job) (rc_EventID r) then Inl errExportPlanInvalid
      else
        rbind (committedEvidence cfg get data key) (\<lambda>e.
          let schema = mget_or zeroSchema (sn_Schemas data) (SchemaKey (ej_TenantID job) (ev_SchemaID e) (ev_SchemaVersion e)) in
          if \<not> schemaBody (ej_TenantID job) e schema then Inl errExportPlanInvalid
          else
            rbind (reconstructEventForDigest cfg e (sn_Schemas data)) (\<lambda>source.
            rbind (matchesExportHoldEvidence cfg source schema (ej_Query job)) (\<lambda>selected.
              let events' = (if selected then events @ [e] else events) in
              if length events' > MaxQuerySnapshotEvents
              then Inl (Err ErrQuotaExceeded ''export evidence budget exceeded; narrow filters'')
              else exportSelection cfg get data job events' rest))))"

definition selectExportEvidenceSnapshot :: "Config \<Rightarrow> (string \<Rightarrow> string result) \<Rightarrow> Snapshot \<Rightarrow> ExportJob \<Rightarrow> (Event list \<times> LegalHold option) result" where
  "selectExportEvidenceSnapshot cfg get data job =
     rbind (holdBlockingExportEvidence cfg get data job) (\<lambda>blocked.
       case blocked of
         Some hold \<Rightarrow> Inr ([], Some hold)
       | None \<Rightarrow> rbind (exportSelection cfg get data job [] (sn_Receipts data)) (\<lambda>events. Inr (sortEvents events, None)))"

definition referenceReceiptKeys :: "Snapshot \<Rightarrow> string \<Rightarrow> string list result" where
  "referenceReceiptKeys data tenantID =
     (let owned = filter (\<lambda>kr. tenantID = '''' \<or> ownsReceipt tenantID (fst kr) (snd kr)) (sn_Receipts data) in
      if \<exists>kr \<in> set owned. (case SplitTenantKey (fst kr) of (keyTenant, rest, validKey) \<Rightarrow>
           \<not> validKey \<or> keyTenant \<noteq> rc_TenantID (snd kr) \<or> fst kr \<noteq> EventKey (rc_TenantID (snd kr)) (rc_EventID (snd kr)))
      then Inl (Err ErrConflict ''reference query receipt identity mismatch'')
      else Inr (sort_slice (<) (map fst owned)))"

fun queryScan :: "Config \<Rightarrow> (string \<Rightarrow> string result) \<Rightarrow> Snapshot \<Rightarrow> Query \<Rightarrow> nat \<Rightarrow> Event list \<Rightarrow> string list \<Rightarrow> Event list result" where
  "queryScan cfg get data q maxMatches events [] = Inr events"
| "queryScan cfg get data q maxMatches events (key # keys) =
     rbind (committedEvidence cfg get data key) (\<lambda>e.
     rbind (exactSchema ''reference query schema identity mismatch'' data (rc_TenantID (mget_or zeroReceipt (sn_Receipts data) key)) e) (\<lambda>schema.
     rbind (if qy_PayloadField q \<noteq> '''' then reconstructEventForDigest cfg e (sn_Schemas data) else Inr e) (\<lambda>source.
     rbind (matchesExportHoldEvidence cfg source schema q) (\<lambda>selected.
       if \<not> selected then queryScan cfg get data q maxMatches events keys
       else if maxMatches > 0 \<and> length events \<ge> maxMatches
       then Inl (Err ErrQuotaExceeded ''query result budget exceeded; narrow filters'')
       else queryScan cfg get data q maxMatches (events @ [e]) keys))))"

definition authenticatedQueryEvents :: "Config \<Rightarrow> (string \<Rightarrow> string result) \<Rightarrow> Snapshot \<Rightarrow> string \<Rightarrow> Query \<Rightarrow> nat \<Rightarrow> Event list result" where
  "authenticatedQueryEvents cfg get data tenantID q maxMatches =
     rbind (referenceReceiptKeys data tenantID) (\<lambda>keys. queryScan cfg get data q maxMatches [] keys)"

definition referenceQueryEvents :: "Config \<Rightarrow> (string \<Rightarrow> string result) \<Rightarrow> Snapshot \<Rightarrow> string \<Rightarrow> Query \<Rightarrow> Event list result" where
  "referenceQueryEvents cfg get data tenantID q = authenticatedQueryEvents cfg get data tenantID q MaxQuerySnapshotEvents"

definition consoleEvents :: "Config \<Rightarrow> (string \<Rightarrow> string result) \<Rightarrow> Snapshot \<Rightarrow> string \<Rightarrow> Query \<Rightarrow> Event list result" where
  "consoleEvents cfg get data tenantID q = authenticatedQueryEvents cfg get data tenantID q 0"

subsection \<open>The chronological order\<close>

definition chronKey :: "Event \<Rightarrow> time \<times> int \<times> string" where
  "chronKey e = (ev_OccurredAt e, ev_Sequence e, ev_EventID e)"

lemma compareEvents_key: "compareEvents = (\<lambda>a b. chronKey a < chronKey b)"
  by (auto simp: fun_eq_iff compareEvents_def chronKey_def less_prod_def)

lemma compareEvents_order: "strict_order compareEvents"
  unfolding compareEvents_key by (rule strict_order_key)

subsection \<open>The export gate against a legal hold\<close>

text \<open>
  A hold the pre-filter drops covers no event the query selects, so the first hold in ID order that
  covers a selected event is the same with and without it.
\<close>

lemma matches_window: "matches cfg e q schemas \<Longrightarrow> qy_From q \<le> ev_OccurredAt e \<and> ev_OccurredAt e < qy_To q"
  by (simp add: matches_def not_less)

lemma evidence_window:
  "matchesExportHoldEvidence cfg source schema q = Inr True \<Longrightarrow> qy_From q \<le> ev_OccurredAt source \<and> ev_OccurredAt source < qy_To q"
  by (auto simp: matchesExportHoldEvidence_def split: if_splits dest: matches_window)

lemma dropped_hold_covers_nothing:
  assumes drop: "\<not> holdCanSelectAnySelected hold q"
    and sel: "matchesExportHoldEvidence cfg source schema q = Inr True"
  shows "holdCovers cfg source schema hold \<noteq> Inr True"
proof
  assume cov: "holdCovers cfg source schema hold = Inr True"
  let ?f = "lh_Filter hold"
  have q: "qy_From q \<le> ev_OccurredAt source" "ev_OccurredAt source < qy_To q" using evidence_window [OF sel] by auto
  have bound: "qy_From ?f \<noteq> 0 \<and> qy_To ?f \<noteq> 0" using cov drop
    by (auto simp: holdCovers_def holdCanSelectAnySelected_def Let_def split: if_splits)
  then have "matchesExportHoldEvidence cfg source schema ?f = Inr True" using cov by (simp add: holdCovers_def Let_def)
  then have "qy_From ?f \<le> ev_OccurredAt source" "ev_OccurredAt source < qy_To ?f" using evidence_window by auto
  with q bound drop show False by (auto simp: holdCanSelectAnySelected_def Let_def split: if_splits)
qed

lemma filter_insert_less:
  assumes "strict_order lt" and "sorted_wrt (\<lambda>a b. \<not> lt b a) ys"
  shows "filter P (insert_less lt x ys) = (if P x then insert_less lt x (filter P ys) else filter P ys)"
  using assms(2)
proof (induction ys)
  case (Cons y ys)
  have later: "\<not> lt z x" if "\<not> lt y x" "z \<in> set ys" for z
  proof -
    have "\<not> lt z y" using that(2) Cons.prems by simp
    then show ?thesis using that(1) assms(1) unfolding strict_order_def by blast
  qed
  have head: "insert_less lt x zs = x # zs" if "set zs \<subseteq> set ys" "\<not> lt y x" for zs
    using that later by (cases zs) auto
  have "insert_less lt x (filter P ys) = x # filter P ys" if "\<not> lt y x"
    using head [of "filter P ys"] that by auto
  with Cons show ?case by auto
qed simp

lemma filter_sort_slice: "strict_order lt \<Longrightarrow> filter P (sort_slice lt xs) = sort_slice lt (filter P xs)"
  by (induction xs) (auto simp: filter_insert_less sorted_sort_slice)

lemma find_filter: "(\<And>x. P x \<Longrightarrow> Q x) \<Longrightarrow> find P (filter Q xs) = find P xs"
  by (induction xs) auto

definition activeHolds :: "Snapshot \<Rightarrow> string \<Rightarrow> LegalHold list" where
  "activeHolds data tenantID = sort_slice holdLess (filter (activeHold tenantID) (mvals (sn_LegalHolds data)))"

lemma holdLess_order: "strict_order holdLess"
  using strict_order_key [of lh_ID] by (simp add: holdLess_def [abs_def])

lemma candidates_filter:
  "holdBlockingCandidates data tenantID q = filter (\<lambda>h. holdCanSelectAnySelected h q) (activeHolds data tenantID)"
  by (simp add: holdBlockingCandidates_def activeHolds_def filter_sort_slice holdLess_order conj_commute)

definition coveredBy :: "Config \<Rightarrow> Query \<Rightarrow> (Event \<times> EventSchema) list \<Rightarrow> LegalHold \<Rightarrow> bool" where
  "coveredBy cfg q sources hold \<longleftrightarrow>
     (\<exists>(source, schema) \<in> set sources. matchesExportHoldEvidence cfg source schema q = Inr True \<and> holdCovers cfg source schema hold = Inr True)"

lemma coveredBy_candidate: "coveredBy cfg q sources hold \<Longrightarrow> holdCanSelectAnySelected hold q"
  unfolding coveredBy_def using dropped_hold_covers_nothing by blast

lemma firstCovering_spec:
  assumes "firstCovering cfg source schema blocker index holds = Inr b"
  shows "(b = blocker \<and> (\<forall>i < length holds. holdCovers cfg source schema (holds ! i) = Inr False))
    \<or> (\<exists>k < length holds. b = index + k \<and> holdCovers cfg source schema (holds ! k) = Inr True
        \<and> (\<forall>i < k. holdCovers cfg source schema (holds ! i) = Inr False))"
  using assms
proof (induction holds arbitrary: index)
  case (Cons h hs)
  from Cons.prems obtain c where c: "holdCovers cfg source schema h = Inr c" by (auto simp: rbind_def split: sum.splits)
  show ?case
  proof (cases c)
    case True
    then show ?thesis using Cons.prems c by (auto simp: rbind_def)
  next
    case False
    then have rest: "firstCovering cfg source schema blocker (Suc index) hs = Inr b" using Cons.prems c by (simp add: rbind_def)
    have c': "holdCovers cfg source schema h = Inr False" using c False by simp
    show ?thesis using Cons.IH [OF rest]
    proof (elim disjE exE conjE)
      fix k assume k: "k < length hs" "b = Suc index + k" "holdCovers cfg source schema (hs ! k) = Inr True"
        "\<forall>i < k. holdCovers cfg source schema (hs ! i) = Inr False"
      have "\<forall>i < Suc k. holdCovers cfg source schema ((h # hs) ! i) = Inr False"
        using k(4) c' by (simp add: All_less_Suc2)
      then show ?thesis using k by (intro disjI2 exI [of _ "Suc k"]) simp
    next
      assume "b = blocker" "\<forall>i < length hs. holdCovers cfg source schema (hs ! i) = Inr False"
      then show ?thesis using c' by (simp add: All_less_Suc2)
    qed
  qed
qed simp

lemma coveredBy_Cons:
  "coveredBy cfg q ((source, schema) # sources) hold \<longleftrightarrow>
     (matchesExportHoldEvidence cfg source schema q = Inr True \<and> holdCovers cfg source schema hold = Inr True)
     \<or> coveredBy cfg q sources hold"
  by (auto simp: coveredBy_def)

lemma holdScan_spec:
  assumes "holdScan cfg get data tenantID q holds b keys = Inr b'"
    and "map (holdSource cfg get data tenantID) keys = map Inr sources" and "b \<le> length holds"
  shows "b' \<le> b \<and> (\<forall>i < b'. \<not> coveredBy cfg q sources (holds ! i)) \<and> (b' < b \<longrightarrow> coveredBy cfg q sources (holds ! b'))"
  using assms
proof (induction keys arbitrary: b sources)
  case Nil
  then show ?case by (simp add: coveredBy_def)
next
  case (Cons key keys)
  from Cons.prems(2) obtain source schema rest where src: "sources = (source, schema) # rest"
      "holdSource cfg get data tenantID key = Inr (source, schema)"
      "map (holdSource cfg get data tenantID) keys = map Inr rest"
    by (cases sources) auto
  from Cons.prems(1) src(2) obtain sel where sel: "matchesExportHoldEvidence cfg source schema q = Inr sel"
    by (auto simp: rbind_def split: sum.splits)
  show ?case
  proof (cases sel)
    case False
    with Cons.prems(1) src(2) sel have "holdScan cfg get data tenantID q holds b keys = Inr b'" by (simp add: rbind_def)
    from Cons.IH [OF this src(3) Cons.prems(3)] show ?thesis using sel False by (simp add: src(1) coveredBy_Cons)
  next
    case True
    with Cons.prems(1) src(2) sel obtain c where c: "firstCovering cfg source schema b 0 (take b holds) = Inr c"
        "holdScan cfg get data tenantID q holds c keys = Inr b'"
      by (auto simp: rbind_def split: sum.splits)
    have len: "length (take b holds) = b" using Cons.prems(3) by simp
    have first: "c \<le> b \<and> (\<forall>i < c. holdCovers cfg source schema (holds ! i) = Inr False)
        \<and> (c < b \<longrightarrow> holdCovers cfg source schema (holds ! c) = Inr True)"
      using firstCovering_spec [OF c(1)] len by auto
    then have "c \<le> length holds" using Cons.prems(3) by simp
    from Cons.IH [OF c(2) src(3) this] first show ?thesis
      using sel True by (auto simp: src(1) coveredBy_Cons le_less)
  qed
qed

lemma find_index: "k < length xs \<Longrightarrow> P (xs ! k) \<Longrightarrow> (\<And>i. i < k \<Longrightarrow> \<not> P (xs ! i)) \<Longrightarrow> find P xs = Some (xs ! k)"
  by (auto simp: find_Some_iff)

lemma find_none: "(\<And>i. i < length xs \<Longrightarrow> \<not> P (xs ! i)) \<Longrightarrow> find P xs = None"
  by (auto simp: find_None_iff in_set_conv_nth)

lemma gate_first_hold:
  assumes keys: "tenantReceiptKeys mismatch data (ej_TenantID job) = Inr keys"
    and evidence: "map (holdSource cfg get data (ej_TenantID job)) keys = map Inr sources"
    and gate: "holdBlockingExportEvidence cfg get data job = Inr blocked"
  shows "blocked = find (coveredBy cfg (ej_Query job) sources) (activeHolds data (ej_TenantID job))"
proof -
  let ?holds = "holdBlockingCandidates data (ej_TenantID job) (ej_Query job)"
  let ?cov = "coveredBy cfg (ej_Query job) sources"
  have same: "find ?cov ?holds = find ?cov (activeHolds data (ej_TenantID job))"
    unfolding candidates_filter by (rule find_filter) (rule coveredBy_candidate)
  show ?thesis
  proof (cases "?holds = []")
    case True
    then show ?thesis using gate same by (simp add: holdBlockingExportEvidence_def Let_def)
  next
    case False
    have keys': "tenantReceiptKeys m data (ej_TenantID job) = Inr keys" for m
      using keys by (simp add: tenantReceiptKeys_def Let_def split: if_splits)
    from gate False keys' obtain b where b: "holdScan cfg get data (ej_TenantID job) (ej_Query job) ?holds (length ?holds) keys = Inr b"
        "blocked = (if b < length ?holds then Some (?holds ! b) else None)"
      by (auto simp: holdBlockingExportEvidence_def Let_def rbind_def split: sum.splits)
    have spec: "b \<le> length ?holds" "\<forall>i < b. \<not> ?cov (?holds ! i)" "b < length ?holds \<longrightarrow> ?cov (?holds ! b)"
      using holdScan_spec [OF b(1) evidence] by auto
    show ?thesis
    proof (cases "b < length ?holds")
      case True
      then have "find ?cov ?holds = Some (?holds ! b)" using spec by (intro find_index) auto
      then show ?thesis using b(2) True same by simp
    next
      case False
      then have "find ?cov ?holds = None" using spec by (intro find_none) auto
      then show ?thesis using b(2) False same by simp
    qed
  qed
qed

text \<open>The gate answers whenever the compared payload values can be marshalled.\<close>

definition marshals :: "Config \<Rightarrow> Query \<Rightarrow> Event \<Rightarrow> bool" where
  "marshals cfg q source \<longleftrightarrow>
     qy_PayloadField q = '''' \<or> (\<forall>v. payloadGet (ev_Payload source) (qy_PayloadField q) = Some v \<longrightarrow> \<not> isl (js_Marshal (cf_Codec cfg) v))"

lemma matchesExportHoldEvidence_total: "marshals cfg q source \<Longrightarrow> \<not> isl (matchesExportHoldEvidence cfg source schema q)"
  by (auto simp: matchesExportHoldEvidence_def marshals_def queryDigest_def SearchDigest_def SearchDigestBound_def rbind_def isl_def
      split: option.splits sum.splits)

lemma holdCovers_total: "marshals cfg (lh_Filter hold) source \<Longrightarrow> \<not> isl (holdCovers cfg source schema hold)"
  by (simp add: holdCovers_def Let_def matchesExportHoldEvidence_total)

lemma firstCovering_total:
  "\<forall>h \<in> set holds. marshals cfg (lh_Filter h) source \<Longrightarrow> \<not> isl (firstCovering cfg source schema blocker index holds)"
proof (induction holds arbitrary: index)
  case (Cons h hs)
  then show ?case using holdCovers_total [of cfg h source schema]
    by (cases "holdCovers cfg source schema h") auto
qed simp

lemma holdScan_total:
  assumes "map (holdSource cfg get data tenantID) keys = map Inr sources"
    and "\<forall>(source, schema) \<in> set sources. marshals cfg q source \<and> (\<forall>h \<in> set holds. marshals cfg (lh_Filter h) source)"
  shows "\<not> isl (holdScan cfg get data tenantID q holds b keys)"
  using assms
proof (induction keys arbitrary: b sources)
  case (Cons key keys)
  from Cons.prems obtain source schema rest where src: "sources = (source, schema) # rest"
      "holdSource cfg get data tenantID key = Inr (source, schema)"
      "map (holdSource cfg get data tenantID) keys = map Inr rest" "marshals cfg q source" "\<forall>h \<in> set holds. marshals cfg (lh_Filter h) source"
      "\<forall>(source, schema) \<in> set rest. marshals cfg q source \<and> (\<forall>h \<in> set holds. marshals cfg (lh_Filter h) source)"
    by (cases sources) auto
  have ih: "\<not> isl (holdScan cfg get data tenantID q holds b' keys)" for b' by (rule Cons.IH [OF src(3,6)])
  obtain sel where sel: "matchesExportHoldEvidence cfg source schema q = Inr sel"
    using matchesExportHoldEvidence_total [OF src(4), of schema] by (cases "matchesExportHoldEvidence cfg source schema q") auto
  have "\<not> isl (firstCovering cfg source schema b 0 (take b holds))"
    by (rule firstCovering_total) (use src(5) set_take_subset in fast)
  then obtain c where c: "firstCovering cfg source schema b 0 (take b holds) = Inr c"
    by (cases "firstCovering cfg source schema b 0 (take b holds)") auto
  show ?case using ih src(2) sel c by (cases sel) simp_all
qed simp

end
