(* ===== verification/Paging.thy ===== *)
theory Paging
  imports Prelude
begin

section \<open>Keyset pages\<close>

text \<open>
  The contract behind every live list of the service: the listing is sorted by a strict order, a cursor
  is the position of the last element of a page, and the next page starts at the first element after
  that position. The provider promises that \<open>after x (pos y)\<close> says that \<open>x\<close> comes later than \<open>y\<close>;
  then the pages split the listing, whatever the page size.
\<close>

locale keyset =
  fixes less :: "'a \<Rightarrow> 'a \<Rightarrow> bool" and after :: "'a \<Rightarrow> 'c \<Rightarrow> bool" and pos :: "'a \<Rightarrow> 'c"
  assumes less_order: "strict_order less"
    and after_pos: "after x (pos y) \<longleftrightarrow> less y x"
begin

lemma skip_to_rest:
  assumes "sorted_wrt less (xs @ y # ys)"
  shows "dropWhile (\<lambda>x. \<not> after x (pos y)) (xs @ y # ys) = ys"
proof -
  have irr: "\<not> less y y" and asym: "less x y \<Longrightarrow> \<not> less y x" for x
    using less_order unfolding strict_order_def by blast+
  have "\<forall>x \<in> set (xs @ [y]). \<not> after x (pos y)"
    using assms irr asym by (auto simp: after_pos sorted_wrt_append)
  moreover have "dropWhile (\<lambda>x. \<not> after x (pos y)) ys = ys"
    using assms by (cases ys) (auto simp: after_pos sorted_wrt_append)
  ultimately show ?thesis by (simp add: dropWhile_append2)
qed

lemma filter_is_rest:
  assumes "sorted_wrt less (xs @ y # ys)"
  shows "filter (\<lambda>x. after x (pos y)) (xs @ y # ys) = ys"
proof -
  have irr: "\<not> less y y" and asym: "less x y \<Longrightarrow> \<not> less y x" for x
    using less_order unfolding strict_order_def by blast+
  have "filter (\<lambda>x. after x (pos y)) xs = []" "filter (\<lambda>x. after x (pos y)) ys = ys"
    using assms asym by (auto simp: after_pos sorted_wrt_append filter_empty_conv filter_id_conv)
  then show ?thesis using irr by (simp add: after_pos)
qed

lemma sort_strict:
  assumes "\<And>x y. x \<in> set xs \<Longrightarrow> y \<in> set xs \<Longrightarrow> \<not> less x y \<Longrightarrow> \<not> less y x \<Longrightarrow> x = y" and "distinct xs"
  shows "sorted_wrt less (sort_slice less xs)"
proof -
  let ?s = "sort_slice less xs"
  have "sorted_wrt (\<lambda>a b. \<not> less b a) ?s" by (rule sorted_sort_slice [OF less_order])
  moreover have "less (?s ! i) (?s ! j)" if "i < j" "j < length ?s" "\<not> less (?s ! j) (?s ! i)" for i j
  proof -
    have "?s ! i \<noteq> ?s ! j" using that(1,2) assms(2) by (simp add: nth_eq_iff_index_eq)
    moreover have "?s ! i \<in> set xs" "?s ! j \<in> set xs" using that(1,2) nth_mem [of _ ?s] by (metis set_sort_slice less_trans)+
    ultimately show ?thesis using assms(1) that(3) by blast
  qed
  ultimately show ?thesis by (simp add: sorted_wrt_iff_nth_less)
qed

end

subsection \<open>Following the cursors\<close>

text \<open>
  A client that asks for pages until one has no next cursor. \<open>page\<close> answers the items and the next
  cursor, the empty text when there is none. The fuel bounds the requests.
\<close>

fun followPages :: "(string \<Rightarrow> ('a list \<times> string) result) \<Rightarrow> nat \<Rightarrow> string \<Rightarrow> 'a list list option" where
  "followPages page 0 cursor = None"
| "followPages page (Suc fuel) cursor =
     (case page cursor of
        Inl err \<Rightarrow> None
      | Inr (items, next) \<Rightarrow>
          if next = '''' then Some [items]
          else (case followPages page fuel next of None \<Rightarrow> None | Some pages \<Rightarrow> Some (items # pages)))"

text \<open>
  Pages that serve the rest of the listing after the cursor, at least one and at most \<open>n\<close> elements at
  a time, are followed to the end within as many requests as the listing is long, plus one.
\<close>

lemma followPages_all:
  assumes serve: "\<And>served rest cursor. xs = served @ rest \<Longrightarrow> reaches served cursor \<Longrightarrow>
      (if length rest \<le> n then page cursor = Inr (rest, '''')
       else \<exists>next. page cursor = Inr (take n rest, next) \<and> next \<noteq> '''' \<and> reaches (served @ take n rest) next)"
    and "0 < n" "xs = served @ rest" "reaches served cursor" "length rest < fuel"
  shows "\<exists>pages. followPages page fuel cursor = Some pages \<and> concat pages = rest \<and> (\<forall>p \<in> set pages. length p \<le> n)"
  using assms(3-5)
proof (induction fuel arbitrary: served rest cursor)
  case (Suc fuel)
  show ?case
  proof (cases "length rest \<le> n")
    case True
    then show ?thesis using serve [OF Suc.prems(1,2)] by simp
  next
    case False
    from serve [OF Suc.prems(1,2)] False obtain nx where nx: "page cursor = Inr (take n rest, nx)" "nx \<noteq> ''''"
      "reaches (served @ take n rest) nx" by auto
    have "xs = (served @ take n rest) @ drop n rest" using Suc.prems(1) by simp
    moreover have "length (drop n rest) < fuel" using Suc.prems(3) False assms(2) by simp
    ultimately obtain pages where
      "followPages page fuel nx = Some pages" "concat pages = drop n rest" "\<forall>p \<in> set pages. length p \<le> n"
      using Suc.IH [OF _ nx(3)] by blast
    then show ?thesis using nx by (intro exI [of _ "take n rest # pages"]) auto
  qed
qed simp

end
