(* ===== verification/Timeline.thy ===== *)
theory Timeline
  imports Selection Paging
begin

section \<open>Timelines and replay: service/timeline.go, domain/canonical.go (cursors)\<close>

text \<open>
  The events of an operation in chronological order and of an aggregate in version order, whole or by
  pages, and the states replayed from them. A page's cursor is the versioned position of its last event
  in base64; the reader of its JSON text is an argument (\<open>unmarshal\<close>), as everywhere in the model.
\<close>

record QuerySnapshotInfo =
  qi_ObservedAt :: time
  qi_ExpiresAt :: time
  qi_Source :: string
  qi_Completeness :: string

record QueryResult =
  qr_Items :: "Event list"
  qr_NextCursor :: string
  qr_Count :: int
  qr_Snapshot :: "QuerySnapshotInfo option"

subsection \<open>Positions (domain/canonical.go)\<close>

record TimelineCursor =
  tc_Version :: int
  tc_Kind :: string
  tc_Scope :: string
  tc_OccurredAt :: time
  tc_AggregateVersion :: int
  tc_Sequence :: int
  tc_EventID :: string

definition TimelineCursor_value :: "TimelineCursor \<Rightarrow> gval" where
  "TimelineCursor_value c = VStruct
      [(StructField ''Version'' True ''v'', VInt (tc_Version c)),
       (StructField ''Kind'' True ''kind'', VString (tc_Kind c)),
       (StructField ''Scope'' True ''scope'', VString (tc_Scope c)),
       (StructField ''OccurredAt'' True ''occurred_at,omitempty'', VTime (tc_OccurredAt c)),
       (StructField ''AggregateVersion'' True ''aggregate_version,omitempty'', VInt (tc_AggregateVersion c)),
       (StructField ''Sequence'' True ''sequence,omitempty'', VInt (tc_Sequence c)),
       (StructField ''EventID'' True ''event_id'', VString (tc_EventID c))]"

definition timelineCursorVersion :: int where
  "timelineCursorVersion = 1"

definition cursorText :: "TimelineCursor \<Rightarrow> string" where
  "cursorText c = text_of (CanonicalJSON (TimelineCursor_value (c\<lparr>tc_Version := timelineCursorVersion\<rparr>)))"

definition EncodeTimelineCursor :: "TimelineCursor \<Rightarrow> string" where
  "EncodeTimelineCursor c = b64encode (string_bytes (cursorText c))"

definition DecodeTimelineCursor :: "(string \<Rightarrow> TimelineCursor result) \<Rightarrow> string \<Rightarrow> TimelineCursor result" where
  "DecodeTimelineCursor unmarshal v =
     (case b64decode v of
        None \<Rightarrow> Inl (Err ErrInvalid ''invalid timeline cursor'')
      | Some data \<Rightarrow>
          (case unmarshal (bytes_string data) of
             Inl err \<Rightarrow> Inl (Err ErrInvalid ''invalid timeline cursor'')
           | Inr c \<Rightarrow>
               if tc_Version c \<noteq> timelineCursorVersion \<or> (tc_Kind c \<noteq> ''operation'' \<and> tc_Kind c \<noteq> ''aggregate'')
                  \<or> tc_Scope c = '''' \<or> tc_EventID c = ''''
               then Inl (Err ErrInvalid ''invalid timeline cursor'')
               else if tc_Kind c = ''operation'' \<and> tc_OccurredAt c = 0
               then Inl (Err ErrInvalid ''invalid operation timeline cursor'')
               else if tc_Kind c = ''aggregate'' \<and> tc_AggregateVersion c < 0
               then Inl (Err ErrInvalid ''invalid aggregate timeline cursor'')
               else Inr c))"

subsection \<open>Pages (timeline.go)\<close>

definition timelinePageSize :: "int \<Rightarrow> int result" where
  "timelinePageSize pageSize =
     (if pageSize \<le> 0 then Inr DefaultPageSize
      else if pageSize > MaxPageSize then Inl (Err ErrInvalid ''page_size exceeds'')
      else Inr pageSize)"

definition afterTimelineCursor :: "Event \<Rightarrow> TimelineCursor \<Rightarrow> bool" where
  "afterTimelineCursor e c =
     (if tc_Kind c = ''aggregate'' then
        if ev_AggregateVersion e \<noteq> tc_AggregateVersion c then ev_AggregateVersion e > tc_AggregateVersion c
        else ev_EventID e > tc_EventID c
      else if ev_OccurredAt e \<noteq> tc_OccurredAt c then ev_OccurredAt e > tc_OccurredAt c
      else if ev_Sequence e \<noteq> tc_Sequence c then ev_Sequence e > tc_Sequence c
      else ev_EventID e > tc_EventID c)"

definition timelineCursorFor :: "string \<Rightarrow> string \<Rightarrow> Event \<Rightarrow> TimelineCursor" where
  "timelineCursorFor kind scope e =
     \<lparr>tc_Version = 0, tc_Kind = kind, tc_Scope = scope, tc_OccurredAt = ev_OccurredAt e,
      tc_AggregateVersion = ev_AggregateVersion e, tc_Sequence = ev_Sequence e, tc_EventID = ev_EventID e\<rparr>"

definition timelinePage :: "string \<Rightarrow> string \<Rightarrow> nat \<Rightarrow> int \<Rightarrow> Event list \<Rightarrow> QueryResult" where
  "timelinePage kind scope n whole remaining =
     (if length remaining \<le> n
      then \<lparr>qr_Items = remaining, qr_NextCursor = '''', qr_Count = whole, qr_Snapshot = None\<rparr>
      else \<lparr>qr_Items = take n remaining,
            qr_NextCursor = EncodeTimelineCursor (timelineCursorFor kind scope (last (take n remaining))),
            qr_Count = whole, qr_Snapshot = None\<rparr>)"

definition paginateTimeline :: "(string \<Rightarrow> TimelineCursor result) \<Rightarrow> Event list \<Rightarrow> string \<Rightarrow> string \<Rightarrow> string \<Rightarrow> int \<Rightarrow> QueryResult result" where
  "paginateTimeline unmarshal events kind scope cursor pageSize =
     rbind (timelinePageSize pageSize) (\<lambda>n.
       if cursor = '''' then Inr (timelinePage kind scope (nat n) (int (length events)) events)
       else rbind (DecodeTimelineCursor unmarshal cursor) (\<lambda>decoded.
              if tc_Kind decoded \<noteq> kind \<or> tc_Scope decoded \<noteq> scope
              then Inl (Err ErrInvalid ''cursor belongs to a different timeline'')
              else Inr (timelinePage kind scope (nat n) (int (length events))
                     (dropWhile (\<lambda>e. \<not> afterTimelineCursor e decoded) events))))"

definition aggregateLess :: "Event \<Rightarrow> Event \<Rightarrow> bool" where
  "aggregateLess a b \<longleftrightarrow>
     (if ev_AggregateVersion a = ev_AggregateVersion b then ev_EventID a < ev_EventID b
      else ev_AggregateVersion a < ev_AggregateVersion b)"

text \<open>
  The handlers. A read returns its answer together with the trail of read facts; a refused read leaves
  the trail alone.
\<close>

definition operationEvents :: "string \<Rightarrow> Event \<Rightarrow> bool" where
  "operationEvents operationID e \<longleftrightarrow> ev_OperationID e = operationID"

definition aggregateEvents :: "string \<Rightarrow> string \<Rightarrow> Event \<Rightarrow> bool" where
  "aggregateEvents aggregateType aggregateID e \<longleftrightarrow> ev_AggregateType e = aggregateType \<and> ev_AggregateID e = aggregateID"

definition audited :: "'a result \<Rightarrow> (AdminAction list \<Rightarrow> AdminAction list) \<Rightarrow> AdminAction list \<Rightarrow> 'a result \<times> AdminAction list" where
  "audited r add trail = (case r of Inl err \<Rightarrow> (Inl err, trail) | Inr x \<Rightarrow> (Inr x, add trail))"

definition OperationTimelinePage :: "Config \<Rightarrow> (string \<Rightarrow> string result) \<Rightarrow> (string \<Rightarrow> TimelineCursor result) \<Rightarrow> string \<Rightarrow> time
     \<Rightarrow> string \<Rightarrow> string \<Rightarrow> string \<Rightarrow> int \<Rightarrow> string \<Rightarrow> Snapshot \<Rightarrow> AdminAction list \<Rightarrow> QueryResult result \<times> AdminAction list" where
  "OperationTimelinePage cfg get unmarshal newID now tenantID actor operationID pageSize cursor data =
     audited (guardE (requireTenantScope tenantID)
       (rbind (readTimelineEvidence cfg get data tenantID (operationEvents operationID)) (\<lambda>events.
          paginateTimeline unmarshal (sortEvents events) ''operation'' operationID cursor pageSize)))
       (recordReadAction cfg newID now tenantID actor ''audit.event.read'' ''operation'' operationID ''timeline'')"

definition AggregateTimelinePage :: "Config \<Rightarrow> (string \<Rightarrow> string result) \<Rightarrow> (string \<Rightarrow> TimelineCursor result) \<Rightarrow> string \<Rightarrow> time
     \<Rightarrow> string \<Rightarrow> string \<Rightarrow> string \<Rightarrow> string \<Rightarrow> int \<Rightarrow> string \<Rightarrow> Snapshot \<Rightarrow> AdminAction list \<Rightarrow> QueryResult result \<times> AdminAction list" where
  "AggregateTimelinePage cfg get unmarshal newID now tenantID actor aggregateType aggregateID pageSize cursor data =
     audited (guardE (requireTenantScope tenantID)
       (rbind (readTimelineEvidence cfg get data tenantID (aggregateEvents aggregateType aggregateID)) (\<lambda>events.
          paginateTimeline unmarshal (sort_slice aggregateLess events) ''aggregate''
            (aggregateType @ [CHR 0x1F] @ aggregateID) cursor pageSize)))
       (recordReadAction cfg newID now tenantID actor ''audit.event.read'' ''aggregate'' aggregateID aggregateType)"

definition capTimeline :: "string \<Rightarrow> Event list \<Rightarrow> Event list result" where
  "capTimeline what events =
     (if int (length events) > MaxTimelineEvents then Inl (Err ErrInvalid (what @ '' timeline exceeds the limit; use query or export''))
      else Inr events)"

definition operationTimelineEventsNoAudit :: "Config \<Rightarrow> (string \<Rightarrow> string result) \<Rightarrow> Snapshot \<Rightarrow> string \<Rightarrow> string \<Rightarrow> Event list result" where
  "operationTimelineEventsNoAudit cfg get data tenantID operationID =
     rbind (readTimelineEvidence cfg get data tenantID (operationEvents operationID)) (\<lambda>events. Inr (sortEvents events))"

definition operationTimelineNoAudit :: "Config \<Rightarrow> (string \<Rightarrow> string result) \<Rightarrow> Snapshot \<Rightarrow> string \<Rightarrow> string \<Rightarrow> Event list result" where
  "operationTimelineNoAudit cfg get data tenantID operationID =
     rbind (operationTimelineEventsNoAudit cfg get data tenantID operationID) (capTimeline ''operation'')"

definition aggregateTimelineEventsNoAudit :: "Config \<Rightarrow> (string \<Rightarrow> string result) \<Rightarrow> Snapshot \<Rightarrow> string \<Rightarrow> string \<Rightarrow> string \<Rightarrow> Event list result" where
  "aggregateTimelineEventsNoAudit cfg get data tenantID aggregateType aggregateID =
     rbind (readTimelineEvidence cfg get data tenantID (aggregateEvents aggregateType aggregateID))
       (\<lambda>events. Inr (sort_slice aggregateLess events))"

definition aggregateTimelineNoAudit :: "Config \<Rightarrow> (string \<Rightarrow> string result) \<Rightarrow> Snapshot \<Rightarrow> string \<Rightarrow> string \<Rightarrow> string \<Rightarrow> Event list result" where
  "aggregateTimelineNoAudit cfg get data tenantID aggregateType aggregateID =
     rbind (aggregateTimelineEventsNoAudit cfg get data tenantID aggregateType aggregateID) (capTimeline ''aggregate'')"

definition OperationTimeline :: "Config \<Rightarrow> (string \<Rightarrow> string result) \<Rightarrow> string \<Rightarrow> time \<Rightarrow> string \<Rightarrow> string \<Rightarrow> string \<Rightarrow> Snapshot
     \<Rightarrow> AdminAction list \<Rightarrow> Event list result \<times> AdminAction list" where
  "OperationTimeline cfg get newID now tenantID actor operationID data =
     audited (guardE (requireTenantScope tenantID) (operationTimelineNoAudit cfg get data tenantID operationID))
       (recordReadAction cfg newID now tenantID actor ''audit.event.read'' ''operation'' operationID ''timeline'')"

definition AggregateTimeline :: "Config \<Rightarrow> (string \<Rightarrow> string result) \<Rightarrow> string \<Rightarrow> time \<Rightarrow> string \<Rightarrow> string \<Rightarrow> string \<Rightarrow> string \<Rightarrow> Snapshot
     \<Rightarrow> AdminAction list \<Rightarrow> Event list result \<times> AdminAction list" where
  "AggregateTimeline cfg get newID now tenantID actor aggregateType aggregateID data =
     audited (guardE (requireTenantScope tenantID) (aggregateTimelineNoAudit cfg get data tenantID aggregateType aggregateID))
       (recordReadAction cfg newID now tenantID actor ''audit.event.read'' ''aggregate'' aggregateID aggregateType)"

subsection \<open>Single events, summaries and replay (service.go)\<close>

definition GetReceipt :: "Config \<Rightarrow> string \<Rightarrow> time \<Rightarrow> string \<Rightarrow> string \<Rightarrow> string \<Rightarrow> Snapshot
     \<Rightarrow> AdminAction list \<Rightarrow> EventReceipt result \<times> AdminAction list" where
  "GetReceipt cfg newID now tenantID actor eventID data =
     audited (guardE (requireTenantScope tenantID)
       (case mget (sn_Receipts data) (EventKey tenantID eventID) of
          None \<Rightarrow> Inl (Err ErrNotFound '''')
        | Some r \<Rightarrow> if rc_TenantID r \<noteq> tenantID \<or> rc_EventID r \<noteq> eventID
                    then Inl (Err ErrConflict ''receipt identity mismatch'') else Inr r))
       (recordReadAction cfg newID now tenantID actor ''audit.event.read'' ''event'' eventID ''receipt'')"

definition GetEvent :: "Config \<Rightarrow> (string \<Rightarrow> string result) \<Rightarrow> string \<Rightarrow> time \<Rightarrow> string \<Rightarrow> string \<Rightarrow> string \<Rightarrow> Snapshot
     \<Rightarrow> AdminAction list \<Rightarrow> Event result \<times> AdminAction list" where
  "GetEvent cfg get newID now tenantID actor eventID data =
     audited (guardE (requireTenantScope tenantID)
       (rbind (readQueryEvidence cfg get data tenantID
                 [\<lparr>er_OccurredAt = 0, er_EventID = eventID, er_StreamID = '''', er_Sequence = 0, er_Hash = ''''\<rparr>])
          (\<lambda>items. Inr (hd items))))
       (recordReadAction cfg newID now tenantID actor ''audit.event.read'' ''event'' eventID '''')"

definition summarize :: "string \<Rightarrow> string \<Rightarrow> Event list \<Rightarrow> OperationSummary" where
  "summarize tenantID operationID events =
     \<lparr>os_OperationID = operationID, os_TenantID = tenantID, os_EventCount = int (length events),
      os_FirstAt = fold (\<lambda>e first. if ev_OccurredAt e < first then ev_OccurredAt e else first) events (ev_OccurredAt (hd events)),
      os_LastAt = fold (\<lambda>e latest. if ev_OccurredAt e > latest then ev_OccurredAt e else latest) events (ev_OccurredAt (hd events)),
      os_Outcomes = sort_slice (<) (remdups (map ev_Outcome events))\<rparr>"

definition Operation :: "Config \<Rightarrow> (string \<Rightarrow> string result) \<Rightarrow> string \<Rightarrow> time \<Rightarrow> string \<Rightarrow> string \<Rightarrow> string \<Rightarrow> Snapshot
     \<Rightarrow> AdminAction list \<Rightarrow> OperationSummary result \<times> AdminAction list" where
  "Operation cfg get newID now tenantID actor operationID data =
     audited (guardE (firstErr [requireTenantScope tenantID,
          if operationID = '''' then Some (Err ErrInvalid ''operation_id is required'') else None])
       (rbind (readTimelineEvidence cfg get data tenantID (operationEvents operationID))
          (\<lambda>events. Inr (summarize tenantID operationID events))))
       (recordReadAction cfg newID now tenantID actor ''audit.event.read'' ''operation'' operationID ''summary'')"

definition ReplayOperation :: "Config \<Rightarrow> (string \<Rightarrow> string result) \<Rightarrow> string \<Rightarrow> time \<Rightarrow> string \<Rightarrow> string \<Rightarrow> string \<Rightarrow> Snapshot
     \<Rightarrow> AdminAction list \<Rightarrow> ReplayResult result \<times> AdminAction list" where
  "ReplayOperation cfg get newID now tenantID actor operationID data =
     audited (guardE (requireTenantScope tenantID)
       (rbind (readTimelineEvidence cfg get data tenantID (operationEvents operationID)) (\<lambda>events.
        rbind (capTimeline ''operation'' events) (\<lambda>events. Inr (replay (sortEvents events) tenantID operationID '''')))))
       (recordReadAction cfg newID now tenantID actor ''audit.event.read'' ''operation'' operationID ''replay'')"

definition ReplayAggregate :: "Config \<Rightarrow> (string \<Rightarrow> string result) \<Rightarrow> string \<Rightarrow> time \<Rightarrow> string \<Rightarrow> string \<Rightarrow> string \<Rightarrow> string \<Rightarrow> Snapshot
     \<Rightarrow> AdminAction list \<Rightarrow> ReplayResult result \<times> AdminAction list" where
  "ReplayAggregate cfg get newID now tenantID actor aggregateType aggregateID data =
     audited (guardE (requireTenantScope tenantID)
       (rbind (aggregateTimelineNoAudit cfg get data tenantID aggregateType aggregateID) (\<lambda>events.
          Inr (replay events tenantID '''' aggregateID))))
       (recordReadAction cfg newID now tenantID actor ''audit.event.read'' ''aggregate'' aggregateID ''replay'')"

subsection \<open>The orders of the timelines are what their cursors compare\<close>

definition timelineLess :: "string \<Rightarrow> Event \<Rightarrow> Event \<Rightarrow> bool" where
  "timelineLess kind = (if kind = ''aggregate'' then aggregateLess else compareEvents)"

definition versionKey :: "Event \<Rightarrow> int \<times> string" where
  "versionKey e = (ev_AggregateVersion e, ev_EventID e)"

lemma aggregateLess_key: "aggregateLess = (\<lambda>a b. versionKey a < versionKey b)"
  by (auto simp: fun_eq_iff aggregateLess_def versionKey_def less_prod_def)

lemma timelineLess_order: "strict_order (timelineLess kind)"
  unfolding timelineLess_def aggregateLess_key compareEvents_key by (simp add: strict_order_key)

lemma after_cursorFor: "afterTimelineCursor x (timelineCursorFor kind scope y) \<longleftrightarrow> timelineLess kind y x"
proof -
  let ?c = "timelineCursorFor kind scope y"
  have c: "tc_Kind ?c = kind" "tc_OccurredAt ?c = ev_OccurredAt y" "tc_AggregateVersion ?c = ev_AggregateVersion y"
    "tc_Sequence ?c = ev_Sequence y" "tc_EventID ?c = ev_EventID y" by (simp_all add: timelineCursorFor_def)
  show ?thesis unfolding afterTimelineCursor_def c timelineLess_def aggregateLess_def compareEvents_def by auto
qed

interpretation timeline: keyset "timelineLess kind" afterTimelineCursor "timelineCursorFor kind scope" for kind scope
  by unfold_locales (rule timelineLess_order, rule after_cursorFor)

lemma timelineLess_same:
  assumes "\<not> timelineLess kind a b" "\<not> timelineLess kind b a"
  shows "ev_EventID a = ev_EventID b"
  using assms by (auto simp: timelineLess_def aggregateLess_def compareEvents_def split: if_splits)

lemma timeline_sorted:
  assumes "distinct (map ev_EventID events)"
  shows "sorted_wrt (timelineLess kind) (sort_slice (timelineLess kind) events)"
proof (rule timeline.sort_strict)
  show "distinct events" using assms by (rule distinct_map [THEN iffD1, THEN conjunct1])
  fix a b assume "a \<in> set events" "b \<in> set events" "\<not> timelineLess kind a b" "\<not> timelineLess kind b a"
  then show "a = b" using assms timelineLess_same by (metis distinct_map inj_onD)
qed

subsection \<open>Cursors are read back\<close>

text \<open>
  The JSON reader returns the cursor whose text it is given (documented behaviour of
  \<open>json.Unmarshal\<close> on the text of the same struct).
\<close>

definition readsCursor :: "(string \<Rightarrow> TimelineCursor result) \<Rightarrow> TimelineCursor \<Rightarrow> bool" where
  "readsCursor unmarshal c \<longleftrightarrow> unmarshal (cursorText c) = Inr (c\<lparr>tc_Version := timelineCursorVersion\<rparr>)"

definition cursorIssued :: "TimelineCursor \<Rightarrow> bool" where
  "cursorIssued c \<longleftrightarrow> tc_Scope c \<noteq> '''' \<and> tc_EventID c \<noteq> ''''
     \<and> (tc_Kind c = ''operation'' \<and> tc_OccurredAt c \<noteq> 0 \<or> tc_Kind c = ''aggregate'' \<and> tc_AggregateVersion c \<ge> 0)"

lemma decode_encode_timeline:
  assumes "readsCursor unmarshal c" "cursorIssued c"
  shows "DecodeTimelineCursor unmarshal (EncodeTimelineCursor c) = Inr (c\<lparr>tc_Version := timelineCursorVersion\<rparr>)"
  using assms by (auto simp: DecodeTimelineCursor_def EncodeTimelineCursor_def b64decode_encode [OF string_bytes_less]
      bytes_string_bytes readsCursor_def cursorIssued_def)

lemma b64encode_nonempty: "bs \<noteq> [] \<Longrightarrow> b64encode bs \<noteq> []"
  by (cases bs rule: b64groups.cases) (simp_all add: b64encode_def)

lemma joinCommas_total: "\<forall>r \<in> set rs. \<not> isl r \<Longrightarrow> \<not> isl (joinCommas rs)"
  by (induction rs rule: joinCommas.induct) (auto simp: rbind_def split: sum.splits)

lemma writeObject_nonempty:
  assumes "\<forall>kr \<in> set kvs. \<not> isl (snd kr)"
  shows "text_of (writeObject kvs) \<noteq> []"
proof -
  have "\<forall>r \<in> set (map writeMember (sort_slice less_key kvs)). \<not> isl r"
    using assms by (auto simp: writeMember_def rbind_def split: sum.splits)
  from joinCommas_total [OF this] show ?thesis by (auto simp: writeObject_def text_of_def rbind_def split: sum.splits)
qed

lemma cursorText_nonempty: "cursorText c \<noteq> []"
  unfolding cursorText_def CanonicalJSON_def TimelineCursor_value_def writeCanonical.simps
  by (rule writeObject_nonempty) (auto dest!: fieldEntry_snd)

subsection \<open>What the evidence readers return\<close>

lemma resolveQueryEvidence_receipt:
  assumes "resolveQueryEvidence cfg get c = Inr e"
  shows "validatePublicationEvent cfg e (qe_receipt c) (qe_schemas c) = None"
  using assms by (auto simp: resolveQueryEvidence_def rbind_eq_Inr guardE_def split: option.splits if_splits)

lemma committedEvidence_receipt:
  assumes "committedEvidence cfg get data key = Inr e"
  shows "ev_EventID e = rc_EventID (mget_or zeroReceipt (sn_Receipts data) key) \<and> ev_EventID e \<noteq> ''''
    \<and> ev_TenantID e = rc_TenantID (mget_or zeroReceipt (sn_Receipts data) key)"
proof -
  have "validatePublicationEvent cfg e (mget_or zeroReceipt (sn_Receipts data) key) (sn_Schemas data) = None"
    using assms by (auto simp: committedEvidence_def Let_def split: option.splits if_splits dest!: resolveQueryEvidence_receipt)
  then show ?thesis by (simp add: validatePublicationEvent_def split: if_splits)
qed

lemma timelineScan_events:
  assumes "timelineScan cfg get data tenantID predicate keys = Inr events"
    and "\<forall>key \<in> set keys. key = EventKey tenantID (rc_EventID (mget_or zeroReceipt (sn_Receipts data) key))" and "distinct keys"
  shows "set (map (\<lambda>e. EventKey tenantID (ev_EventID e)) events) \<subseteq> set keys
    \<and> distinct (map (\<lambda>e. EventKey tenantID (ev_EventID e)) events)
    \<and> (\<forall>e \<in> set events. ev_EventID e \<noteq> '''' \<and> predicate e)"
  using assms
proof (induction keys arbitrary: events)
  case (Cons key keys)
  from Cons.prems(1) obtain e rest where e: "committedEvidence cfg get data key = Inr e"
      "timelineScan cfg get data tenantID predicate keys = Inr rest" "events = (if predicate e then e # rest else rest)"
    by (auto simp: rbind_eq_Inr)
  have ih: "set (map (\<lambda>e. EventKey tenantID (ev_EventID e)) rest) \<subseteq> set keys
    \<and> distinct (map (\<lambda>e. EventKey tenantID (ev_EventID e)) rest) \<and> (\<forall>e \<in> set rest. ev_EventID e \<noteq> '''' \<and> predicate e)"
    using Cons.IH [OF e(2)] Cons.prems by simp
  have "EventKey tenantID (ev_EventID e) = key" using committedEvidence_receipt [OF e(1)] Cons.prems(2) by simp
  then show ?case using ih e(3) committedEvidence_receipt [OF e(1)] Cons.prems(3) by auto
qed simp

lemma mget_wf: "wf_map m \<Longrightarrow> (k, v) \<in> set m \<Longrightarrow> mget m k = Some v"
  by (simp add: mget_def wf_map_def)

lemma tenantReceiptKeys_keys:
  assumes "tenantReceiptKeys mismatch data tenantID = Inr keys" and wf: "wf_map (sn_Receipts data)"
  shows "distinct keys \<and> (\<forall>key \<in> set keys. key = EventKey tenantID (rc_EventID (mget_or zeroReceipt (sn_Receipts data) key)))"
proof -
  let ?owned = "filter (\<lambda>kr. ownsReceipt tenantID (fst kr) (snd kr)) (sn_Receipts data)"
  have k: "keys = sort_slice (<) (map fst ?owned)"
    "\<forall>kr \<in> set ?owned. fst kr = EventKey tenantID (rc_EventID (snd kr))"
    using assms(1) by (auto simp: tenantReceiptKeys_def Let_def split: if_splits)
  have "distinct keys" using wf by (simp add: k(1) wf_map_def distinct_map_filter)
  moreover have "key = EventKey tenantID (rc_EventID (mget_or zeroReceipt (sn_Receipts data) key))" if "key \<in> set keys" for key
  proof -
    from that k(1) obtain r where r: "(key, r) \<in> set ?owned" by auto
    then have "mget (sn_Receipts data) key = Some r" using mget_wf [OF wf] by simp
    then show ?thesis using k(2) r by (auto simp: mget_or_def)
  qed
  ultimately show ?thesis by blast
qed

lemma readTimelineEvidence_events:
  assumes "readTimelineEvidence cfg get data tenantID predicate = Inr events" and "wf_map (sn_Receipts data)"
  shows "distinct (map ev_EventID events)" "\<forall>e \<in> set events. ev_EventID e \<noteq> '''' \<and> predicate e"
proof -
  from assms(1) obtain keys where keys: "tenantReceiptKeys ''timeline receipt identity mismatch'' data tenantID = Inr keys"
      "timelineScan cfg get data tenantID predicate keys = Inr events"
    by (auto simp: readTimelineEvidence_def rbind_eq_Inr split: if_splits)
  note scan = timelineScan_events [OF keys(2)] tenantReceiptKeys_keys [OF keys(1) assms(2)]
  have "map (\<lambda>e. EventKey tenantID (ev_EventID e)) events = map (EventKey tenantID) (map ev_EventID events)" by simp
  then show "distinct (map ev_EventID events)" using scan by (metis distinct_map)
  show "\<forall>e \<in> set events. ev_EventID e \<noteq> '''' \<and> predicate e" using scan by blast
qed

subsection \<open>Following a timeline to its end\<close>

definition servedPage :: "QueryResult result \<times> AdminAction list \<Rightarrow> (Event list \<times> string) result" where
  "servedPage r = (case fst r of Inl err \<Rightarrow> Inl err | Inr q \<Rightarrow> Inr (qr_Items q, qr_NextCursor q))"

definition timelineReaches :: "string \<Rightarrow> string \<Rightarrow> Event list \<Rightarrow> string \<Rightarrow> bool" where
  "timelineReaches kind scope served cursor \<longleftrightarrow>
     (if served = [] then cursor = '''' else cursor = EncodeTimelineCursor (timelineCursorFor kind scope (last served)))"

lemma timelinePageSize_bounds: "timelinePageSize pageSize = Inr n \<Longrightarrow> 0 < n \<and> n \<le> MaxPageSize"
  by (auto simp: timelinePageSize_def DefaultPageSize_def MaxPageSize_def split: if_splits)

lemma paginate_serves:
  assumes srt: "sorted_wrt (timelineLess kind) (served @ rest)" and n: "timelinePageSize pageSize = Inr n"
    and read: "\<forall>e \<in> set served. readsCursor unmarshal (timelineCursorFor kind scope e) \<and> cursorIssued (timelineCursorFor kind scope e)"
    and reach: "timelineReaches kind scope served cursor"
  shows "\<exists>q. paginateTimeline unmarshal (served @ rest) kind scope cursor pageSize = Inr q
    \<and> q = timelinePage kind scope (nat n) (int (length (served @ rest))) rest"
proof (cases "served = []")
  case True
  then show ?thesis using reach n by (simp add: paginateTimeline_def timelineReaches_def)
next
  case False
  then obtain ds d where d: "served = ds @ [d]" by (cases served rule: rev_cases) auto
  let ?c = "timelineCursorFor kind scope d"
  have cur: "cursor = EncodeTimelineCursor ?c" "cursor \<noteq> ''''"
    using reach False d cursorText_nonempty b64encode_nonempty
    by (auto simp: timelineReaches_def EncodeTimelineCursor_def string_bytes_def)
  have dec: "DecodeTimelineCursor unmarshal cursor = Inr (?c\<lparr>tc_Version := timelineCursorVersion\<rparr>)"
    unfolding cur(1) by (rule decode_encode_timeline) (use read d in auto)
  have after: "afterTimelineCursor e (?c\<lparr>tc_Version := v\<rparr>) = afterTimelineCursor e ?c" for e v
    by (simp add: afterTimelineCursor_def)
  have "dropWhile (\<lambda>e. \<not> afterTimelineCursor e ?c) (served @ rest) = rest"
    using timeline.skip_to_rest [of kind ds d rest scope] srt d by simp
  moreover have "tc_Kind ?c = kind" "tc_Scope ?c = scope" by (simp_all add: timelineCursorFor_def)
  ultimately show ?thesis using n dec cur(2) by (simp add: paginateTimeline_def after)
qed

lemma timeline_walk:
  assumes srt: "sorted_wrt (timelineLess kind) xs" and n: "timelinePageSize pageSize = Inr n"
    and read: "\<forall>e \<in> set xs. readsCursor unmarshal (timelineCursorFor kind scope e) \<and> cursorIssued (timelineCursorFor kind scope e)"
    and page: "\<And>cursor q. paginateTimeline unmarshal xs kind scope cursor pageSize = Inr q \<Longrightarrow> page cursor = Inr (qr_Items q, qr_NextCursor q)"
  shows "\<exists>pages. followPages page (Suc (length xs)) '''' = Some pages \<and> concat pages = xs \<and> (\<forall>p \<in> set pages. int (length p) \<le> MaxPageSize)"
proof -
  have pos: "0 < nat n" "n \<le> MaxPageSize" using timelinePageSize_bounds [OF n] by auto
  have serve: "if length rest \<le> nat n then page cursor = Inr (rest, '''')
       else \<exists>next. page cursor = Inr (take (nat n) rest, next) \<and> next \<noteq> '''' \<and> timelineReaches kind scope (served @ take (nat n) rest) next"
    if xs: "xs = served @ rest" and reach: "timelineReaches kind scope served cursor" for served rest cursor
  proof -
    from paginate_serves [OF _ n _ reach, of rest unmarshal] srt read xs
    have q: "paginateTimeline unmarshal xs kind scope cursor pageSize = Inr (timelinePage kind scope (nat n) (int (length xs)) rest)" by auto
    have "EncodeTimelineCursor c \<noteq> ''''" for c
      using cursorText_nonempty b64encode_nonempty by (auto simp: EncodeTimelineCursor_def string_bytes_def)
    then show ?thesis using page [OF q] pos(1) by (auto simp: timelinePage_def timelineReaches_def last_append)
  qed
  obtain pages where "followPages page (Suc (length xs)) '''' = Some pages" "concat pages = xs" "\<forall>p \<in> set pages. length p \<le> nat n"
    using followPages_all [where xs = xs and n = "nat n" and reaches = "timelineReaches kind scope" and served = "[]" and rest = xs
        and page = page and cursor = "''''" and fuel = "Suc (length xs)"] serve pos(1)
    by (auto simp: timelineReaches_def)
  then show ?thesis using pos by (intro exI [of _ pages]) (auto simp: le_nat_iff)
qed

text \<open>Following the pages of an operation's timeline, and of an aggregate's, to the end.\<close>

lemma operation_walk:
  assumes tenant: "requireTenantScope tenantID = None" and op: "operationID \<noteq> ''''"
    and wf: "wf_map (sn_Receipts data)"
    and events: "readTimelineEvidence cfg get data tenantID (operationEvents operationID) = Inr events"
    and size: "timelinePageSize pageSize = Inr n"
    and stamped: "\<forall>e \<in> set events. ev_OccurredAt e \<noteq> 0"
    and reader: "\<forall>e \<in> set events. readsCursor unmarshal (timelineCursorFor ''operation'' operationID e)"
  shows "\<exists>pages. followPages (\<lambda>cursor. servedPage
            (OperationTimelinePage cfg get unmarshal newID now tenantID actor operationID pageSize cursor data trail))
          (Suc (length events)) '''' = Some pages
      \<and> concat pages = sortEvents events \<and> distinct (concat pages) \<and> (\<forall>p \<in> set pages. int (length p) \<le> MaxPageSize)"
proof -
  note ev = readTimelineEvidence_events [OF events wf]
  have srt: "sorted_wrt (timelineLess ''operation'') (sortEvents events)"
    using timeline_sorted [OF ev(1), of "''operation''"] by (simp add: sortEvents_def timelineLess_def)
  have read: "\<forall>e \<in> set (sortEvents events). readsCursor unmarshal (timelineCursorFor ''operation'' operationID e)
      \<and> cursorIssued (timelineCursorFor ''operation'' operationID e)"
    using ev(2) stamped reader op by (simp add: sortEvents_def cursorIssued_def timelineCursorFor_def)
  have "\<exists>pages. followPages (\<lambda>cursor. servedPage
            (OperationTimelinePage cfg get unmarshal newID now tenantID actor operationID pageSize cursor data trail))
          (Suc (length (sortEvents events))) '''' = Some pages \<and> concat pages = sortEvents events \<and> (\<forall>p \<in> set pages. int (length p) \<le> MaxPageSize)"
    by (rule timeline_walk [OF srt size read])
      (simp add: servedPage_def OperationTimelinePage_def audited_def guardE_def tenant events rbind_def)
  moreover have "distinct (sortEvents events)" using ev(1) by (simp add: sortEvents_def distinct_map)
  ultimately show ?thesis by (auto simp: sortEvents_def)
qed

lemma aggregate_walk:
  assumes tenant: "requireTenantScope tenantID = None"
    and wf: "wf_map (sn_Receipts data)"
    and events: "readTimelineEvidence cfg get data tenantID (aggregateEvents aggregateType aggregateID) = Inr events"
    and size: "timelinePageSize pageSize = Inr n"
    and versions: "\<forall>e \<in> set events. ev_AggregateVersion e \<ge> 0"
    and reader: "\<forall>e \<in> set events. readsCursor unmarshal (timelineCursorFor ''aggregate'' (aggregateType @ [CHR 0x1F] @ aggregateID) e)"
  shows "\<exists>pages. followPages (\<lambda>cursor. servedPage
            (AggregateTimelinePage cfg get unmarshal newID now tenantID actor aggregateType aggregateID pageSize cursor data trail))
          (Suc (length events)) '''' = Some pages
      \<and> concat pages = sort_slice aggregateLess events \<and> distinct (concat pages) \<and> (\<forall>p \<in> set pages. int (length p) \<le> MaxPageSize)"
proof -
  let ?sorted = "sort_slice aggregateLess events" and ?scope = "aggregateType @ [CHR 0x1F] @ aggregateID"
  note ev = readTimelineEvidence_events [OF events wf]
  have srt: "sorted_wrt (timelineLess ''aggregate'') ?sorted"
    using timeline_sorted [OF ev(1), of "''aggregate''"] by (simp add: timelineLess_def)
  have read: "\<forall>e \<in> set ?sorted. readsCursor unmarshal (timelineCursorFor ''aggregate'' ?scope e)
      \<and> cursorIssued (timelineCursorFor ''aggregate'' ?scope e)"
    using ev(2) versions reader by (simp add: cursorIssued_def timelineCursorFor_def)
  have "\<exists>pages. followPages (\<lambda>cursor. servedPage
            (AggregateTimelinePage cfg get unmarshal newID now tenantID actor aggregateType aggregateID pageSize cursor data trail))
          (Suc (length ?sorted)) '''' = Some pages \<and> concat pages = ?sorted \<and> (\<forall>p \<in> set pages. int (length p) \<le> MaxPageSize)"
    by (rule timeline_walk [OF srt size read])
      (simp add: servedPage_def AggregateTimelinePage_def audited_def guardE_def tenant events rbind_def)
  moreover have "distinct ?sorted" using ev(1) by (simp add: distinct_map)
  ultimately show ?thesis by auto
qed

end
