(* ===== verification/Control.thy ===== *)
theory Control
  imports Selection
begin

section \<open>The control plane: service/service.go, sources.go, hold.go, restore.go, domain/limits.go\<close>

text \<open>
  Tenants, schemas, sources, retention policies, legal holds and restore requests. Each mutation is the
  closure the store applies to the current snapshot, after the checks the handler makes before it; it
  appends its own audit fact. The identifiers drawn for new records and facts and the clock are arguments.
\<close>

subsection \<open>Construction (service.go, secrets.go, admin_trail.go)\<close>

definition devSigningSecret :: string where
  "devSigningSecret = ''development-signing-key-change-me''"

definition devEncryptionKey :: string where
  "devEncryptionKey = ''development-encryption-key-change-me''"

definition isKnownDefaultSecret :: "string \<Rightarrow> bool" where
  "isKnownDefaultSecret secret \<longleftrightarrow> secret \<in> set [devSigningSecret, devEncryptionKey]"

definition MinConfiguredSecretBytes :: nat where
  "MinConfiguredSecretBytes = 32"

record Secrets =
  sc_SigningSecret :: string
  sc_EncryptionKey :: string
  sc_AllowDevSecrets :: bool

definition validateSecretLength :: "string \<Rightarrow> error option" where
  "validateSecretLength v =
     (if length v < MinConfiguredSecretBytes then Some (Err ErrWeakSecret '''') else None)"

definition resolveSecrets :: "Secrets \<Rightarrow> Secrets result" where
  "resolveSecrets c =
     (if sc_SigningSecret c = '''' \<and> \<not> sc_AllowDevSecrets c then Inl (Err ErrMissingSecret '''')
      else
        let c1 = (if sc_SigningSecret c = '''' then c\<lparr>sc_SigningSecret := devSigningSecret\<rparr> else c) in
        if sc_EncryptionKey c1 = '''' \<and> \<not> sc_AllowDevSecrets c1 then Inl (Err ErrMissingSecret '''')
        else
          let c2 = (if sc_EncryptionKey c1 = '''' then c1\<lparr>sc_EncryptionKey := sc_SigningSecret c1\<rparr> else c1) in
          if sc_AllowDevSecrets c2 then Inr c2
          else if isKnownDefaultSecret (sc_SigningSecret c2) then Inl (Err ErrDefaultSecret '''')
          else if isKnownDefaultSecret (sc_EncryptionKey c2) then Inl (Err ErrDefaultSecret '''')
          else if sc_SigningSecret c2 = sc_EncryptionKey c2 then Inl (Err ErrSharedSecret '''')
          else guardE (validateSecretLength (sc_SigningSecret c2))
                 (guardE (validateSecretLength (sc_EncryptionKey c2)) (Inr c2)))"

definition DefaultStuckExportAge :: int where
  "DefaultStuckExportAge = 24 * 3600 * 1000000000"

definition configDefaults :: "Config \<Rightarrow> Config" where
  "configDefaults cfg =
     cfg\<lparr>cf_ServerVersion := (if cf_ServerVersion cfg = '''' then ''audit-governance/dev'' else cf_ServerVersion cfg),
         cf_SegmentSize := (if cf_SegmentSize cfg \<le> 0 then 100 else cf_SegmentSize cfg),
         cf_MaxEventBytes := (if cf_MaxEventBytes cfg \<le> 0 then MaxEventBytes else cf_MaxEventBytes cfg),
         cf_AggregateCheckpointRetention :=
           (if cf_AggregateCheckpointRetention cfg \<le> 0 then DefaultAggregateCheckpointRetention else cf_AggregateCheckpointRetention cfg),
         cf_StuckExportAge := (if cf_StuckExportAge cfg \<le> 0 then DefaultStuckExportAge else cf_StuckExportAge cfg)\<rparr>"

definition New :: "Config \<Rightarrow> Secrets \<Rightarrow> (Config \<times> Secrets) result" where
  "New cfg secrets =
     rbind (resolveAdminTrailConfig (configDefaults cfg)) (\<lambda>resolved.
     rbind (resolveSecrets secrets) (\<lambda>sec. Inr (resolved\<lparr>cf_EncryptionKey := sc_EncryptionKey sec\<rparr>, sec)))"

subsection \<open>Resource caps (domain/limits.go)\<close>

definition MaxEnvelopeFieldBytes :: nat where "MaxEnvelopeFieldBytes = 8 * 1024"
definition MaxActorRoles :: nat where "MaxActorRoles = 64"
definition MaxTargetsPerEvent :: nat where "MaxTargetsPerEvent = 64"
definition MaxChangedFields :: nat where "MaxChangedFields = 256"
definition MaxSourceClientIDs :: nat where "MaxSourceClientIDs = 256"
definition MaxSchemaFields :: nat where "MaxSchemaFields = 256"

definition CheckString :: "string \<Rightarrow> error option" where
  "CheckString v = (if length v > MaxEnvelopeFieldBytes then Some (Err ErrEnvelopeTooLarge ''envelope size cap exceeded'') else None)"

definition CheckCount :: "nat \<Rightarrow> nat \<Rightarrow> error option" where
  "CheckCount n most = (if n > most then Some (Err ErrEnvelopeTooLarge ''envelope size cap exceeded'') else None)"

definition checkFieldListCaps :: "string list \<Rightarrow> error option" where
  "checkFieldListCaps entries = firstErr (map CheckString (sort_slice (<) entries))"

definition ValidateSourceCaps :: "SourceSystem \<Rightarrow> error option" where
  "ValidateSourceCaps source =
     firstErr [CheckCount (length (ss_AllowedClientIDs source)) MaxSourceClientIDs, checkFieldListCaps (ss_AllowedClientIDs source)]"

definition ValidateSchemaCaps :: "EventSchema \<Rightarrow> error option" where
  "ValidateSchemaCaps schema =
     firstErr (concat (map (\<lambda>xs. [CheckCount (length xs) MaxSchemaFields, checkFieldListCaps xs])
       [es_RequiredFields schema, es_AllowedFields schema, es_EncryptedFields schema, es_SearchableFields schema]))"

definition checkChange :: "any \<Rightarrow> error option" where
  "checkChange v =
     (case v of
        None \<Rightarrow> None
      | Some g \<Rightarrow> (case CanonicalJSON g of Inl err \<Rightarrow> Some (Err ErrInvalid ''changed_fields value is invalid'') | Inr s \<Rightarrow> CheckString s))"

definition ValidateEventCaps :: "Event \<Rightarrow> error option" where
  "ValidateEventCaps e =
     firstErr (map CheckString
         [ev_EventID e, ev_SourceSystem e, ev_EventType e, ev_SchemaID e, ev_OperationID e, ev_CausationID e,
          ev_CorrelationID e, ev_TraceID e, ev_SpanID e, ev_AggregateType e, ev_AggregateID e, ev_Action e,
          ev_Outcome e, ev_Reason e, ev_PayloadRef e, ev_DataClassification e, ev_RetentionClass e,
          ev_IdempotencyKey e, ev_WorkflowInstanceID e, ev_ExecutionRunID e,
          ac_ID (ev_Actor e), ac_Type (ev_Actor e), ac_Name (ev_Actor e), ac_Department (ev_Actor e)]
       @ map CheckString (ac_Roles (ev_Actor e))
       @ [CheckCount (length (ac_Roles (ev_Actor e))) MaxActorRoles, CheckCount (length (ev_Targets e)) MaxTargetsPerEvent]
       @ concat (map (\<lambda>t. [CheckString (tg_Type t), CheckString (tg_ID t), CheckString (tg_Name t)]) (ev_Targets e))
       @ [CheckCount (length (ev_ChangedFields e)) MaxChangedFields]
       @ concat (map (\<lambda>(field, c). [CheckString field, checkChange (fc_Before c), checkChange (fc_After c)])
           (sort_slice less_key (ev_ChangedFields e))))"

subsection \<open>Tenants and schemas (service.go)\<close>

definition CreateTenant :: "Config \<Rightarrow> string \<Rightarrow> time \<Rightarrow> string \<Rightarrow> Tenant \<Rightarrow> Snapshot \<Rightarrow> Snapshot result" where
  "CreateTenant cfg factID now actor tenant data =
     (if TrimSpace (tn_ID tenant) = '''' \<or> TrimSpace (tn_Name tenant) = ''''
      then Inl (Err ErrInvalid ''tenant id and name are required'')
      else guardE (ValidTenantID (tn_ID tenant))
        (let t = tenant\<lparr>tn_CreatedAt := (if tn_CreatedAt tenant = 0 then now else tn_CreatedAt tenant), tn_Active := True\<rparr> in
         if mget (sn_Tenants data) (tn_ID t) \<noteq> None then Inl (Err ErrConflict ''tenant already exists'')
         else Inr (appendAdminAction cfg (adminAction factID now (tn_ID t) actor ''tenant.created'' ''tenant'' (tn_ID t) '''')
                (data\<lparr>sn_Tenants := mput (sn_Tenants data) (tn_ID t) t\<rparr>))))"

definition ListTenants :: "Snapshot \<Rightarrow> Tenant list" where
  "ListTenants data = sort_slice (\<lambda>a b. tn_ID a < tn_ID b) (mvals (sn_Tenants data))"

definition schemaVersions :: "Snapshot \<Rightarrow> EventSchema \<Rightarrow> EventSchema list" where
  "schemaVersions data schema =
     filter (\<lambda>s. es_TenantID s = es_TenantID schema \<and> es_SchemaID s = es_SchemaID schema) (mvals (sn_Schemas data))"

definition maxVersion :: "EventSchema list \<Rightarrow> int" where
  "maxVersion schemas = fold (\<lambda>s m. if es_Version s > m then es_Version s else m) schemas 0"

definition previousVersion :: "int \<Rightarrow> EventSchema list \<Rightarrow> EventSchema option" where
  "previousVersion version schemas =
     fold (\<lambda>s prev. if es_Version s < version \<and> (case prev of None \<Rightarrow> True | Some p \<Rightarrow> es_Version s > es_Version p) then Some s else prev)
       schemas None"

definition evolutionError :: "EventSchema \<Rightarrow> EventSchema \<Rightarrow> error option" where
  "evolutionError previous schema =
     (if \<exists>field \<in> set (es_RequiredFields previous). \<not> containsString (es_RequiredFields schema) field
      then Some (Err ErrInvalid ''schema version removes required field'')
      else if es_AllowedFields previous \<noteq> [] \<and> es_AllowedFields schema \<noteq> []
          \<and> (\<exists>field \<in> set (es_AllowedFields previous). field \<notin> set (es_AllowedFields schema))
      then Some (Err ErrInvalid ''schema version removes allowed field'')
      else None)"

definition RegisterSchema :: "Config \<Rightarrow> string \<Rightarrow> time \<Rightarrow> string \<Rightarrow> EventSchema \<Rightarrow> Snapshot \<Rightarrow> Snapshot result" where
  "RegisterSchema cfg factID now actor schema0 data =
     guardE (firstErr [requireTenantScope (es_TenantID schema0),
        if es_TenantID schema0 = '''' then Some (Err ErrInvalid ''schema tenant_id is required'') else None,
        if es_SchemaID schema0 = '''' \<or> es_Version schema0 \<le> 0 \<or> es_EventType schema0 = ''''
          then Some (Err ErrInvalid ''schema_id, version and event_type are required'') else None,
        ValidKeyComponent (es_SchemaID schema0), ValidateSchemaCaps schema0])
     (let schema = schema0\<lparr>es_CreatedAt := (if es_CreatedAt schema0 = 0 then now else es_CreatedAt schema0), es_Active := True\<rparr>;
          versions = schemaVersions data schema;
          key = SchemaKey (es_TenantID schema) (es_SchemaID schema) (es_Version schema)
      in if mget (sn_Tenants data) (es_TenantID schema) = None then Inl (Err ErrNotFound ''tenant does not exist'')
         else if es_Version schema < maxVersion versions then Inl (Err ErrInvalid ''version rollback is not allowed'')
         else if mget (sn_Schemas data) key \<noteq> None then Inl (Err ErrConflict ''schema already exists'')
         else guardE (case previousVersion (es_Version schema) versions of None \<Rightarrow> None | Some p \<Rightarrow> evolutionError p schema)
           (Inr (appendAdminAction cfg (adminAction factID now (es_TenantID schema) actor ''schema.created'' ''event_schema''
                  (es_SchemaID schema) (''version '' @ itoa (es_Version schema)))
              (data\<lparr>sn_Schemas := mput (sn_Schemas data) key schema\<rparr>))))"

definition schemaLess :: "EventSchema \<Rightarrow> EventSchema \<Rightarrow> bool" where
  "schemaLess a b \<longleftrightarrow> (if es_SchemaID a = es_SchemaID b then es_Version a < es_Version b else es_SchemaID a < es_SchemaID b)"

definition ListSchemas :: "string \<Rightarrow> Snapshot \<Rightarrow> EventSchema list result" where
  "ListSchemas tenantID data =
     guardE (requireTenantScope tenantID)
       (Inr (sort_slice schemaLess (filter (\<lambda>s. es_TenantID s = tenantID) (mvals (sn_Schemas data)))))"

subsection \<open>Retention (service.go)\<close>

definition SetRetentionPolicy :: "Config \<Rightarrow> string \<Rightarrow> time \<Rightarrow> string \<Rightarrow> RetentionPolicy \<Rightarrow> Snapshot \<Rightarrow> Snapshot result" where
  "SetRetentionPolicy cfg factID now actor policy data =
     guardE (firstErr [requireTenantScope (rp_TenantID policy),
        if rp_TenantID policy = '''' \<or> TrimSpace (rp_RetentionClass policy) = '''' \<or> rp_ArchiveDays policy < 0
           \<or> rp_HotDays policy < 0 \<or> rp_WarmDays policy < 0
          then Some (Err ErrInvalid ''invalid retention policy'') else None])
     (if mget (sn_Tenants data) (rp_TenantID policy) = None then Inl (Err ErrNotFound ''tenant does not exist'')
      else Inr (appendAdminAction cfg (adminAction factID now (rp_TenantID policy) actor ''retention_policy.set'' ''retention_policy''
               (rp_RetentionClass policy)
               (''hot='' @ itoa (rp_HotDays policy) @ '' warm='' @ itoa (rp_WarmDays policy) @ '' archive='' @ itoa (rp_ArchiveDays policy)))
             (data\<lparr>sn_Policies := mput (sn_Policies data) (rp_TenantID policy) policy\<rparr>)))"

definition GetRetentionPolicy :: "string \<Rightarrow> Snapshot \<Rightarrow> RetentionPolicy result" where
  "GetRetentionPolicy tenantID data =
     guardE (requireTenantScope tenantID)
       (case mget (sn_Policies data) tenantID of None \<Rightarrow> Inl (Err ErrNotFound '''') | Some p \<Rightarrow> Inr p)"

text \<open>
  The cutoff is an int64 product: \<open>-time.Duration(days) * 24 * time.Hour\<close> in nanoseconds, wrapped
  around at 64 bits.
\<close>

definition retentionCutoff :: "time \<Rightarrow> int \<Rightarrow> time" where
  "retentionCutoff now days = now + wrap64 (wrap64 (wrap64 (- days) * 24) * 3600000000000)"

definition retentionDue :: "string \<Rightarrow> RetentionPolicy \<Rightarrow> time \<Rightarrow> Event \<Rightarrow> bool" where
  "retentionDue tenantID policy cutoff e \<longleftrightarrow>
     ev_TenantID e = tenantID \<and> ev_RetentionClass e = rp_RetentionClass policy \<and> rp_ArchiveDays policy > 0
     \<and> \<not> ev_OccurredAt e > cutoff"

definition EvaluateRetention :: "Config \<Rightarrow> time \<Rightarrow> string \<Rightarrow> time \<Rightarrow> Snapshot \<Rightarrow> RetentionReport result" where
  "EvaluateRetention cfg clock tenantID now0 data =
     guardE (requireTenantScope tenantID)
     (case mget (sn_Policies data) tenantID of
        None \<Rightarrow> Inl (Err ErrNotFound '''')
      | Some policy \<Rightarrow>
          let now = (if now0 = 0 then clock else now0);
              holds = filter (activeHold tenantID) (mvals (sn_LegalHolds data));
              due = filter (retentionDue tenantID policy (retentionCutoff now (rp_ArchiveDays policy))) (mvals (sn_Events data));
              blocks = (\<lambda>e. filter (\<lambda>h. holdMatchesEvent cfg h e (sn_Schemas data)) holds)
          in Inr \<lparr>rr_TenantID = tenantID, rr_EvaluatedAt = now, rr_Policy = policy,
               rr_EligibleEvents = int (length (filter (\<lambda>e. blocks e = []) due)),
               rr_ProtectedEvents = int (length (filter (\<lambda>e. blocks e \<noteq> []) due)),
               rr_HoldIDs = sort_slice (<) (fold (\<lambda>e ids. fold (\<lambda>h ids. appendUnique ids (lh_ID h)) (blocks e) ids) due []),
               rr_Action = ''archive_only_immutable_ledger''\<rparr>)"

subsection \<open>Legal holds (hold.go)\<close>

definition windowError :: "Query \<Rightarrow> error option" where
  "windowError f =
     (if (qy_From f \<noteq> 0 \<or> qy_To f \<noteq> 0) \<and> (qy_From f = 0 \<or> qy_To f = 0 \<or> \<not> qy_From f < qy_To f)
      then Some (Err ErrInvalid ''legal hold filter requires from before to'') else None)"

definition CreateLegalHold :: "Config \<Rightarrow> string \<Rightarrow> string \<Rightarrow> time \<Rightarrow> LegalHold \<Rightarrow> Snapshot \<Rightarrow> (LegalHold \<times> Snapshot) result" where
  "CreateLegalHold cfg holdID factID now hold0 data =
     guardE (firstErr [requireTenantScope (lh_TenantID hold0),
        if lh_TenantID hold0 = '''' \<or> lh_Name hold0 = '''' \<or> lh_Reason hold0 = ''''
          then Some (Err ErrInvalid ''tenant_id, name and reason are required'') else None,
        windowError (lh_Filter hold0),
        if (qy_PayloadField (lh_Filter hold0) = '''') \<noteq> (qy_PayloadDigest (lh_Filter hold0) = '''')
          then Some (Err ErrInvalid ''payload_field and payload_digest must be provided together'') else None])
     (let hold = hold0\<lparr>lh_ID := (if lh_ID hold0 = '''' then holdID else lh_ID hold0),
                      lh_CreatedAt := (if lh_CreatedAt hold0 = 0 then now else lh_CreatedAt hold0)\<rparr>
      in if mget (sn_Tenants data) (lh_TenantID hold) = None then Inl (Err ErrNotFound '''')
         else if mget (sn_LegalHolds data) (lh_ID hold) \<noteq> None then Inl (Err ErrConflict ''legal hold already exists'')
         else Inr (hold, appendAdminAction cfg (adminAction factID now (lh_TenantID hold) (lh_CreatedBy hold) ''legal_hold.created''
                    ''legal_hold'' (lh_ID hold) (lh_Reason hold))
                (data\<lparr>sn_LegalHolds := mput (sn_LegalHolds data) (lh_ID hold) hold\<rparr>)))"

definition ListLegalHolds :: "string \<Rightarrow> Snapshot \<Rightarrow> LegalHold list result" where
  "ListLegalHolds tenantID data =
     guardE (requireTenantScope tenantID)
       (Inr (sort_slice (\<lambda>a b. lh_CreatedAt a < lh_CreatedAt b) (filter (\<lambda>h. lh_TenantID h = tenantID) (mvals (sn_LegalHolds data)))))"

text \<open>The closure reports whether it changed the snapshot; a repeated release answers with the first one.\<close>

definition ReleaseLegalHold :: "Config \<Rightarrow> string \<Rightarrow> time \<Rightarrow> string \<Rightarrow> string \<Rightarrow> string \<Rightarrow> Snapshot \<Rightarrow> (LegalHold \<times> bool \<times> Snapshot) result" where
  "ReleaseLegalHold cfg factID now tenantID holdID releasedBy data =
     guardE (requireTenantScope tenantID)
     (case mget (sn_LegalHolds data) holdID of
        None \<Rightarrow> Inl (Err ErrNotFound '''')
      | Some v \<Rightarrow>
          if lh_TenantID v \<noteq> tenantID then Inl (Err ErrNotFound '''')
          else if lh_ReleasedAt v \<noteq> None then Inr (v, False, data)
          else let released = v\<lparr>lh_ReleasedAt := Some now, lh_ReleasedBy := releasedBy\<rparr> in
               Inr (released, True,
                 appendAdminAction cfg (adminAction factID now (lh_TenantID v) releasedBy ''legal_hold.released'' ''legal_hold'' holdID '''')
                   (data\<lparr>sn_LegalHolds := mput (sn_LegalHolds data) holdID released\<rparr>)))"

subsection \<open>Sources (sources.go)\<close>

definition fmtStrings :: "string list \<Rightarrow> string" where
  "fmtStrings xs = ''['' @ concat (map (\<lambda>(i, x). (if i = 0 then '''' else '' '') @ x) (enumerate 0 xs)) @ '']''"

fun clientIDsError :: "string list \<Rightarrow> string list \<Rightarrow> error option" where
  "clientIDsError seen [] = None"
| "clientIDsError seen (c # rest) =
     (if TrimSpace c = '''' \<or> c \<noteq> TrimSpace c then Some (Err ErrInvalid ''allowed client IDs must be non-empty and trimmed'')
      else if c \<in> set seen then Some (Err ErrInvalid ''allowed client IDs must be unique'')
      else clientIDsError (c # seen) rest)"

lemma clientIDsError_None:
  "clientIDsError seen ids = None \<longleftrightarrow>
     (\<forall>c \<in> set ids. TrimSpace c \<noteq> '''' \<and> c = TrimSpace c) \<and> distinct ids \<and> set ids \<inter> set seen = {}"
  by (induction ids arbitrary: seen) auto

definition normalizeSource :: "SourceSystem \<Rightarrow> SourceSystem result" where
  "normalizeSource source =
     guardE (firstErr [requireTenantScope (ss_TenantID source),
        if ss_TenantID source = '''' \<or> ss_ID source = '''' \<or> ss_Name source = ''''
          then Some (Err ErrInvalid ''source tenant_id, id and name are required'') else None,
        ValidKeyComponent (ss_ID source), ValidArchiveComponentLength (ss_ID source), ValidateSourceCaps source,
        clientIDsError [] (ss_AllowedClientIDs source)])
     (Inr (source\<lparr>ss_AllowedClientIDs := sort_slice (<) (ss_AllowedClientIDs source)\<rparr>))"

definition AddSource :: "Config \<Rightarrow> string \<Rightarrow> time \<Rightarrow> string \<Rightarrow> SourceSystem \<Rightarrow> Snapshot \<Rightarrow> Snapshot result" where
  "AddSource cfg factID now actor source0 data =
     guardE (requireTenantScope (ss_TenantID source0))
     (rbind (normalizeSource source0) (\<lambda>source1.
        let source = source1\<lparr>ss_CreatedAt := (if ss_CreatedAt source1 = 0 then now else ss_CreatedAt source1), ss_Active := True\<rparr>;
            key = SourceKey (ss_TenantID source) (ss_ID source)
        in if mget (sn_Tenants data) (ss_TenantID source) = None then Inl (Err ErrNotFound ''tenant does not exist'')
           else if mget (sn_Sources data) key \<noteq> None then Inl (Err ErrConflict ''source already exists'')
           else Inr (appendAdminAction cfg (adminAction factID now (ss_TenantID source) actor ''source.created'' ''source'' (ss_ID source)
                    (''allowed_client_ids='' @ fmtStrings (ss_AllowedClientIDs source)))
                  (data\<lparr>sn_Sources := mput (sn_Sources data) key source\<rparr>))))"

definition UpdateSource :: "Config \<Rightarrow> string \<Rightarrow> time \<Rightarrow> string \<Rightarrow> SourceSystem \<Rightarrow> Snapshot \<Rightarrow> (SourceSystem \<times> Snapshot) result" where
  "UpdateSource cfg factID now actor source0 data =
     guardE (requireTenantScope (ss_TenantID source0))
     (rbind (normalizeSource source0) (\<lambda>source1.
        let key = SourceKey (ss_TenantID source1) (ss_ID source1)
        in if mget (sn_Tenants data) (ss_TenantID source1) = None then Inl (Err ErrNotFound ''tenant does not exist'')
           else (case mget (sn_Sources data) key of
                   None \<Rightarrow> Inl (Err ErrNotFound '''')
                 | Some existing \<Rightarrow>
                     let source = source1\<lparr>ss_CreatedAt := ss_CreatedAt existing\<rparr> in
                     Inr (source, appendAdminAction cfg (adminAction factID now (ss_TenantID source) actor ''source.updated'' ''source''
                           (ss_ID source) (''allowed_client_ids='' @ fmtStrings (ss_AllowedClientIDs source)
                              @ '' active='' @ (if ss_Active source then ''true'' else ''false'')))
                         (data\<lparr>sn_Sources := mput (sn_Sources data) key source\<rparr>)))))"

definition ListSources :: "string \<Rightarrow> Snapshot \<Rightarrow> SourceSystem list result" where
  "ListSources tenantID data =
     guardE (requireTenantScope tenantID)
       (Inr (sort_slice (\<lambda>a b. ss_ID a < ss_ID b) (filter (\<lambda>s. ss_TenantID s = tenantID) (mvals (sn_Sources data)))))"

subsection \<open>Restore requests (restore.go)\<close>

text \<open>\<open>replayed\<close> is the answer of \<open>ReplayOperation\<close> for the request's operation.\<close>

definition PreviewRestore :: "string \<Rightarrow> string \<Rightarrow> RestoreRequest \<Rightarrow> ReplayResult result \<Rightarrow> RestorePreview result" where
  "PreviewRestore newID tenantID request replayed =
     guardE (requireTenantScope tenantID)
     (rbind replayed (\<lambda>r.
        Inr \<lparr>rv_ID = newID, rv_TenantID = tenantID, rv_OperationID = rq_OperationID request, rv_ProposedState = re_State r,
          rv_ExternalCalls = [], rv_RequiresApproval = True\<rparr>))"

definition CreateRestore :: "Config \<Rightarrow> string \<Rightarrow> string \<Rightarrow> time \<Rightarrow> string \<Rightarrow> RestoreRequest \<Rightarrow> string \<Rightarrow> ReplayResult result \<Rightarrow> Snapshot
     \<Rightarrow> (RestoreRun \<times> Snapshot) result" where
  "CreateRestore cfg runID factID now tenantID request requestedBy replayed data =
     guardE (firstErr [requireTenantScope tenantID,
        if rq_OperationID request = '''' \<or> rq_Reason request = ''''
          then Some (Err ErrInvalid ''operation_id and reason are required'') else None])
     (rbind replayed (\<lambda>_.
        let run = \<lparr>rn_ID = runID, rn_TenantID = tenantID, rn_OperationID = rq_OperationID request,
              rn_Status = RestoreStatusPendingApproval, rn_Reason = rq_Reason request, rn_CreatedBy = requestedBy, rn_CreatedAt = now,
              rn_ApprovedBy = '''', rn_ApprovedAt = None, rn_RejectedBy = '''', rn_RejectedAt = None\<rparr>
        in Inr (run, appendAdminAction cfg (adminAction factID now tenantID requestedBy ''restore.created'' ''restore'' runID (rq_OperationID request))
               (data\<lparr>sn_RestoreRuns := mput (sn_RestoreRuns data) runID run\<rparr>))))"

definition transitionRestore :: "Config \<Rightarrow> string \<Rightarrow> time \<Rightarrow> string \<Rightarrow> string \<Rightarrow> string \<Rightarrow> string \<Rightarrow> Snapshot \<Rightarrow> (RestoreRun \<times> Snapshot) result" where
  "transitionRestore cfg factID now tenantID runID actor target data =
     guardE (requireTenantScope tenantID)
     (case mget (sn_RestoreRuns data) runID of
        None \<Rightarrow> Inl (Err ErrNotFound '''')
      | Some v \<Rightarrow>
          if rn_TenantID v \<noteq> tenantID then Inl (Err ErrNotFound '''')
          else if rn_Status v \<noteq> RestoreStatusPendingApproval then Inl (Err ErrConflict ''restore run is not pending approval'')
          else if rn_CreatedBy v = actor then Inl (Err ErrForbidden '''')
          else
            let approve = (target = RestoreStatusApproved);
                run = (if approve then v\<lparr>rn_Status := RestoreStatusApproved, rn_ApprovedBy := actor, rn_ApprovedAt := Some now\<rparr>
                       else v\<lparr>rn_Status := RestoreStatusRejected, rn_RejectedBy := actor, rn_RejectedAt := Some now\<rparr>);
                action = (if approve then ''restore.approved'' else ''restore.rejected'')
            in Inr (run, (appendAdminAction cfg (adminAction factID now (rn_TenantID v) actor action ''restore'' runID (rn_OperationID v)) data)
                 \<lparr>sn_RestoreRuns := mput (sn_RestoreRuns data) runID run\<rparr>))"

definition ApproveRestore :: "Config \<Rightarrow> string \<Rightarrow> time \<Rightarrow> string \<Rightarrow> string \<Rightarrow> string \<Rightarrow> Snapshot \<Rightarrow> (RestoreRun \<times> Snapshot) result" where
  "ApproveRestore cfg factID now tenantID runID approvedBy = transitionRestore cfg factID now tenantID runID approvedBy RestoreStatusApproved"

definition RejectRestore :: "Config \<Rightarrow> string \<Rightarrow> time \<Rightarrow> string \<Rightarrow> string \<Rightarrow> string \<Rightarrow> Snapshot \<Rightarrow> (RestoreRun \<times> Snapshot) result" where
  "RejectRestore cfg factID now tenantID runID rejectedBy = transitionRestore cfg factID now tenantID runID rejectedBy RestoreStatusRejected"

definition GetRestore :: "string \<Rightarrow> string \<Rightarrow> Snapshot \<Rightarrow> RestoreRun result" where
  "GetRestore tenantID runID data =
     guardE (requireTenantScope tenantID)
     (case mget (sn_RestoreRuns data) runID of
        None \<Rightarrow> Inl (Err ErrNotFound '''')
      | Some v \<Rightarrow> if rn_TenantID v \<noteq> tenantID then Inl (Err ErrNotFound '''') else Inr v)"

subsection \<open>A well-typed control plane\<close>

definition allEntries :: "(string \<Rightarrow> 'v \<Rightarrow> bool) \<Rightarrow> 'v gomap \<Rightarrow> bool" where
  "allEntries P m \<longleftrightarrow> wf_map m \<and> (\<forall>(k, v) \<in> set m. P k v)"

lemma allEntries_mget: "allEntries P m \<Longrightarrow> mget m k = Some v \<Longrightarrow> P k v"
  by (auto simp: allEntries_def mget_def dest: map_of_SomeD)

lemma allEntries_mput: "allEntries P m \<Longrightarrow> P k v \<Longrightarrow> allEntries P (mput m k v)"
  by (auto simp: allEntries_def set_mput)

lemma allEntries_mono: "allEntries P m \<Longrightarrow> (\<And>k v. P k v \<Longrightarrow> Q k v) \<Longrightarrow> allEntries Q m"
  by (auto simp: allEntries_def)

definition tenantTyped :: "string \<Rightarrow> Tenant \<Rightarrow> bool" where
  "tenantTyped k t \<longleftrightarrow> k = tn_ID t \<and> ValidTenantID k = None \<and> TrimSpace k \<noteq> '''' \<and> tn_Active t"

definition sourceTyped :: "(string \<Rightarrow> bool) \<Rightarrow> string \<Rightarrow> SourceSystem \<Rightarrow> bool" where
  "sourceTyped known k s \<longleftrightarrow> k = SourceKey (ss_TenantID s) (ss_ID s) \<and> known (ss_TenantID s) \<and> requireTenantScope (ss_TenantID s) = None
     \<and> ValidKeyComponent (ss_ID s) = None \<and> ValidArchiveComponentLength (ss_ID s) = None
     \<and> length (ss_AllowedClientIDs s) \<le> MaxSourceClientIDs \<and> sorted (ss_AllowedClientIDs s) \<and> distinct (ss_AllowedClientIDs s)
     \<and> (\<forall>c \<in> set (ss_AllowedClientIDs s). c \<noteq> '''' \<and> TrimSpace c = c)"

definition schemaTyped :: "(string \<Rightarrow> bool) \<Rightarrow> string \<Rightarrow> EventSchema \<Rightarrow> bool" where
  "schemaTyped known k s \<longleftrightarrow> k = SchemaKey (es_TenantID s) (es_SchemaID s) (es_Version s) \<and> known (es_TenantID s)
     \<and> requireTenantScope (es_TenantID s) = None \<and> ValidKeyComponent (es_SchemaID s) = None
     \<and> es_SchemaID s \<noteq> '''' \<and> es_Version s > 0 \<and> es_EventType s \<noteq> '''' \<and> ValidateSchemaCaps s = None"

definition policyTyped :: "(string \<Rightarrow> bool) \<Rightarrow> string \<Rightarrow> RetentionPolicy \<Rightarrow> bool" where
  "policyTyped known k p \<longleftrightarrow> k = rp_TenantID p \<and> known k \<and> requireTenantScope k = None \<and> TrimSpace (rp_RetentionClass p) \<noteq> ''''
     \<and> rp_HotDays p \<ge> 0 \<and> rp_WarmDays p \<ge> 0 \<and> rp_ArchiveDays p \<ge> 0"

definition holdTyped :: "(string \<Rightarrow> bool) \<Rightarrow> string \<Rightarrow> LegalHold \<Rightarrow> bool" where
  "holdTyped known k h \<longleftrightarrow> k = lh_ID h \<and> known (lh_TenantID h) \<and> requireTenantScope (lh_TenantID h) = None
     \<and> lh_Name h \<noteq> '''' \<and> lh_Reason h \<noteq> '''' \<and> windowError (lh_Filter h) = None
     \<and> (qy_PayloadField (lh_Filter h) = '''') = (qy_PayloadDigest (lh_Filter h) = '''')"

text \<open>A restore run is undecided, or decided once by somebody other than its requester.\<close>

definition runTyped :: "string \<Rightarrow> RestoreRun \<Rightarrow> bool" where
  "runTyped k r \<longleftrightarrow> k = rn_ID r \<and> requireTenantScope (rn_TenantID r) = None \<and> rn_OperationID r \<noteq> '''' \<and> rn_Reason r \<noteq> ''''
     \<and> (rn_Status r = RestoreStatusPendingApproval \<and> rn_ApprovedAt r = None \<and> rn_RejectedAt r = None
        \<or> rn_Status r = RestoreStatusApproved \<and> rn_ApprovedBy r \<noteq> rn_CreatedBy r \<and> rn_ApprovedAt r \<noteq> None \<and> rn_RejectedAt r = None
        \<or> rn_Status r = RestoreStatusRejected \<and> rn_RejectedBy r \<noteq> rn_CreatedBy r \<and> rn_RejectedAt r \<noteq> None \<and> rn_ApprovedAt r = None)"

definition knownTenant :: "Snapshot \<Rightarrow> string \<Rightarrow> bool" where
  "knownTenant data t \<longleftrightarrow> mget (sn_Tenants data) t \<noteq> None"

definition controlTyped :: "Snapshot \<Rightarrow> bool" where
  "controlTyped data \<longleftrightarrow>
     allEntries tenantTyped (sn_Tenants data) \<and> allEntries (sourceTyped (knownTenant data)) (sn_Sources data)
     \<and> allEntries (schemaTyped (knownTenant data)) (sn_Schemas data) \<and> allEntries (policyTyped (knownTenant data)) (sn_Policies data)
     \<and> allEntries (holdTyped (knownTenant data)) (sn_LegalHolds data) \<and> allEntries runTyped (sn_RestoreRuns data)"

definition controlPart :: "Snapshot \<Rightarrow> Tenant gomap \<times> SourceSystem gomap \<times> EventSchema gomap \<times> RetentionPolicy gomap \<times> LegalHold gomap \<times> RestoreRun gomap" where
  "controlPart data = (sn_Tenants data, sn_Sources data, sn_Schemas data, sn_Policies data, sn_LegalHolds data, sn_RestoreRuns data)"

lemma controlTyped_part: "controlPart data' = controlPart data \<Longrightarrow> controlTyped data \<Longrightarrow> controlTyped data'"
  by (simp add: controlTyped_def controlPart_def knownTenant_def [abs_def])

lemma controlTyped_start: "controlTyped NewSnapshot"
  by (simp add: controlTyped_def allEntries_def NewSnapshot_def)

subsection \<open>Every mutation of the control plane\<close>

inductive controlStep :: "Config \<Rightarrow> Snapshot \<Rightarrow> Snapshot \<Rightarrow> bool" for cfg where
  tenant: "CreateTenant cfg factID now actor t data = Inr data' \<Longrightarrow> controlStep cfg data data'"
| schema: "RegisterSchema cfg factID now actor s data = Inr data' \<Longrightarrow> controlStep cfg data data'"
| policy: "SetRetentionPolicy cfg factID now actor p data = Inr data' \<Longrightarrow> controlStep cfg data data'"
| add_source: "AddSource cfg factID now actor s data = Inr data' \<Longrightarrow> controlStep cfg data data'"
| update_source: "UpdateSource cfg factID now actor s data = Inr (s', data') \<Longrightarrow> controlStep cfg data data'"
| create_hold: "CreateLegalHold cfg holdID factID now h data = Inr (h', data') \<Longrightarrow> controlStep cfg data data'"
| release_hold: "ReleaseLegalHold cfg factID now tenantID holdID releasedBy data = Inr (h, changed, data') \<Longrightarrow> controlStep cfg data data'"
| create_restore: "CreateRestore cfg runID factID now tenantID request requestedBy replayed data = Inr (r, data') \<Longrightarrow> controlStep cfg data data'"
| decide_restore: "transitionRestore cfg factID now tenantID runID actor target data = Inr (r, data') \<Longrightarrow> controlStep cfg data data'"

lemma controlPart_fact [simp]: "controlPart (appendAdminAction cfg a data) = controlPart data"
  by (simp add: controlPart_def appendAdminAction_def)

lemma knownTenant_other [simp]:
  "knownTenant (data\<lparr>sn_Sources := x1\<rparr>) = knownTenant data" "knownTenant (data\<lparr>sn_Schemas := x2\<rparr>) = knownTenant data"
  "knownTenant (data\<lparr>sn_Policies := x3\<rparr>) = knownTenant data" "knownTenant (data\<lparr>sn_LegalHolds := x4\<rparr>) = knownTenant data"
  "knownTenant (data\<lparr>sn_RestoreRuns := x5\<rparr>) = knownTenant data"
  by (simp_all add: knownTenant_def [abs_def])

lemma controlTyped_source: "controlTyped data \<Longrightarrow> sourceTyped (knownTenant data) k s \<Longrightarrow> controlTyped (data\<lparr>sn_Sources := mput (sn_Sources data) k s\<rparr>)"
  and controlTyped_schema: "controlTyped data \<Longrightarrow> schemaTyped (knownTenant data) k c \<Longrightarrow> controlTyped (data\<lparr>sn_Schemas := mput (sn_Schemas data) k c\<rparr>)"
  and controlTyped_policy: "controlTyped data \<Longrightarrow> policyTyped (knownTenant data) k p \<Longrightarrow> controlTyped (data\<lparr>sn_Policies := mput (sn_Policies data) k p\<rparr>)"
  and controlTyped_hold: "controlTyped data \<Longrightarrow> holdTyped (knownTenant data) k h \<Longrightarrow> controlTyped (data\<lparr>sn_LegalHolds := mput (sn_LegalHolds data) k h\<rparr>)"
  and controlTyped_run: "controlTyped data \<Longrightarrow> runTyped k r \<Longrightarrow> controlTyped (data\<lparr>sn_RestoreRuns := mput (sn_RestoreRuns data) k r\<rparr>)"
  by (simp_all add: controlTyped_def allEntries_mput)

lemmas controlTyped_mput = controlTyped_source controlTyped_schema controlTyped_policy controlTyped_hold controlTyped_run

lemma controlTyped_fact: "controlTyped data \<Longrightarrow> controlTyped (appendAdminAction cfg a data)"
  by (rule controlTyped_part) simp_all

lemma map_sort_strings: "distinct xs \<Longrightarrow> sorted (sort_slice (<) (xs :: string list))"
  using sorted_sort_slice [OF strict_order_key [of "\<lambda>x. x :: string"]] by (simp add: not_less)

lemma CreateTenant_typed:
  assumes "CreateTenant cfg factID now actor t data = Inr data'" and typed: "controlTyped data"
  shows "controlTyped data'"
proof -
  let ?t = "t\<lparr>tn_CreatedAt := (if tn_CreatedAt t = 0 then now else tn_CreatedAt t), tn_Active := True\<rparr>"
  have t: "tenantTyped (tn_ID t) ?t" and d: "controlPart data' = controlPart (data\<lparr>sn_Tenants := mput (sn_Tenants data) (tn_ID t) ?t\<rparr>)"
    using assms(1) by (auto simp: CreateTenant_def guardE_eq_Inr Let_def tenantTyped_def split: if_splits)
  have "knownTenant data k \<Longrightarrow> knownTenant (data\<lparr>sn_Tenants := mput (sn_Tenants data) (tn_ID t) ?t\<rparr>) k" for k
    by (simp add: knownTenant_def mget_mput)
  then have "controlTyped (data\<lparr>sn_Tenants := mput (sn_Tenants data) (tn_ID t) ?t\<rparr>)"
    using typed t unfolding controlTyped_def
    by (auto intro!: allEntries_mput elim!: allEntries_mono simp: sourceTyped_def schemaTyped_def policyTyped_def holdTyped_def)
  then show ?thesis by (rule controlTyped_part [OF d])
qed

lemma RegisterSchema_typed:
  assumes "RegisterSchema cfg factID now actor s data = Inr data'" and typed: "controlTyped data"
  shows "controlTyped data'" "mget (sn_Schemas data) k = Some s0 \<Longrightarrow> mget (sn_Schemas data') k = Some s0"
proof -
  let ?s = "s\<lparr>es_CreatedAt := (if es_CreatedAt s = 0 then now else es_CreatedAt s), es_Active := True\<rparr>"
  let ?key = "SchemaKey (es_TenantID s) (es_SchemaID s) (es_Version s)"
  have caps: "ValidateSchemaCaps ?s = ValidateSchemaCaps s" by (simp add: ValidateSchemaCaps_def)
  have s: "schemaTyped (knownTenant data) ?key ?s" and fresh: "mget (sn_Schemas data) ?key = None"
    and d: "\<exists>a. data' = appendAdminAction cfg a (data\<lparr>sn_Schemas := mput (sn_Schemas data) ?key ?s\<rparr>)"
    using assms(1) caps by (auto simp: RegisterSchema_def guardE_eq_Inr Let_def schemaTyped_def knownTenant_def firstErr_None_iff split: if_splits)
  show "controlTyped data'" using d typed s by (auto intro!: controlTyped_fact controlTyped_mput)
  show "mget (sn_Schemas data) k = Some s0 \<Longrightarrow> mget (sn_Schemas data') k = Some s0"
    using d fresh by (auto simp: appendAdminAction_def mget_mput)
qed

lemma SetRetentionPolicy_typed:
  assumes "SetRetentionPolicy cfg factID now actor p data = Inr data'" and typed: "controlTyped data"
  shows "controlTyped data'"
proof -
  have "policyTyped (knownTenant data) (rp_TenantID p) p"
    and "\<exists>a. data' = appendAdminAction cfg a (data\<lparr>sn_Policies := mput (sn_Policies data) (rp_TenantID p) p\<rparr>)"
    using assms(1) by (auto simp: SetRetentionPolicy_def guardE_eq_Inr policyTyped_def knownTenant_def firstErr_None_iff split: if_splits)
  then show ?thesis using typed by (auto intro!: controlTyped_fact controlTyped_mput)
qed

lemma normalizeSource_typed:
  assumes "normalizeSource s0 = Inr s" "known (ss_TenantID s)"
  shows "sourceTyped known (SourceKey (ss_TenantID s) (ss_ID s)) (s\<lparr>ss_CreatedAt := stamp, ss_Active := act\<rparr>)"
proof -
  have c: "firstErr [requireTenantScope (ss_TenantID s0),
        if ss_TenantID s0 = '''' \<or> ss_ID s0 = '''' \<or> ss_Name s0 = ''''
          then Some (Err ErrInvalid ''source tenant_id, id and name are required'') else None,
        ValidKeyComponent (ss_ID s0), ValidArchiveComponentLength (ss_ID s0), ValidateSourceCaps s0,
        clientIDsError [] (ss_AllowedClientIDs s0)] = None"
    and s: "s = s0\<lparr>ss_AllowedClientIDs := sort_slice (<) (ss_AllowedClientIDs s0)\<rparr>"
    using assms(1) by (simp_all add: normalizeSource_def guardE_eq_Inr)
  have ids: "clientIDsError [] (ss_AllowedClientIDs s0) = None" "ValidateSourceCaps s0 = None" using c by (simp_all add: firstErr_None_iff)
  have "TrimSpace [] = []" by code_simp
  then have "distinct (ss_AllowedClientIDs s0)" "\<forall>c \<in> set (ss_AllowedClientIDs s0). c \<noteq> '''' \<and> TrimSpace c = c"
    using ids(1) by (auto simp: clientIDsError_None)
  moreover have "length (ss_AllowedClientIDs s0) \<le> MaxSourceClientIDs"
    using ids(2) by (simp add: ValidateSourceCaps_def CheckCount_def split: if_splits)
  ultimately show ?thesis using c assms(2) by (simp add: sourceTyped_def s firstErr_None_iff map_sort_strings)
qed

lemma AddSource_typed:
  assumes "AddSource cfg factID now actor s0 data = Inr data'" and typed: "controlTyped data"
  shows "controlTyped data'"
proof -
  obtain s a where s: "normalizeSource s0 = Inr s" "knownTenant data (ss_TenantID s)"
    "data' = appendAdminAction cfg a (data\<lparr>sn_Sources := mput (sn_Sources data) (SourceKey (ss_TenantID s) (ss_ID s))
        (s\<lparr>ss_CreatedAt := (if ss_CreatedAt s = 0 then now else ss_CreatedAt s), ss_Active := True\<rparr>)\<rparr>)"
    using assms(1) by (auto simp: AddSource_def guardE_eq_Inr rbind_eq_Inr Let_def knownTenant_def split: if_splits)
  show ?thesis unfolding s(3)
    by (intro controlTyped_fact controlTyped_source typed normalizeSource_typed [where known = "knownTenant data", OF s(1,2)])
qed

lemma UpdateSource_typed:
  assumes "UpdateSource cfg factID now actor s0 data = Inr (s', data')" and typed: "controlTyped data"
  shows "controlTyped data'"
proof -
  obtain s stamp a where s: "normalizeSource s0 = Inr s" "knownTenant data (ss_TenantID s)"
    "data' = appendAdminAction cfg a (data\<lparr>sn_Sources := mput (sn_Sources data) (SourceKey (ss_TenantID s) (ss_ID s)) (s\<lparr>ss_CreatedAt := stamp\<rparr>)\<rparr>)"
    using assms(1) by (auto simp: UpdateSource_def guardE_eq_Inr rbind_eq_Inr Let_def knownTenant_def split: if_splits option.splits)
  have "sourceTyped (knownTenant data) (SourceKey (ss_TenantID s) (ss_ID s)) (s\<lparr>ss_CreatedAt := stamp\<rparr>)"
    using normalizeSource_typed [where known = "knownTenant data" and stamp = stamp and act = "ss_Active s", OF s(1,2)] by simp
  then show ?thesis unfolding s(3) using typed by (auto intro!: controlTyped_fact controlTyped_mput)
qed

lemma CreateLegalHold_typed:
  assumes "CreateLegalHold cfg holdID factID now h0 data = Inr (h, data')" and typed: "controlTyped data"
  shows "controlTyped data'"
proof -
  have h: "h = h0\<lparr>lh_ID := (if lh_ID h0 = '''' then holdID else lh_ID h0), lh_CreatedAt := (if lh_CreatedAt h0 = 0 then now else lh_CreatedAt h0)\<rparr>"
    and "holdTyped (knownTenant data) (lh_ID h) h"
    and "\<exists>a. data' = appendAdminAction cfg a (data\<lparr>sn_LegalHolds := mput (sn_LegalHolds data) (lh_ID h) h\<rparr>)"
    using assms(1) by (auto simp: CreateLegalHold_def guardE_eq_Inr Let_def holdTyped_def knownTenant_def firstErr_None_iff split: if_splits)
  then show ?thesis using typed by (auto intro!: controlTyped_fact controlTyped_mput)
qed

lemma ReleaseLegalHold_typed:
  assumes "ReleaseLegalHold cfg factID now tenantID holdID releasedBy data = Inr (h, changed, data')" and typed: "controlTyped data"
  shows "controlTyped data'"
proof -
  obtain v where v: "mget (sn_LegalHolds data) holdID = Some v"
    and d: "data' = data \<or> (\<exists>a. data' = appendAdminAction cfg a (data\<lparr>sn_LegalHolds := mput (sn_LegalHolds data) holdID
        (v\<lparr>lh_ReleasedAt := Some now, lh_ReleasedBy := releasedBy\<rparr>)\<rparr>))"
    using assms(1) by (auto simp: ReleaseLegalHold_def guardE_eq_Inr Let_def split: if_splits option.splits)
  have "holdTyped (knownTenant data) holdID v" using typed v by (auto simp: controlTyped_def dest: allEntries_mget)
  then have "holdTyped (knownTenant data) holdID (v\<lparr>lh_ReleasedAt := Some now, lh_ReleasedBy := releasedBy\<rparr>)" by (simp add: holdTyped_def)
  then show ?thesis using d typed by (auto intro!: controlTyped_fact controlTyped_mput)
qed

lemma CreateRestore_typed:
  assumes "CreateRestore cfg runID factID now tenantID request requestedBy replayed data = Inr (r, data')" and typed: "controlTyped data"
  shows "controlTyped data'"
proof -
  have "runTyped runID r" and "\<exists>a. data' = appendAdminAction cfg a (data\<lparr>sn_RestoreRuns := mput (sn_RestoreRuns data) runID r\<rparr>)"
    using assms(1) by (auto simp: CreateRestore_def guardE_eq_Inr rbind_eq_Inr Let_def runTyped_def firstErr_None_iff split: if_splits)
  then show ?thesis using typed by (auto intro!: controlTyped_fact controlTyped_mput)
qed

lemma transitionRestore_typed:
  assumes "transitionRestore cfg factID now tenantID runID actor target data = Inr (r, data')" and typed: "controlTyped data"
  shows "controlTyped data'"
proof -
  obtain v where v: "mget (sn_RestoreRuns data) runID = Some v" "rn_Status v = RestoreStatusPendingApproval" "rn_CreatedBy v \<noteq> actor"
    and r: "r = v\<lparr>rn_Status := RestoreStatusApproved, rn_ApprovedBy := actor, rn_ApprovedAt := Some now\<rparr>
      \<or> r = v\<lparr>rn_Status := RestoreStatusRejected, rn_RejectedBy := actor, rn_RejectedAt := Some now\<rparr>"
    and d: "controlPart data' = controlPart (data\<lparr>sn_RestoreRuns := mput (sn_RestoreRuns data) runID r\<rparr>)"
    using assms(1) by (auto simp: transitionRestore_def guardE_eq_Inr Let_def controlPart_def appendAdminAction_def split: if_splits option.splits)
  have "runTyped runID v" using typed v(1) by (auto simp: controlTyped_def dest: allEntries_mget)
  then have "runTyped runID r" using r v(2,3)
    by (auto simp: runTyped_def RestoreStatusPendingApproval_def RestoreStatusApproved_def RestoreStatusRejected_def)
  then have "controlTyped (data\<lparr>sn_RestoreRuns := mput (sn_RestoreRuns data) runID r\<rparr>)" using typed by (intro controlTyped_run)
  then show ?thesis by (rule controlTyped_part [OF d])
qed

lemmas control_typed = CreateTenant_typed RegisterSchema_typed SetRetentionPolicy_typed AddSource_typed UpdateSource_typed
  CreateLegalHold_typed ReleaseLegalHold_typed CreateRestore_typed transitionRestore_typed

lemma controlStep_typed: "controlStep cfg data data' \<Longrightarrow> controlTyped data \<Longrightarrow> controlTyped data'"
  by (induction rule: controlStep.induct) (blast intro: control_typed)+

subsection \<open>Ledger and control plane together\<close>

text \<open>
  The reachable snapshots of the service: ledger steps and control-plane mutations in any order. Ledger
  steps leave the control maps alone, control-plane mutations leave the evidence alone and never change
  a registered schema.
\<close>

inductive systemReach :: "Config \<Rightarrow> ledgerLog \<Rightarrow> Snapshot \<Rightarrow> bool" for cfg where
  start: "systemReach cfg (\<lambda>_. []) NewSnapshot"
| commit: "systemReach cfg hist data \<Longrightarrow> preparedFrom cfg data p
    \<Longrightarrow> ingestCommit cfg get newID hint client p data = Committed r e sealed data'
    \<Longrightarrow> key = StreamKey (pr_TenantID p) (Stream (pr_Event p))
    \<Longrightarrow> systemReach cfg (hist(key := hist key @ [e])) data'"
| transition: "systemReach cfg hist data \<Longrightarrow> transitionReceipt data now t i status evict = Inr (r, data')
    \<Longrightarrow> status = StatusArchived \<or> \<not> evict \<and> rc_Status (mget_or zeroReceipt (sn_Receipts data) (EventKey t i)) \<noteq> StatusArchived
    \<Longrightarrow> systemReach cfg hist data'"
| seal: "systemReach cfg hist data \<Longrightarrow> SealPendingSegments cfg newIDs now t data = Inr (m, data') \<Longrightarrow> systemReach cfg hist data'"
| archive: "systemReach cfg hist data \<Longrightarrow> archiveCommit now t evicted archived dead data = Inr data' \<Longrightarrow> systemReach cfg hist data'"
| control: "systemReach cfg hist data \<Longrightarrow> controlStep cfg data data' \<Longrightarrow> systemReach cfg hist data'"

lemma commit_control: "appendLedger cfg newID t e data = Inr (e', sealed, data') \<Longrightarrow> controlPart data' = controlPart data"
  using appendLedger_Inr [of cfg newID t e data e' sealed data'] by (auto simp: controlPart_def recordSeal_def Let_def)

lemma ingestCommit_control:
  "ingestCommit cfg get newID hint client p data = Committed r e sealed data' \<Longrightarrow> controlPart data' = controlPart data"
  using commit_control ingestCommit_Committed by blast

lemma transition_control: "transitionReceipt data now t i status evict = Inr (r, data') \<Longrightarrow> controlPart data' = controlPart data"
  by (auto simp: transitionReceipt_def controlPart_def Let_def split: option.splits)

lemma sealLoop_control: "sealLoop cfg newID now t i streams data = Inr (m, data') \<Longrightarrow> controlPart data' = controlPart data"
proof (induction cfg newID now t i streams data arbitrary: m data' rule: sealLoop.induct)
  case (2 cfg newID now t i key stream rest data)
  then show ?case by (auto simp: rbind_eq_Inr recordSeal_def controlPart_def split: if_splits)
qed simp

lemma evict_control: "controlPart (fold evictArchived keys data) = controlPart data"
  by (induction keys arbitrary: data) (simp_all add: evictArchived_def controlPart_def split: option.splits)

lemma markArchived_control: "markArchived now t es data = Inr data' \<Longrightarrow> controlPart data' = controlPart data"
  by (induction es arbitrary: data) (auto simp: Let_def controlPart_def split: option.splits)

lemma recordDead_control: "recordDead dead data = Inr data' \<Longrightarrow> controlPart data' = controlPart data"
proof (induction dead data rule: recordDead.induct)
  case (2 key d rest data)
  show ?case
  proof (cases "mget (sn_Receipts data) key")
    case None
    then show ?thesis using 2(1) [OF refl] 2(3) by (auto simp: controlPart_def split: if_splits)
  next
    case (Some r)
    then show ?thesis using 2(2) [OF refl] 2(3) by (simp add: controlPart_def)
  qed
qed simp

lemma archive_control:
  assumes "archiveCommit now t evicted archived dead data = Inr data'"
  shows "controlPart data' = controlPart data"
proof -
  obtain d1 d2 where d: "markArchived now t archived (fold evictArchived evicted data) = Inr d1" "recordDead dead d1 = Inr d2"
    "data' = d2\<lparr>sn_ArchiveConflictFailures := mput (sn_ArchiveConflictFailures d2) t 0\<rparr>"
    using assms by (auto simp: archiveCommit_def rbind_eq_Inr)
  have "controlPart data' = controlPart d2" by (simp add: d(3) controlPart_def)
  then show ?thesis using markArchived_control [OF d(1)] recordDead_control [OF d(2)] evict_control by simp
qed

definition ledgerPart :: "Snapshot \<Rightarrow> StreamState gomap \<times> Segment list gomap \<times> Event gomap \<times> EventReceipt gomap" where
  "ledgerPart data = (sn_Streams data, sn_Segments data, sn_Events data, sn_Receipts data)"

lemma ledgerPart_fact [simp]: "ledgerPart (appendAdminAction cfg a data) = ledgerPart data" "sn_Schemas (appendAdminAction cfg a data) = sn_Schemas data"
  by (simp_all add: ledgerPart_def appendAdminAction_def)

lemma ledgerPart_update [simp]:
  "ledgerPart (data\<lparr>sn_Tenants := x1\<rparr>) = ledgerPart data" "ledgerPart (data\<lparr>sn_Sources := x2\<rparr>) = ledgerPart data"
  "ledgerPart (data\<lparr>sn_Schemas := x3\<rparr>) = ledgerPart data" "ledgerPart (data\<lparr>sn_Policies := x4\<rparr>) = ledgerPart data"
  "ledgerPart (data\<lparr>sn_LegalHolds := x5\<rparr>) = ledgerPart data" "ledgerPart (data\<lparr>sn_RestoreRuns := x6\<rparr>) = ledgerPart data"
  by (simp_all add: ledgerPart_def)

lemma schemasExtend_refl [simp]: "schemasExtend schemas schemas"
  by (simp add: schemasExtend_def)

lemma controlStep_ledger:
  assumes "controlStep cfg data data'" "controlTyped data"
  shows "ledgerPart data' = ledgerPart data \<and> schemasExtend (sn_Schemas data) (sn_Schemas data')"
  using assms(1)
proof (cases rule: controlStep.cases)
  case (tenant factID now actor t)
  then show ?thesis by (auto simp: CreateTenant_def guardE_eq_Inr Let_def split: if_splits)
next
  case (schema factID now actor s)
  have "schemasExtend (sn_Schemas data) (sn_Schemas data')"
    using RegisterSchema_typed(2) [OF schema assms(2)] by (simp add: schemasExtend_def)
  then show ?thesis using schema by (auto simp: RegisterSchema_def guardE_eq_Inr Let_def split: if_splits)
next
  case (policy factID now actor p)
  then show ?thesis by (auto simp: SetRetentionPolicy_def guardE_eq_Inr split: if_splits)
next
  case (add_source factID now actor s)
  then show ?thesis by (auto simp: AddSource_def guardE_eq_Inr rbind_eq_Inr Let_def split: if_splits)
next
  case (update_source factID now actor s s')
  then show ?thesis by (auto simp: UpdateSource_def guardE_eq_Inr rbind_eq_Inr Let_def split: if_splits option.splits)
next
  case (create_hold holdID factID now h h')
  then show ?thesis by (auto simp: CreateLegalHold_def guardE_eq_Inr Let_def split: if_splits)
next
  case (release_hold factID now tenantID holdID releasedBy h changed)
  then show ?thesis by (auto simp: ReleaseLegalHold_def guardE_eq_Inr Let_def split: if_splits option.splits)
next
  case (create_restore runID factID now tenantID request requestedBy replayed r)
  then show ?thesis by (auto simp: CreateRestore_def guardE_eq_Inr rbind_eq_Inr Let_def)
next
  case (decide_restore factID now tenantID runID actor target r)
  then show ?thesis by (auto simp: transitionRestore_def guardE_eq_Inr Let_def split: if_splits option.splits)
qed

lemma systemReach_typed: "systemReach cfg hist data \<Longrightarrow> ledgerReach cfg hist data \<and> controlTyped data"
proof (induction rule: systemReach.induct)
  case start
  then show ?case using ledgerReach.start controlTyped_start by blast
next
  case (commit hist data p get newID hint client r e sealed data' key)
  have "controlPart data' = controlPart data" by (rule ingestCommit_control [OF commit.hyps(3)])
  then show ?case using commit ledgerReach.commit controlTyped_part by blast
next
  case (transition hist data now t i status evict r data')
  then show ?case using transition_control ledgerReach.transition controlTyped_part by blast
next
  case (seal hist data newIDs now t m data')
  have "controlPart data' = controlPart data"
    using seal.hyps(2) sealLoop_control by (auto simp: SealPendingSegments_def guardE_eq_Inr)
  then show ?case using seal ledgerReach.seal controlTyped_part by blast
next
  case (archive hist data now t evicted archived dead data')
  then show ?case using archive_control ledgerReach.archive controlTyped_part by blast
next
  case (control hist data data')
  have "ledgerPart data' = ledgerPart data" "schemasExtend (sn_Schemas data) (sn_Schemas data')"
    using controlStep_ledger control by blast+
  then have "ledgerReach cfg hist data'" using control.IH by (intro ledgerReach.control [of cfg hist data data']) (simp_all add: ledgerPart_def)
  then show ?case using controlStep_typed control by blast
qed

subsection \<open>Properties of the control plane\<close>

text \<open>
  C14. The control plane is well typed in every reachable snapshot, whatever control-plane mutations and
  ledger steps led to it. Every tenant, source, schema, policy, hold and restore run stands under the key
  its own identity gives; its identifiers are admissible; sources, schemas, policies and holds belong to
  registered tenants; client lists are sorted, without duplicates and within their cap; schema versions
  are positive and within the field caps; retention days are not negative; hold windows are empty or
  run forward; and a restore run is undecided or was decided once by somebody other than its requester.
\<close>

theorem control_plane_well_typed: "systemReach cfg hist data \<Longrightarrow> controlTyped data"
  using systemReach_typed by blast

definition exampleSchemaRequest :: EventSchema where
  "exampleSchemaRequest = exampleSchema\<lparr>es_Active := False\<rparr>"

lemma example_steps:
  "CreateTenant exampleConfig ''f1'' 0 ''ops'' (exampleTenant\<lparr>tn_Active := False\<rparr>) NewSnapshot = Inr d1
    \<Longrightarrow> AddSource exampleConfig ''f2'' 0 ''ops'' exampleSource d1 = Inr d2
    \<Longrightarrow> RegisterSchema exampleConfig ''f3'' 0 ''ops'' exampleSchemaRequest d2 = Inr d3 \<Longrightarrow> systemReach exampleConfig (\<lambda>_. []) d3"
  by (blast intro: systemReach.intros controlStep.intros)

lemma example_system: "systemReach exampleConfig (\<lambda>_. []) exampleData"
proof (rule example_steps)
  let ?d1 = "NewSnapshot\<lparr>sn_Tenants := [(''t1'', exampleTenant)],
     sn_AdminActions := [adminAction ''f1'' 0 ''t1'' ''ops'' ''tenant.created'' ''tenant'' ''t1'' '''']\<rparr>"
  let ?d2 = "?d1\<lparr>sn_Sources := [(SourceKey ''t1'' ''crm'', exampleSource)], sn_AdminActions := sn_AdminActions ?d1
     @ [adminAction ''f2'' 0 ''t1'' ''ops'' ''source.created'' ''source'' ''crm'' ''allowed_client_ids=[svc]'']\<rparr>"
  show "CreateTenant exampleConfig ''f1'' 0 ''ops'' (exampleTenant\<lparr>tn_Active := False\<rparr>) NewSnapshot = Inr ?d1" by code_simp
  show "AddSource exampleConfig ''f2'' 0 ''ops'' exampleSource ?d1 = Inr ?d2" by code_simp
  show "RegisterSchema exampleConfig ''f3'' 0 ''ops'' exampleSchemaRequest ?d2 = Inr exampleData" by code_simp
qed

theorem control_plane_well_typed_witness:
  "systemReach exampleConfig (\<lambda>_. []) exampleData \<and> mget (sn_Sources exampleData) (SourceKey ''t1'' ''crm'') = Some exampleSource
   \<and> controlTyped exampleData"
  using control_plane_well_typed [OF example_system] example_system by (simp add: exampleData_def exampleSnapshot_def mget_def)

subsection \<open>Retention periods\<close>

text \<open>Up to 106751 days, the largest number of whole days an int64 duration holds, the cutoff is exact.\<close>

lemma retentionCutoff_exact: "0 \<le> days \<Longrightarrow> days \<le> 106751 \<Longrightarrow> retentionCutoff now days = now - days * ns_per_day"
  by (simp add: retentionCutoff_def wrap64_def ns_per_day_def)

lemma retention_counts:
  assumes "requireTenantScope t = None" "mget (sn_Policies data) t = Some p" "now \<noteq> 0"
  shows "\<exists>report. EvaluateRetention cfg clock t now data = Inr report \<and> rr_Policy report = p
    \<and> rr_EligibleEvents report + rr_ProtectedEvents report
        = int (length (filter (retentionDue t p (retentionCutoff now (rp_ArchiveDays p))) (mvals (sn_Events data))))"
proof -
  have "length (filter P xs) + length (filter (\<lambda>x. \<not> P x) xs) = length xs" for P and xs :: "Event list"
    by (rule sum_length_filter_compl)
  then show ?thesis using assms by (simp add: EvaluateRetention_def guardE_def Let_def of_nat_add [symmetric] del: of_nat_add filter_filter)
qed

text \<open>
  C35. A retention period is not always the period it says. The cutoff is a product of int64 values, and a
  policy is admitted with any number of days: under a policy of 213504 days, five hundred and eighty-four
  years, the product wraps around and every hot event of the class that occurred at least 1526290448384
  nanoseconds, some twenty-five minutes, before the evaluation is counted as due for the archive.
\<close>

theorem retention_period_wraps:
  assumes "requireTenantScope t = None" "mget (sn_Policies data) t = Some p" "rp_ArchiveDays p = 213504" "now \<noteq> 0"
  shows "\<exists>report. EvaluateRetention cfg clock t now data = Inr report
    \<and> rr_EligibleEvents report + rr_ProtectedEvents report
        = int (length (filter (\<lambda>e. ev_TenantID e = t \<and> ev_RetentionClass e = rp_RetentionClass p
            \<and> ev_OccurredAt e \<le> now - 1526290448384) (mvals (sn_Events data))))"
proof -
  have "retentionDue t p (retentionCutoff now 213504)
      = (\<lambda>e. ev_TenantID e = t \<and> ev_RetentionClass e = rp_RetentionClass p \<and> ev_OccurredAt e \<le> now - 1526290448384)"
    using assms(3) by (simp add: retentionDue_def retentionCutoff_def wrap64_def fun_eq_iff not_less)
  then show ?thesis using retention_counts [OF assms(1,2,4), of cfg clock] assms(3) by auto
qed

definition examplePolicy :: RetentionPolicy where
  "examplePolicy = \<lparr>rp_TenantID = ''t1'', rp_HotDays = 30, rp_WarmDays = 90, rp_ArchiveDays = 213504, rp_RetentionClass = ''standard''\<rparr>"

theorem retention_period_wraps_witness:
  "\<exists>data report. SetRetentionPolicy exampleConfig ''f4'' 9 ''ops'' examplePolicy
       (exampleData\<lparr>sn_Events := [(EventKey ''t1'' ''e1'', exampleEvent)]\<rparr>) = Inr data
     \<and> EvaluateRetention exampleConfig 0 ''t1'' (700001 * ns_per_day) data = Inr report
     \<and> rr_EligibleEvents report + rr_ProtectedEvents report = 1"
proof -
  let ?data = "exampleData\<lparr>sn_Events := [(EventKey ''t1'' ''e1'', exampleEvent)]\<rparr>"
  obtain data where d: "SetRetentionPolicy exampleConfig ''f4'' 9 ''ops'' examplePolicy ?data = Inr data"
    "mget (sn_Policies data) ''t1'' = Some examplePolicy" "sn_Events data = [(EventKey ''t1'' ''e1'', exampleEvent)]"
  proof -
    have "firstErr [requireTenantScope (rp_TenantID examplePolicy),
        if rp_TenantID examplePolicy = '''' \<or> TrimSpace (rp_RetentionClass examplePolicy) = '''' \<or> rp_ArchiveDays examplePolicy < 0
           \<or> rp_HotDays examplePolicy < 0 \<or> rp_WarmDays examplePolicy < 0
          then Some (Err ErrInvalid ''invalid retention policy'') else None] = None" by code_simp
    moreover have "mget (sn_Tenants exampleData) ''t1'' \<noteq> None" by (simp add: exampleData_def mget_def)
    ultimately show ?thesis
      by (intro that) (auto simp: SetRetentionPolicy_def guardE_def appendAdminAction_def mget_mput examplePolicy_def)
  qed
  have scope: "requireTenantScope ''t1'' = None" by code_simp
  have "\<exists>report. EvaluateRetention exampleConfig 0 ''t1'' (700001 * ns_per_day) data = Inr report
      \<and> rr_EligibleEvents report + rr_ProtectedEvents report = 1"
    using retention_period_wraps [OF scope d(2), of "700001 * ns_per_day" exampleConfig 0] d(3)
    by (simp add: mvals_def exampleEvent_def examplePolicy_def ns_per_day_def)
  then show ?thesis using d(1) by blast
qed

end
