(* ===== verification/Retrieval.thy ===== *)
theory Retrieval
  imports Timeline Control
begin

section \<open>Committed evidence can be read\<close>

text \<open>
  Over the reachable snapshots of the evidence chain: every committed event, hot or archived, passes the
  authentication every read performs, so single reads, timelines, replays and the export gate see
  exactly the ledger. The schemas must stand under their own keys, which the control plane keeps
  (theory \<open>Control\<close>), and the archive must give back what was stored.
\<close>

subsection \<open>Committed events carry an identity\<close>

lemma prepared_identified:
  assumes "preparedFrom cfg data p"
  shows "requireTenantScope (pr_TenantID p) = None \<and> pr_TenantID p \<noteq> '''' \<and> ev_EventID (pr_Event p) \<noteq> '''' \<and> ev_OccurredAt (pr_Event p) \<noteq> 0"
proof -
  obtain rnd data0 quotas quotas' now hint client event0 waitFor where
    prep: "ingestPrepare cfg rnd data0 quotas now hint client event0 waitFor = (Inr p, quotas')"
    using assms unfolding preparedFrom_def by blast
  obtain d schema where basic: "ValidateBasic event0 = None" and scope: "requireTenantScope (pr_TenantID p) = None"
    and prot: "protectSensitiveFields cfg rnd ((stampEvent cfg now (pr_TenantID p) event0)\<lparr>ev_SourceDigest := d\<rparr>) schema = Inr (pr_Event p)"
    using ingestPrepare_Inr [OF prep] by blast
  obtain q where q: "pr_Event p = (stampEvent cfg now (pr_TenantID p) event0)\<lparr>ev_SourceDigest := d, ev_Payload := q\<rparr>"
    using protect_keeps [OF prot] by auto
  have all: "\<forall>c \<in> set (map checkRequired (requiredFields event0) @ basicChecks event0). c = None"
    using basic by (simp add: ValidateBasic_def firstErr_None_iff)
  then have "checkRequired (''event_id'', ev_EventID event0) = None"
    "(if ev_OccurredAt event0 = 0 then Some (Err ErrInvalid ''occurred_at is required'') else None) = None"
    by (simp_all add: requiredFields_def basicChecks_def)
  then have "TrimSpace (ev_EventID event0) \<noteq> ''''" "ev_OccurredAt event0 \<noteq> 0"
    by (auto simp: checkRequired_def split: if_splits)
  moreover have "TrimSpace [] = []" by code_simp
  ultimately have "ev_EventID event0 \<noteq> ''''" "ev_OccurredAt event0 \<noteq> 0" by auto
  moreover have "pr_TenantID p \<noteq> ''''" using scope by (auto simp: requireTenantScope_def split: if_splits)
  ultimately show ?thesis using scope by (simp add: q stampEvent_def)
qed

definition identified :: "Event \<Rightarrow> bool" where
  "identified e \<longleftrightarrow> requireTenantScope (ev_TenantID e) = None \<and> ev_TenantID e \<noteq> '''' \<and> ev_EventID e \<noteq> '''' \<and> ev_StreamID e \<noteq> '''' \<and> ev_OccurredAt e \<noteq> 0"

lemma ledgerReach_identified:
  assumes "ledgerReach cfg hist data" and ae: "aead_ok (cf_Aead cfg)"
  shows "\<forall>key. \<forall>e \<in> set (hist key). identified e"
  using assms(1)
proof (induction rule: ledgerReach.induct)
  case (commit hist data p get newID hint client r e sealed data' key)
  have app: "appendLedger cfg newID (pr_TenantID p) (pr_Event p) data = Inr (e, sealed, data')"
    using ingestCommit_Committed [OF commit.hyps(3)] by blast
  obtain h where e: "e = (pr_Event p)\<lparr>ev_StreamID := Stream (pr_Event p),
      ev_Sequence := st_NextSequence (currentStream data (pr_TenantID p) (Stream (pr_Event p))),
      ev_PrevHash := st_HeadHash (currentStream data (pr_TenantID p) (Stream (pr_Event p))), ev_Hash := h\<rparr>"
    using placeEvent_Inr [OF conjunct1 [OF appendLedger_Inr [OF app]]] by auto
  have "preparedOK cfg (sn_Schemas data) p" by (rule preparedFrom_OK [OF commit.hyps(2) ae])
  then have "identified e" using prepared_identified [OF commit.hyps(2)] by (simp add: e identified_def preparedOK_def)
  then show ?case using commit.IH by simp
qed simp_all

subsection \<open>Schemas under their own keys\<close>

definition schemasKeyed :: "EventSchema gomap \<Rightarrow> bool" where
  "schemasKeyed schemas \<longleftrightarrow>
     (\<forall>(k, s) \<in> set schemas. k = SchemaKey (es_TenantID s) (es_SchemaID s) (es_Version s) \<and> KeySeparator \<notin> set (es_TenantID s))"

lemma takeWhile_upto: "c \<notin> set as \<Longrightarrow> takeWhile (\<lambda>x. x \<noteq> c) (as @ c # zs) = as"
  by (induction as) auto

lemma requireTenantScope_separator: "requireTenantScope t = None \<Longrightarrow> KeySeparator \<notin> set t"
  using ValidKeyComponent_no_separator by (auto simp: requireTenantScope_None_iff)

lemma systemReach_keyed: "systemReach cfg hist data \<Longrightarrow> ledgerReach cfg hist data \<and> schemasKeyed (sn_Schemas data)"
  using systemReach_typed [of cfg hist data] requireTenantScope_separator
  by (fastforce simp: controlTyped_def allEntries_def schemasKeyed_def schemaTyped_def)

lemma last_separator:
  assumes "xs @ [c] @ as = ys @ [c] @ bs" "c \<notin> set as" "c \<notin> set bs"
  shows "xs = ys \<and> as = bs"
proof -
  have "takeWhile (\<lambda>x. x \<noteq> c) (rev (xs @ [c] @ as)) = rev as" "takeWhile (\<lambda>x. x \<noteq> c) (rev (ys @ [c] @ bs)) = rev bs"
    using assms(2,3) takeWhile_upto [of c "rev as"] takeWhile_upto [of c "rev bs"] by simp_all
  then have "as = bs" using assms(1) by (metis rev_rev_ident)
  then show ?thesis using assms(1) by simp
qed

lemma itoa_no_separator: "KeySeparator \<notin> set (itoa v)"
  using number_chars_itoa [of v] by (auto simp: number_chars_def KeySeparator_char is_digit_def)

lemma SchemaKey_body:
  assumes "SchemaKey t s v = SchemaKey t' s' v'" "KeySeparator \<notin> set t" "KeySeparator \<notin> set t'"
  shows "t = t' \<and> s = s' \<and> v = v'"
proof -
  have "t = t'" "s @ [KeySeparator] @ itoa v = s' @ [KeySeparator] @ itoa v'"
    using assms schema_key.frame_inj [of t t' "s @ [KeySeparator] @ itoa v" "s' @ [KeySeparator] @ itoa v'"]
    by (auto simp: SchemaKey_frames)
  moreover from this(2) have "s = s' \<and> itoa v = itoa v'"
    by (rule last_separator) (simp_all add: itoa_no_separator)
  ultimately show ?thesis using itoa_inj by blast
qed

lemma logged_schema:
  assumes "contentOK cfg schemas e" "schemasKeyed schemas" "KeySeparator \<notin> set (ev_TenantID e)"
  shows "\<exists>schema. mget schemas (SchemaKey (ev_TenantID e) (ev_SchemaID e) (ev_SchemaVersion e)) = Some schema
    \<and> schemaBody (ev_TenantID e) e schema"
proof -
  obtain schema where s: "mget schemas (SchemaKey (ev_TenantID e) (ev_SchemaID e) (ev_SchemaVersion e)) = Some schema"
    using assms(1) by (auto simp: contentOK_def reconstructEventForDigest_def rbind_eq_Inr split: option.splits)
  then have "SchemaKey (ev_TenantID e) (ev_SchemaID e) (ev_SchemaVersion e) = SchemaKey (es_TenantID schema) (es_SchemaID schema) (es_Version schema)"
    "KeySeparator \<notin> set (es_TenantID schema)"
    using assms(2) map_of_SomeD [of schemas] by (auto simp: schemasKeyed_def mget_def)
  from SchemaKey_body [OF this(1) assms(3) this(2)] s show ?thesis by (auto simp: schemaBody_def)
qed

subsection \<open>Every committed event authenticates\<close>

lemma logged_identified: "\<forall>key. \<forall>e \<in> set (hist key). identified e \<Longrightarrow> logged hist e \<Longrightarrow> identified e"
  by (auto simp: logged_def)

lemma logged_sequence:
  assumes "ledgerInv cfg hist data" "logged hist e"
  shows "ev_Sequence e > 0"
proof -
  let ?es = "hist (StreamKey (ev_TenantID e) (ev_StreamID e))"
  have ch: "chained [] 1 ?es" using logged_stream [OF assms] by (auto simp: streamOK_def)
  obtain i where i: "i < length ?es" "?es ! i = e" using assms(2) by (auto simp: logged_def in_set_conv_nth)
  from chained_nth [OF ch i(1)] show ?thesis unfolding i(2) by simp
qed

lemma logged_validates:
  assumes inv: "ledgerInv cfg hist data" and e: "logged hist e" and ident: "identified e" and r: "receiptOf r e"
    and content: "contentOK cfg schemas e"
  shows "validatePublicationEvent cfg e r schemas = None"
proof -
  have "eventHash e = Inr (ev_Hash e)" by (rule logged_hash [OF inv e])
  moreover from this have "ev_Hash e \<noteq> []" by (auto simp: eventHash_def rbind_eq_Inr)
  ultimately show ?thesis
    using ident r logged_sequence [OF inv e] contentOK_verifies [OF content]
    by (simp add: validatePublicationEvent_def receiptOf_def identified_def)
qed

lemma logged_resolves:
  assumes inv: "ledgerInv cfg hist data" and rd: "evictedReadable cfg get hist data" and e: "logged hist e" and ident: "identified e"
    and r: "receiptOf r e" and content: "contentOK cfg schemas e" and keyed: "schemasKeyed schemas"
    and ev: "ev = Some e \<or> ev = None \<and> mget (sn_Events data) (eventKeyOf e) = None"
  shows "resolveQueryEvidence cfg get \<lparr>qe_receipt = r, qe_event = ev, qe_schemas = schemas\<rparr> = Inr e"
proof -
  have "KeySeparator \<notin> set (ev_TenantID e)" using inv e by (auto simp: ledgerInv_def membersOK_def logged_def)
  from logged_schema [OF content keyed this] obtain schema where s:
    "mget schemas (SchemaKey (ev_TenantID e) (ev_SchemaID e) (ev_SchemaVersion e)) = Some schema" "schemaBody (ev_TenantID e) e schema"
    by blast
  have read: "(case ev of Some x \<Rightarrow> Inr x | None \<Rightarrow> archivedEvent cfg get r) = Inr e"
    using ev archivedEvent_readable [OF _ _ r logged_hash [OF inv e]] rd e by (auto simp: evictedReadable_def)
  show ?thesis
    using s logged_validates [OF inv e ident r content] read by (cases ev) (simp_all add: resolveQueryEvidence_def guardE_def)
qed

lemma logged_receipt:
  assumes "ledgerInv cfg hist data" "logged hist e"
  obtains r where "mget (sn_Receipts data) (eventKeyOf e) = Some r" "receiptOf r e"
    "rc_Status r \<noteq> StatusArchived \<longrightarrow> mget (sn_Events data) (eventKeyOf e) = Some e"
    "mget (sn_Events data) (eventKeyOf e) = None \<or> mget (sn_Events data) (eventKeyOf e) = Some e"
proof -
  have ok: "receiptsOK hist (sn_Receipts data) (sn_Events data)" and members: "membersOK cfg hist (sn_Schemas data)"
    using assms(1) by (simp_all add: ledgerInv_def)
  have "mget (sn_Events data) (eventKeyOf e) = Some e" if "mget (sn_Events data) (eventKeyOf e) = Some e'" for e'
  proof -
    have "logged hist e'" "eventKeyOf e = eventKeyOf e'" using ok that by (auto simp: receiptsOK_def)
    then show ?thesis using that members assms(2) by (auto simp: membersOK_def)
  qed
  then have "mget (sn_Events data) (eventKeyOf e) = None \<or> mget (sn_Events data) (eventKeyOf e) = Some e" by (cases "mget (sn_Events data) (eventKeyOf e)") auto
  then show thesis using receiptsOK_receipt [OF ok assms(2)] that by blast
qed

lemma committedEvidence_logged:
  assumes inv: "ledgerInv cfg hist data" and rd: "evictedReadable cfg get hist data" and e: "logged hist e" and ident: "identified e"
    and keyed: "schemasKeyed (sn_Schemas data)"
  shows "committedEvidence cfg get data (eventKeyOf e) = Inr e"
proof -
  obtain r where r: "mget (sn_Receipts data) (eventKeyOf e) = Some r" "receiptOf r e"
    "rc_Status r \<noteq> StatusArchived \<longrightarrow> mget (sn_Events data) (eventKeyOf e) = Some e"
    "mget (sn_Events data) (eventKeyOf e) = None \<or> mget (sn_Events data) (eventKeyOf e) = Some e"
    by (rule logged_receipt [OF inv e])
  have content: "contentOK cfg (sn_Schemas data) e" using logged_content [OF _ e] inv by (simp add: ledgerInv_def)
  note res = logged_resolves [OF inv rd e ident r(2) content keyed]
  show ?thesis
  proof (cases "mget (sn_Events data) (eventKeyOf e)")
    case None
    then show ?thesis using r(1,3) res [of None] by (simp add: committedEvidence_def mget_or_def)
  next
    case (Some e')
    then show ?thesis using r(1,4) res [of "Some e"] by (simp add: committedEvidence_def mget_or_def)
  qed
qed

lemma committedEvidence_schema:
  assumes inv: "ledgerInv cfg hist data" and e: "logged hist e" and keyed: "schemasKeyed (sn_Schemas data)"
  shows "\<exists>schema. exactSchema m data (ev_TenantID e) e = Inr schema"
proof -
  have "contentOK cfg (sn_Schemas data) e" "KeySeparator \<notin> set (ev_TenantID e)"
    using logged_content [OF _ e] inv e by (auto simp: ledgerInv_def membersOK_def logged_def)
  from logged_schema [OF this(1) keyed this(2)] show ?thesis by (auto simp: exactSchema_def mget_or_def)
qed

subsection \<open>The receipts of a tenant are its log\<close>

lemma SplitTenantKey_tenant:
  assumes "KeySeparator \<notin> set t"
  shows "SplitTenantKey (EventKey t i) = (t', rest, True) \<Longrightarrow> t' = t"
proof -
  assume "SplitTenantKey (EventKey t i) = (t', rest, True)"
  then have "t @ [KeySeparator] @ i = t' @ [KeySeparator] @ rest" "KeySeparator \<notin> set t'"
    by (auto simp: SplitTenantKey_ok_iff EventKey_def)
  then show "t' = t" using event_key.frame_inj [OF assms, of t' i rest] by (simp add: EventKey_def)
qed

lemma owned_receipts:
  assumes inv: "ledgerInv cfg hist data" and kr: "(k, r) \<in> set (sn_Receipts data)"
  shows "\<exists>e. logged hist e \<and> k = eventKeyOf e \<and> receiptOf r e \<and> (ownsReceipt t k r \<longleftrightarrow> ev_TenantID e = t)"
proof -
  have "mget (sn_Receipts data) k = Some r" using kr inv mget_wf by (auto simp: ledgerInv_def)
  then obtain e where e: "logged hist e" "k = eventKeyOf e" "receiptOf r e"
    using inv by (auto simp: ledgerInv_def receiptsOK_def)
  have sep: "KeySeparator \<notin> set (ev_TenantID e)" using inv e(1) by (auto simp: ledgerInv_def membersOK_def logged_def)
  have "ownsReceipt t k r \<longleftrightarrow> ev_TenantID e = t"
    using e(2,3) SplitTenantKey_tenant [OF sep, of "ev_EventID e"]
    by (cases "SplitTenantKey k") (auto simp: ownsReceipt_def receiptOf_def eventKeyOf_def)
  with e show ?thesis by blast
qed

lemma tenantReceiptKeys_log:
  assumes inv: "ledgerInv cfg hist data"
  shows "\<exists>keys. tenantReceiptKeys m data t = Inr keys \<and> set keys = eventKeyOf ` {e. logged hist e \<and> ev_TenantID e = t}"
proof -
  let ?owned = "filter (\<lambda>kr. ownsReceipt t (fst kr) (snd kr)) (sn_Receipts data)"
  have ok: "rc_TenantID (snd kr) = t \<and> fst kr = EventKey t (rc_EventID (snd kr))" if "kr \<in> set ?owned" for kr
  proof -
    have kr: "(fst kr, snd kr) \<in> set (sn_Receipts data)" "ownsReceipt t (fst kr) (snd kr)" using that by simp_all
    obtain e where "fst kr = eventKeyOf e" "receiptOf (snd kr) e" "ev_TenantID e = t"
      using kr(2) owned_receipts [OF inv kr(1), of t] by blast
    then show ?thesis by (simp add: receiptOf_def eventKeyOf_def)
  qed
  have "set (map fst ?owned) = eventKeyOf ` {e. logged hist e \<and> ev_TenantID e = t}"
  proof (intro equalityI subsetI)
    fix k assume "k \<in> set (map fst ?owned)"
    then obtain r where r: "(k, r) \<in> set (sn_Receipts data)" "ownsReceipt t k r" by auto
    from owned_receipts [OF inv r(1), of t] r(2) show "k \<in> eventKeyOf ` {e. logged hist e \<and> ev_TenantID e = t}" by blast
  next
    fix k assume "k \<in> eventKeyOf ` {e. logged hist e \<and> ev_TenantID e = t}"
    then obtain e where e: "logged hist e" "ev_TenantID e = t" "k = eventKeyOf e" by blast
    obtain r where r: "mget (sn_Receipts data) k = Some r" "receiptOf r e" using logged_receipt [OF inv e(1)] e(3) by metis
    then have "(k, r) \<in> set (sn_Receipts data)" by (auto simp: mget_def dest: map_of_SomeD)
    then show "k \<in> set (map fst ?owned)" using r(2) e(2) by (force simp: ownsReceipt_def receiptOf_def)
  qed
  moreover have "\<not> (\<exists>kr \<in> set ?owned. rc_TenantID (snd kr) \<noteq> t \<or> fst kr \<noteq> EventKey t (rc_EventID (snd kr)))" using ok by blast
  then have "tenantReceiptKeys m data t = Inr (sort_slice (<) (map fst ?owned))"
    unfolding tenantReceiptKeys_def Let_def by (simp only: if_False)
  ultimately show ?thesis by (simp only: sum.inject set_sort_slice ex_simps simp_thms)
qed

lemma timelineScan_log:
  assumes inv: "ledgerInv cfg hist data" and rd: "evictedReadable cfg get hist data" and ident: "\<forall>key. \<forall>e \<in> set (hist key). identified e"
    and keyed: "schemasKeyed (sn_Schemas data)" and "set keys \<subseteq> eventKeyOf ` {e. logged hist e \<and> ev_TenantID e = t}"
  shows "\<exists>events. timelineScan cfg get data t predicate keys = Inr events
    \<and> set events = {e. logged hist e \<and> eventKeyOf e \<in> set keys \<and> predicate e}"
  using assms(5)
proof (induction keys)
  case (Cons key keys)
  then obtain e where e: "logged hist e" "ev_TenantID e = t" "key = eventKeyOf e" by auto
  obtain events where ih: "timelineScan cfg get data t predicate keys = Inr events"
    "set events = {e. logged hist e \<and> eventKeyOf e \<in> set keys \<and> predicate e}" using Cons by auto
  obtain schema where s: "exactSchema ''timeline schema identity mismatch'' data t e = Inr schema"
    using committedEvidence_schema [OF inv e(1) keyed] e(2) by blast
  have only: "logged hist e' \<Longrightarrow> eventKeyOf e' = key \<longleftrightarrow> e' = e" for e'
    using inv e by (auto simp: ledgerInv_def membersOK_def)
  have "committedEvidence cfg get data key = Inr e"
    using committedEvidence_logged [OF inv rd e(1) logged_identified [OF ident e(1)] keyed] e(3) by simp
  then have "timelineScan cfg get data t predicate (key # keys) = Inr (if predicate e then e # events else events)"
    using ih(1) s by simp
  moreover have "set (if predicate e then e # events else events) = {e. logged hist e \<and> eventKeyOf e \<in> set (key # keys) \<and> predicate e}"
    using ih(2) only e by auto
  ultimately show ?case by blast
qed simp

lemma readTimelineEvidence_log:
  assumes inv: "ledgerInv cfg hist data" and rd: "evictedReadable cfg get hist data" and ident: "\<forall>key. \<forall>e \<in> set (hist key). identified e"
    and keyed: "schemasKeyed (sn_Schemas data)" and some: "logged hist e0" "ev_TenantID e0 = t" "predicate e0"
  shows "\<exists>events. readTimelineEvidence cfg get data t predicate = Inr events
    \<and> set events = {e. logged hist e \<and> ev_TenantID e = t \<and> predicate e}"
proof -
  obtain keys where keys: "tenantReceiptKeys ''timeline receipt identity mismatch'' data t = Inr keys"
    "set keys = eventKeyOf ` {e. logged hist e \<and> ev_TenantID e = t}"
    using tenantReceiptKeys_log [OF inv] by blast
  obtain events where ev: "timelineScan cfg get data t predicate keys = Inr events"
    "set events = {e. logged hist e \<and> eventKeyOf e \<in> set keys \<and> predicate e}"
    using timelineScan_log [OF inv rd ident keyed] keys(2) by blast
  have "eventKeyOf e \<in> set keys \<longleftrightarrow> ev_TenantID e = t" if "logged hist e" for e
    using that inv by (auto simp: keys(2) ledgerInv_def membersOK_def)
  then have "set events = {e. logged hist e \<and> ev_TenantID e = t \<and> predicate e}" using ev(2) by auto
  moreover from this have "events \<noteq> []" using some by (metis (mono_tags, lifting) empty_iff empty_set mem_Collect_eq)
  ultimately show ?thesis using keys(1) ev(1) by (simp add: readTimelineEvidence_def)
qed

subsection \<open>Reading one event\<close>

lemma contentOK_schema:
  assumes "contentOK cfg schemas e"
    and "mget schemas' (SchemaKey (ev_TenantID e) (ev_SchemaID e) (ev_SchemaVersion e)) = mget schemas (SchemaKey (ev_TenantID e) (ev_SchemaID e) (ev_SchemaVersion e))"
  shows "contentOK cfg schemas' e"
  using assms by (simp add: contentOK_def reconstructEventForDigest_def)

lemma map_of_filter: "map_of xs k = Some v \<Longrightarrow> P (k, v) \<Longrightarrow> map_of (filter P xs) k = Some v"
  by (induction xs) (auto split: if_splits)

lemma candidate_logged:
  assumes inv: "ledgerInv cfg hist data" and rd: "evictedReadable cfg get hist data" and e: "logged hist e" and ident: "identified e"
    and keyed: "schemasKeyed (sn_Schemas data)"
    and ref: "er_EventID ref = ev_EventID e" "er_StreamID ref = '''' \<or> ref = \<lparr>er_OccurredAt = ev_OccurredAt e, er_EventID = ev_EventID e,
       er_StreamID = ev_StreamID e, er_Sequence = ev_Sequence e, er_Hash = ev_Hash e\<rparr>"
  shows "\<exists>c. evidenceCandidates data (ev_TenantID e) (ref # refs) = rbind (evidenceCandidates data (ev_TenantID e) refs) (\<lambda>cs. Inr (c # cs))
    \<and> resolveQueryEvidence cfg get c = Inr e"
proof -
  let ?skey = "SchemaKey (ev_TenantID e) (ev_SchemaID e) (ev_SchemaVersion e)"
  let ?own = "filter (\<lambda>ks. es_TenantID (snd ks) = ev_TenantID e) (sn_Schemas data)"
  obtain r where r: "mget (sn_Receipts data) (eventKeyOf e) = Some r" "receiptOf r e"
    "rc_Status r \<noteq> StatusArchived \<longrightarrow> mget (sn_Events data) (eventKeyOf e) = Some e"
    "mget (sn_Events data) (eventKeyOf e) = None \<or> mget (sn_Events data) (eventKeyOf e) = Some e"
    by (rule logged_receipt [OF inv e])
  have content: "contentOK cfg (sn_Schemas data) e" and sep: "KeySeparator \<notin> set (ev_TenantID e)"
    using logged_content [OF _ e] inv e by (auto simp: ledgerInv_def membersOK_def logged_def)
  obtain schema where s: "mget (sn_Schemas data) ?skey = Some schema" "schemaBody (ev_TenantID e) e schema"
    using logged_schema [OF content keyed sep] by blast
  have one: "contentOK cfg [(?skey, schema)] e" "schemasKeyed [(?skey, schema)]"
    using contentOK_schema [OF content, of "[(?skey, schema)]"] s sep by (auto simp: mget_def schemasKeyed_def schemaBody_def)
  have "mget ?own ?skey = Some schema" using s by (auto simp: mget_def schemaBody_def intro: map_of_filter)
  then have own: "contentOK cfg ?own e" "schemasKeyed ?own"
    using contentOK_schema [OF content, of ?own] s keyed by (auto simp: schemasKeyed_def)
  have id: "rc_TenantID r = ev_TenantID e" "rc_EventID r = er_EventID ref"
    "er_StreamID ref = '''' \<or> er_StreamID ref = rc_StreamID r \<and> er_Sequence ref = rc_Sequence r \<and> er_Hash ref = rc_Hash r"
    using r(2) ref by (auto simp: receiptOf_def)
  have key: "EventKey (ev_TenantID e) (er_EventID ref) = eventKeyOf e" using ref by (simp add: eventKeyOf_def)
  show ?thesis
  proof (cases "mget (sn_Events data) (eventKeyOf e)")
    case None
    let ?c = "\<lparr>qe_receipt = r, qe_event = None, qe_schemas = ?own\<rparr>"
    have "resolveQueryEvidence cfg get ?c = Inr e"
      by (rule logged_resolves [OF inv rd e ident r(2) own]) (use None in simp)
    then show ?thesis using None r(1,3) id key by (intro exI [of _ ?c]) auto
  next
    case (Some e')
    let ?c = "\<lparr>qe_receipt = r, qe_event = Some e, qe_schemas = [(?skey, schema)]\<rparr>"
    have "resolveQueryEvidence cfg get ?c = Inr e"
      by (rule logged_resolves [OF inv rd e ident r(2) one]) simp
    then show ?thesis using Some r(1,4) id key contentOK_clone [OF content] s(1) by (intro exI [of _ ?c]) auto
  qed
qed


subsection \<open>Timelines are complete\<close>

lemma set_card_length: "set xs = S \<Longrightarrow> distinct xs \<Longrightarrow> card S = length xs"
  using distinct_card by blast


text \<open>
  The same for an aggregate's timeline in version order, where no committed event of the aggregate
  carries a negative version. (Nothing refuses such an event at ingest, and the cursor of a page that
  ends on one is refused.)
\<close>

lemma aggregate_timeline_complete:
  assumes sys: "systemReach cfg hist data" and ae: "aead_ok (cf_Aead cfg)"
    and rd: "evictedReadable cfg get hist data" and size: "timelinePageSize pageSize = Inr n"
    and members: "S = {e. logged hist e \<and> ev_TenantID e = tenantID \<and> ev_AggregateType e = aggregateType \<and> ev_AggregateID e = aggregateID}"
    and some: "S \<noteq> {}" and versions: "\<forall>e \<in> S. ev_AggregateVersion e \<ge> 0"
    and reader: "\<forall>e \<in> S. readsCursor unmarshal (timelineCursorFor ''aggregate'' (aggregateType @ [CHR 0x1F] @ aggregateID) e)"
  shows "\<exists>pages. followPages (\<lambda>cursor. servedPage
            (AggregateTimelinePage cfg get unmarshal newID now tenantID actor aggregateType aggregateID pageSize cursor data trail))
          (Suc (card S)) '''' = Some pages
      \<and> set (concat pages) = S \<and> distinct (concat pages) \<and> sorted_wrt aggregateLess (concat pages)
      \<and> (\<forall>p \<in> set pages. int (length p) \<le> MaxPageSize)"
proof -
  have reach: "ledgerReach cfg hist data" and keyed: "schemasKeyed (sn_Schemas data)" using systemReach_keyed [OF sys] by blast+
  have inv: "ledgerInv cfg hist data" by (rule ledgerReach_inv [OF reach ae])
  note ident = ledgerReach_identified [OF reach ae]
  obtain e0 where e0: "logged hist e0" "ev_TenantID e0 = tenantID" "aggregateEvents aggregateType aggregateID e0"
    using some members by (auto simp: aggregateEvents_def)
  obtain events where ev: "readTimelineEvidence cfg get data tenantID (aggregateEvents aggregateType aggregateID) = Inr events" "set events = S"
    using readTimelineEvidence_log [OF inv rd ident keyed e0(1,2), where predicate = "aggregateEvents aggregateType aggregateID"] e0(3) members
    by (auto simp: aggregateEvents_def)
  have wf: "wf_map (sn_Receipts data)" using inv by (simp add: ledgerInv_def)
  have scope: "requireTenantScope tenantID = None" using logged_identified [OF ident e0(1)] e0(2) by (simp add: identified_def)
  have ids: "distinct (map ev_EventID events)" using readTimelineEvidence_events [OF ev(1) wf] by simp
  have srt: "sorted_wrt aggregateLess (sort_slice aggregateLess events)"
    using timeline_sorted [OF ids, of "''aggregate''"] by (simp add: timelineLess_def)
  have card: "card S = length events" using set_card_length [OF ev(2)] ids by (simp add: distinct_map)
  let ?page = "\<lambda>cursor. servedPage (AggregateTimelinePage cfg get unmarshal newID now tenantID actor aggregateType aggregateID pageSize cursor data trail)"
  have vs: "\<forall>e \<in> set events. ev_AggregateVersion e \<ge> 0" using versions ev(2) by simp
  have rd': "\<forall>e \<in> set events. readsCursor unmarshal (timelineCursorFor ''aggregate'' (aggregateType @ [CHR 0x1F] @ aggregateID) e)"
    using reader ev(2) by simp
  obtain pages where w: "followPages ?page (Suc (length events)) '''' = Some pages" "concat pages = sort_slice aggregateLess events"
    "distinct (concat pages)" "\<forall>p \<in> set pages. int (length p) \<le> MaxPageSize"
    using aggregate_walk [OF scope wf ev(1) size vs rd'] by blast
  have all: "set (concat pages) = S" unfolding w(2) set_sort_slice ev(2) ..
  have order: "sorted_wrt aggregateLess (concat pages)" unfolding w(2) by (rule srt)
  show ?thesis unfolding card by (rule exI [of _ pages]) (intro conjI w all order)
qed

subsection \<open>The export gate sees the whole ledger\<close>

text \<open>A hold covers a committed event that the query selects, both judged on the reconstructed plaintext.\<close>

definition coversSelected :: "Config \<Rightarrow> EventSchema gomap \<Rightarrow> Query \<Rightarrow> LegalHold \<Rightarrow> Event \<Rightarrow> bool" where
  "coversSelected cfg schemas q hold e \<longleftrightarrow>
     (case (reconstructEventForDigest cfg e schemas, mget schemas (SchemaKey (ev_TenantID e) (ev_SchemaID e) (ev_SchemaVersion e))) of
        (Inr source, Some schema) \<Rightarrow> matchesExportHoldEvidence cfg source schema q = Inr True \<and> holdCovers cfg source schema hold = Inr True
      | _ \<Rightarrow> False)"

lemma tenantReceiptKeys_text: "tenantReceiptKeys m data t = Inr keys \<Longrightarrow> tenantReceiptKeys m' data t = Inr keys"
  by (simp add: tenantReceiptKeys_def Let_def split: if_splits)

lemma holdSource_logged:
  assumes inv: "ledgerInv cfg hist data" and rd: "evictedReadable cfg get hist data" and e: "logged hist e" and ident: "identified e"
    and keyed: "schemasKeyed (sn_Schemas data)"
  shows "\<exists>source schema. holdSource cfg get data (ev_TenantID e) (eventKeyOf e) = Inr (source, schema)
    \<and> reconstructEventForDigest cfg e (sn_Schemas data) = Inr source
    \<and> mget (sn_Schemas data) (SchemaKey (ev_TenantID e) (ev_SchemaID e) (ev_SchemaVersion e)) = Some schema"
proof -
  have content: "contentOK cfg (sn_Schemas data) e" and sep: "KeySeparator \<notin> set (ev_TenantID e)"
    using logged_content [OF _ e] inv e by (auto simp: ledgerInv_def membersOK_def logged_def)
  obtain source where "reconstructEventForDigest cfg e (sn_Schemas data) = Inr source" using content by (auto simp: contentOK_def)
  moreover obtain schema where "mget (sn_Schemas data) (SchemaKey (ev_TenantID e) (ev_SchemaID e) (ev_SchemaVersion e)) = Some schema"
    "schemaBody (ev_TenantID e) e schema" using logged_schema [OF content keyed sep] by blast
  ultimately show ?thesis
    using committedEvidence_logged [OF inv rd e ident keyed] by (simp add: holdSource_def exactSchema_def mget_or_def)
qed

lemma sources_log:
  assumes inv: "ledgerInv cfg hist data" and rd: "evictedReadable cfg get hist data" and ident: "\<forall>key. \<forall>e \<in> set (hist key). identified e"
    and keyed: "schemasKeyed (sn_Schemas data)" and "set keys \<subseteq> eventKeyOf ` {e. logged hist e \<and> ev_TenantID e = t}"
  shows "\<exists>sources. map (holdSource cfg get data t) keys = map Inr sources
    \<and> (\<forall>source schema. (source, schema) \<in> set sources \<longleftrightarrow> (\<exists>e. logged hist e \<and> ev_TenantID e = t \<and> eventKeyOf e \<in> set keys
          \<and> reconstructEventForDigest cfg e (sn_Schemas data) = Inr source
          \<and> mget (sn_Schemas data) (SchemaKey (ev_TenantID e) (ev_SchemaID e) (ev_SchemaVersion e)) = Some schema))"
  using assms(5)
proof (induction keys)
  case (Cons key keys)
  then obtain e where e: "logged hist e" "ev_TenantID e = t" "key = eventKeyOf e" by auto
  obtain source schema where src: "holdSource cfg get data t key = Inr (source, schema)"
    "reconstructEventForDigest cfg e (sn_Schemas data) = Inr source"
    "mget (sn_Schemas data) (SchemaKey (ev_TenantID e) (ev_SchemaID e) (ev_SchemaVersion e)) = Some schema"
    using holdSource_logged [OF inv rd e(1) logged_identified [OF ident e(1)] keyed] e(2,3) by blast
  have only: "logged hist e' \<Longrightarrow> eventKeyOf e' = key \<longleftrightarrow> e' = e" for e'
    using inv e by (auto simp: ledgerInv_def membersOK_def)
  obtain sources where ih: "map (holdSource cfg get data t) keys = map Inr sources"
    "\<forall>source schema. (source, schema) \<in> set sources \<longleftrightarrow> (\<exists>e. logged hist e \<and> ev_TenantID e = t \<and> eventKeyOf e \<in> set keys
          \<and> reconstructEventForDigest cfg e (sn_Schemas data) = Inr source
          \<and> mget (sn_Schemas data) (SchemaKey (ev_TenantID e) (ev_SchemaID e) (ev_SchemaVersion e)) = Some schema)"
    using Cons by auto
  have "map (holdSource cfg get data t) (key # keys) = map Inr ((source, schema) # sources)" using src(1) ih(1) by simp
  moreover have "(source', schema') \<in> set ((source, schema) # sources) \<longleftrightarrow> (\<exists>e. logged hist e \<and> ev_TenantID e = t \<and> eventKeyOf e \<in> set (key # keys)
          \<and> reconstructEventForDigest cfg e (sn_Schemas data) = Inr source'
          \<and> mget (sn_Schemas data) (SchemaKey (ev_TenantID e) (ev_SchemaID e) (ev_SchemaVersion e)) = Some schema')" for source' schema'
    using ih(2) src(2,3) e only by (auto simp del: map_eq_Cons_conv)
  ultimately show ?case by blast
qed simp

text \<open>
  C5. The gate every export passes before its evidence is selected or written: in every reachable
  snapshot it answers, and its answer is exactly the active legal hold with the lowest ID that covers a
  committed event of the tenant the export's query selects, or none when no hold does. Neither the
  pre-filter on the time windows, which decides whether any evidence is read at all, nor the shrinking
  range of holds the scan compares changes the answer, and archived events count like hot ones.
\<close>

theorem export_hold_gate_exact:
  assumes sys: "systemReach cfg hist data" and ae: "aead_ok (cf_Aead cfg)"
    and rd: "evictedReadable cfg get hist data"
    and marshal: "\<forall>e source. logged hist e \<and> reconstructEventForDigest cfg e (sn_Schemas data) = Inr source
      \<longrightarrow> (\<forall>q \<in> insert (ej_Query job) (lh_Filter ` set (activeHolds data (ej_TenantID job))). marshals cfg q source)"
  shows "holdBlockingExportEvidence cfg get data job
    = Inr (find (\<lambda>hold. \<exists>e. logged hist e \<and> ev_TenantID e = ej_TenantID job \<and> coversSelected cfg (sn_Schemas data) (ej_Query job) hold e)
        (activeHolds data (ej_TenantID job)))"
proof -
  let ?t = "ej_TenantID job" and ?q = "ej_Query job"
  let ?covers = "\<lambda>hold. \<exists>e. logged hist e \<and> ev_TenantID e = ?t \<and> coversSelected cfg (sn_Schemas data) ?q hold e"
  have reach: "ledgerReach cfg hist data" and keyed: "schemasKeyed (sn_Schemas data)" using systemReach_keyed [OF sys] by blast+
  have inv: "ledgerInv cfg hist data" by (rule ledgerReach_inv [OF reach ae])
  obtain keys where k: "tenantReceiptKeys '''' data ?t = Inr keys" "set keys = eventKeyOf ` {e. logged hist e \<and> ev_TenantID e = ?t}"
    using tenantReceiptKeys_log [OF inv] by blast
  note keys = tenantReceiptKeys_text [OF k(1)] k(2)
  obtain sources where src: "map (holdSource cfg get data ?t) keys = map Inr sources"
    "\<forall>source schema. (source, schema) \<in> set sources \<longleftrightarrow> (\<exists>e. logged hist e \<and> ev_TenantID e = ?t \<and> eventKeyOf e \<in> set keys
          \<and> reconstructEventForDigest cfg e (sn_Schemas data) = Inr source
          \<and> mget (sn_Schemas data) (SchemaKey (ev_TenantID e) (ev_SchemaID e) (ev_SchemaVersion e)) = Some schema)"
    using sources_log [OF inv rd ledgerReach_identified [OF reach ae] keyed] keys(2) by blast
  have mem: "(source, schema) \<in> set sources \<longleftrightarrow> (\<exists>e. logged hist e \<and> ev_TenantID e = ?t
          \<and> reconstructEventForDigest cfg e (sn_Schemas data) = Inr source
          \<and> mget (sn_Schemas data) (SchemaKey (ev_TenantID e) (ev_SchemaID e) (ev_SchemaVersion e)) = Some schema)" for source schema
    using src(2) keys(2) by auto
  have "set (holdBlockingCandidates data ?t ?q) \<subseteq> set (activeHolds data ?t)" unfolding candidates_filter by auto
  then have "\<forall>(source, schema) \<in> set sources. marshals cfg ?q source
      \<and> (\<forall>h \<in> set (holdBlockingCandidates data ?t ?q). marshals cfg (lh_Filter h) source)"
    using mem marshal by blast
  from holdScan_total [OF src(1) this] have "\<not> isl (holdBlockingExportEvidence cfg get data job)"
    by (auto simp: holdBlockingExportEvidence_def Let_def keys(1) rbind_def isl_def split: sum.splits)
  then obtain blocked where b: "holdBlockingExportEvidence cfg get data job = Inr blocked"
    by (cases "holdBlockingExportEvidence cfg get data job") auto
  have "coveredBy cfg ?q sources = ?covers"
    unfolding coveredBy_def coversSelected_def fun_eq_iff using mem by (fastforce split: sum.splits option.splits)
  then show ?thesis using gate_first_hold [OF keys(1) src(1) b] b by simp
qed

subsection \<open>A concrete run\<close>

definition exampleGet :: "string \<Rightarrow> string result" where
  "exampleGet key = Inl (Err ErrNotFound '''')"

lemma example_retrieval:
  obtains e data hist where
    "systemReach exampleConfig hist data" "evictedReadable exampleConfig exampleGet hist data" "\<And>x. logged hist x \<longleftrightarrow> x = e"
    "ev_TenantID e = ''t1''" "ev_EventID e = ''e1''" "ev_OperationID e = ''op1''" "ev_OccurredAt e = 700000 * ns_per_day"
    "sn_Schemas data = sn_Schemas exampleData" "sn_LegalHolds data = []" "mget (sn_Tenants data) ''t1'' \<noteq> None"
proof -
  obtain p e data where r: "preparedFrom exampleConfig exampleData p"
    "ingestCommit exampleConfig exampleGet ''c1'' ''t1'' ''svc'' p exampleData = Committed (ledgeredReceipt ''t1'' e) e [] data"
    "ev_TenantID e = ''t1''" "ev_EventID e = ''e1''" "ev_StreamID e = ''t1:operation:op1''"
    "sn_Events data = [(EventKey ''t1'' ''e1'', e)]" "pr_TenantID p = ''t1''" "Stream (pr_Event p) = ''t1:operation:op1''"
    "ev_OperationID e = ''op1''" "ev_OccurredAt e = 700000 * ns_per_day" "sn_Schemas data = sn_Schemas exampleData" "sn_LegalHolds data = []"
    by (rule example_reach [where get = exampleGet]) blast
  let ?key = "StreamKey ''t1'' ''t1:operation:op1''" and ?hist = "(\<lambda>_. [])(StreamKey ''t1'' ''t1:operation:op1'' := [e])"
  have sys: "systemReach exampleConfig ?hist data"
    using systemReach.commit [OF example_system r(1,2), of ?key] r(7,8) by simp
  have only: "logged ?hist x \<longleftrightarrow> x = e" for x by (rule example_logged) (use r in simp)
  have "evictedReadable exampleConfig exampleGet ?hist data"
    using only r by (simp add: evictedReadable_def eventKeyOf_def mget_def)
  moreover have "controlPart data = controlPart exampleData" using ingestCommit_control [OF r(2)] .
  then have "mget (sn_Tenants data) ''t1'' \<noteq> None" by (simp add: controlPart_def) (simp add: exampleData_def exampleSnapshot_def mget_def)
  ultimately show thesis using that [OF sys _ only] r by blast
qed



definition exampleQuery :: Query where
  "exampleQuery = \<lparr>qy_From = 700000 * ns_per_day, qy_To = 700001 * ns_per_day, qy_EventType = '''', qy_SourceSystem = '''', qy_ActorID = '''',
     qy_TargetID = '''', qy_AggregateType = '''', qy_AggregateID = '''', qy_OperationID = '''', qy_CausationID = '''', qy_CorrelationID = '''',
     qy_TraceID = '''', qy_Outcome = '''', qy_PayloadField = '''', qy_PayloadDigest = '''', qy_StreamID = '''', qy_Cursor = '''', qy_PageSize = 0\<rparr>"

definition exampleHold :: LegalHold where
  "exampleHold = \<lparr>lh_ID = ''h1'', lh_TenantID = ''t1'', lh_Name = ''case 7'', lh_Reason = ''litigation'', lh_Filter = exampleQuery,
     lh_CreatedBy = ''counsel'', lh_CreatedAt = 9, lh_ReleasedAt = None, lh_ReleasedBy = ''''\<rparr>"

definition exampleJob :: ExportJob where
  "exampleJob = \<lparr>ej_ID = ''x1'', ej_TenantID = ''t1'', ej_RequestedBy = ''ops'', ej_Query = exampleQuery, ej_Status = ''running'', ej_RetryOf = '''',
     ej_FailureCode = '''', ej_CreatedAt = 9, ej_StartedAt = None, ej_FinishedAt = None, ej_ObjectPath = '''', ej_Digest = '''',
     ej_EventCount = 0, ej_Error = ''''\<rparr>"

lemma exampleQuery_matches:
  "ev_OccurredAt source = 700000 * ns_per_day \<Longrightarrow> matchesExportHoldEvidence cfg source schema exampleQuery = Inr True"
  by (simp add: matchesExportHoldEvidence_def matches_def wants_def exampleQuery_def ns_per_day_def)

lemma reconstruct_keeps: "reconstructEventForDigest cfg e schemas = Inr source \<Longrightarrow> ev_OccurredAt source = ev_OccurredAt e"
  by (auto simp: reconstructEventForDigest_def rbind_eq_Inr Let_def split: option.splits if_splits dest!: CloneEvent_same)

lemma example_covered:
  assumes sys: "systemReach exampleConfig hist data" and e: "logged hist e" "ev_OccurredAt e = 700000 * ns_per_day"
  shows "coversSelected exampleConfig (sn_Schemas data) exampleQuery exampleHold e"
proof -
  have reach: "ledgerReach exampleConfig hist data" and keyed: "schemasKeyed (sn_Schemas data)" using systemReach_keyed [OF sys] by blast+
  have inv: "ledgerInv exampleConfig hist data" by (rule ledgerReach_inv [OF reach exampleConfig_aead])
  have content: "contentOK exampleConfig (sn_Schemas data) e" and sep: "KeySeparator \<notin> set (ev_TenantID e)"
    using logged_content [OF _ e(1)] inv e(1) by (auto simp: ledgerInv_def membersOK_def logged_def)
  obtain source where src: "reconstructEventForDigest exampleConfig e (sn_Schemas data) = Inr source" using content by (auto simp: contentOK_def)
  obtain schema where "mget (sn_Schemas data) (SchemaKey (ev_TenantID e) (ev_SchemaID e) (ev_SchemaVersion e)) = Some schema"
    using logged_schema [OF content keyed sep] by blast
  moreover have "matchesExportHoldEvidence exampleConfig source s exampleQuery = Inr True" for s
    using exampleQuery_matches reconstruct_keeps [OF src] e(2) by simp
  ultimately show ?thesis using src
    by (simp add: coversSelected_def holdCovers_def exampleHold_def) (simp add: exampleQuery_def)
qed

lemma example_held:
  assumes "mget (sn_Tenants data) ''t1'' \<noteq> None" "sn_LegalHolds data = []"
  shows "\<exists>a. CreateLegalHold cfg ''h0'' ''f8'' 9 exampleHold data
    = Inr (exampleHold, appendAdminAction cfg a (data\<lparr>sn_LegalHolds := [(''h1'', exampleHold)]\<rparr>))"
proof -
  have "requireTenantScope ''t1'' = None" by code_simp
  then show ?thesis using assms
    by (simp add: CreateLegalHold_def exampleHold_def windowError_def exampleQuery_def guardE_def Let_def mput_def mget_def ns_per_day_def) blast
qed

theorem export_hold_gate_exact_witness:
  "\<exists>hist data e. systemReach exampleConfig hist data \<and> logged hist e \<and> ej_TenantID exampleJob = ev_TenantID e
     \<and> holdBlockingExportEvidence exampleConfig exampleGet data exampleJob = Inr (Some exampleHold)"
proof -
  obtain e data hist where r: "systemReach exampleConfig hist data" "evictedReadable exampleConfig exampleGet hist data"
    "\<And>x. logged hist x \<longleftrightarrow> x = e" "ev_TenantID e = ''t1''" "ev_OccurredAt e = 700000 * ns_per_day"
    "mget (sn_Tenants data) ''t1'' \<noteq> None" "sn_LegalHolds data = []"
    by (rule example_retrieval) blast
  obtain a where a: "CreateLegalHold exampleConfig ''h0'' ''f8'' 9 exampleHold data
    = Inr (exampleHold, appendAdminAction exampleConfig a (data\<lparr>sn_LegalHolds := [(''h1'', exampleHold)]\<rparr>))"
    using example_held [OF r(6,7)] by blast
  let ?data = "appendAdminAction exampleConfig a (data\<lparr>sn_LegalHolds := [(''h1'', exampleHold)]\<rparr>)"
  have sys: "systemReach exampleConfig hist ?data" using systemReach.control [OF r(1) controlStep.create_hold [OF a]] .
  have ev: "sn_Events ?data = sn_Events data" and holds: "activeHolds ?data ''t1'' = [exampleHold]"
    by (simp_all add: appendAdminAction_def activeHolds_def activeHold_def mvals_def exampleHold_def)
  have rd: "evictedReadable exampleConfig exampleGet hist ?data" using r(2) ev by (simp add: evictedReadable_def)
  have filters: "q = exampleQuery" if "q \<in> insert (ej_Query exampleJob) (lh_Filter ` set (activeHolds ?data (ej_TenantID exampleJob)))" for q
    using that holds by (auto simp: exampleJob_def exampleHold_def)
  have free: "marshals exampleConfig exampleQuery source" for source by (simp add: marshals_def exampleQuery_def)
  have gate: "holdBlockingExportEvidence exampleConfig exampleGet ?data exampleJob
    = Inr (find (\<lambda>hold. \<exists>e. logged hist e \<and> ev_TenantID e = ej_TenantID exampleJob \<and> coversSelected exampleConfig (sn_Schemas ?data) (ej_Query exampleJob) hold e)
        (activeHolds ?data (ej_TenantID exampleJob)))"
    by (rule export_hold_gate_exact [OF sys exampleConfig_aead rd]) (use filters free in metis)
  have "coversSelected exampleConfig (sn_Schemas ?data) exampleQuery exampleHold e" by (rule example_covered [OF sys]) (use r in simp_all)
  then show ?thesis using gate holds sys r(3,4)
    by (intro exI [of _ hist] exI [of _ ?data] exI [of _ e]) (auto simp: exampleJob_def)
qed

end
