(* ===== verification/Exports.thy ===== *)
theory Exports
  imports Control Publication
begin

text \<open>
  Export jobs. Every transition of a job is a closure over the current control document, guarded by the
  job's lease: a claim draws a fresh owner token, every later write of that executor must find its own
  unexpired lease. A job passes from pending to running, keeps a plan of its members and then a sealed
  checkpoint as private execution metadata, and ends completed, failed or cancelled. Plans and
  checkpoints carry keyed digests over the JSON text of their records; the JSON writer is the codec of
  the configuration and the reader of one exported line is an argument (\<open>identity\<close>). The clock is read
  once per closure.
\<close>

subsection \<open>Constants and records\<close>

definition ExportLeaseDuration :: int where "ExportLeaseDuration = 120 * 1000000000"
definition ExportConcurrency :: nat where "ExportConcurrency = 2"
definition ExportTenantConcurrency :: nat where "ExportTenantConcurrency = 1"
definition MaxPendingExportsPerTenant :: nat where "MaxPendingExportsPerTenant = 32"
definition MaxPendingExports :: nat where "MaxPendingExports = 128"
definition ExportGenerationPageEvents :: nat where "ExportGenerationPageEvents = 100"
definition MaxExportPlanEvents :: nat where "MaxExportPlanEvents = MaxQuerySnapshotEvents"
definition MaxExportPlanBytes :: nat where "MaxExportPlanBytes = 4 * 1024 * 1024"
definition ExportStatusCancelled :: string where "ExportStatusCancelled = ''cancelled''"
definition ExportFailureExecution :: string where "ExportFailureExecution = ''execution_failed''"
definition ExportFailureLegalHold :: string where "ExportFailureLegalHold = ''legal_hold''"
definition ExportFailureLease :: string where "ExportFailureLease = ''lease_expired''"
definition ExportFailureLegacy :: string where "ExportFailureLegacy = ''legacy_stuck''"
definition ExportFailureCancelled :: string where "ExportFailureCancelled = ''cancelled''"
definition ExportFailureUnknown :: string where "ExportFailureUnknown = ''unknown''"

definition errExportLeaseLost :: error where
  "errExportLeaseLost = Err ErrExportLeaseLost ''export execution lease lost''"

definition errExportCheckpointInvalid :: error where
  "errExportCheckpointInvalid = Err ErrConflict ''invalid export checkpoint metadata''"

record exportClaim =
  ec_Job :: ExportJob
  ec_Owner :: string
  ec_Checkpoint :: ExportCheckpoint
  ec_Plan :: ExportPlan
  ec_HoldBinding :: string

record ExportSummary =
  xs_ID :: string
  xs_TenantID :: string
  xs_RequestedBy :: string
  xs_Status :: string
  xs_RetryOf :: string
  xs_FailureCode :: string
  xs_CreatedAt :: time
  xs_StartedAt :: "time option"
  xs_FinishedAt :: "time option"

text \<open>The zero values a failed map lookup yields.\<close>

definition zeroQuery :: Query where
  "zeroQuery = \<lparr>qy_From = 0, qy_To = 0, qy_EventType = '''', qy_SourceSystem = '''', qy_ActorID = '''', qy_TargetID = '''',
     qy_AggregateType = '''', qy_AggregateID = '''', qy_OperationID = '''', qy_CausationID = '''', qy_CorrelationID = '''',
     qy_TraceID = '''', qy_Outcome = '''', qy_PayloadField = '''', qy_PayloadDigest = '''', qy_StreamID = '''', qy_Cursor = '''',
     qy_PageSize = 0\<rparr>"

definition zeroJob :: ExportJob where
  "zeroJob = \<lparr>ej_ID = '''', ej_TenantID = '''', ej_RequestedBy = '''', ej_Query = zeroQuery, ej_Status = '''', ej_RetryOf = '''',
     ej_FailureCode = '''', ej_CreatedAt = 0, ej_StartedAt = None, ej_FinishedAt = None, ej_ObjectPath = '''', ej_Digest = '''',
     ej_EventCount = 0, ej_Error = ''''\<rparr>"

definition zeroLease :: ExportLease where
  "zeroLease = \<lparr>xl_Version = 0, xl_JobID = '''', xl_TenantID = '''', xl_Owner = '''', xl_HeartbeatAt = 0, xl_ExpiresAt = 0\<rparr>"

definition zeroCheckpoint :: ExportCheckpoint where
  "zeroCheckpoint = \<lparr>xc_Version = 0, xc_SealVersion = 0, xc_JobID = '''', xc_TenantID = '''', xc_Binding = '''', xc_ObjectPath = '''',
     xc_SealedDigest = '''', xc_Digest = '''', xc_EventCount = 0, xc_CreatedAt = 0, xc_Signature = ''''\<rparr>"

definition zeroPlan :: ExportPlan where
  "zeroPlan = \<lparr>xp_Version = 0, xp_FormatVersion = 0, xp_JobID = '''', xp_TenantID = '''', xp_Binding = '''', xp_CreatedAt = 0,
     xp_Members = [], xp_Chunks = [], xp_Signature = ''''\<rparr>"

definition PublicExportFailureCode :: "string \<Rightarrow> string" where
  "PublicExportFailureCode code =
     (if code \<in> set ['''', ExportFailureExecution, ExportFailureLegalHold, ExportFailureLease, ExportFailureLegacy,
                      ExportFailureCancelled, ExportFailureUnknown]
      then code else ExportFailureUnknown)"

definition SummarizeExport :: "ExportJob \<Rightarrow> ExportSummary" where
  "SummarizeExport job =
     \<lparr>xs_ID = ej_ID job, xs_TenantID = ej_TenantID job, xs_RequestedBy = ej_RequestedBy job, xs_Status = ej_Status job,
      xs_RetryOf = ej_RetryOf job, xs_FailureCode = PublicExportFailureCode (ej_FailureCode job), xs_CreatedAt = ej_CreatedAt job,
      xs_StartedAt = ej_StartedAt job, xs_FinishedAt = ej_FinishedAt job\<rparr>"

subsection \<open>Leases (export_lease.go)\<close>

definition validExportLease :: "ExportJob \<Rightarrow> ExportLease \<Rightarrow> bool" where
  "validExportLease job lease \<longleftrightarrow>
     ej_ID job \<noteq> '''' \<and> ej_TenantID job \<noteq> '''' \<and> xl_Version lease = 1 \<and> xl_JobID lease = ej_ID job \<and> xl_TenantID lease = ej_TenantID job
     \<and> xl_Owner lease \<noteq> ''''
     \<and> (case ej_StartedAt job of None \<Rightarrow> False | Some started \<Rightarrow> started \<noteq> 0 \<and> xl_HeartbeatAt lease \<noteq> 0 \<and> \<not> xl_HeartbeatAt lease < started)
     \<and> xl_ExpiresAt lease = xl_HeartbeatAt lease + ExportLeaseDuration"

definition ownsExportLease :: "Snapshot \<Rightarrow> ExportJob \<Rightarrow> exportClaim \<Rightarrow> time \<Rightarrow> bool" where
  "ownsExportLease data job claim now \<longleftrightarrow>
     (case mget (sn_ExportLeases data) (ej_ID job) of
        None \<Rightarrow> False
      | Some lease \<Rightarrow>
          validExportLease job lease \<and> ej_ID job = ej_ID (ec_Job claim) \<and> ej_TenantID job = ej_TenantID (ec_Job claim)
          \<and> xl_Owner lease = ec_Owner claim \<and> ej_Status job = ''running'' \<and> ej_FinishedAt job = None
          \<and> \<not> now < xl_HeartbeatAt lease \<and> xl_ExpiresAt lease > now)"

definition exportClaimFromContext :: "exportClaim \<Rightarrow> bool" where
  "exportClaimFromContext claim \<longleftrightarrow> ej_ID (ec_Job claim) \<noteq> '''' \<and> ec_Owner claim \<noteq> '''' \<and> ej_TenantID (ec_Job claim) \<noteq> ''''"

definition checkExportLease :: "time \<Rightarrow> exportClaim \<Rightarrow> Snapshot \<Rightarrow> error option" where
  "checkExportLease now claim data =
     (if \<not> exportClaimFromContext claim then Some errExportLeaseLost
      else if ownsExportLease data (mget_or zeroJob (sn_Exports data) (ej_ID (ec_Job claim))) claim now then None
      else Some errExportLeaseLost)"

definition renewExportLease :: "time \<Rightarrow> exportClaim \<Rightarrow> Snapshot \<Rightarrow> (bool \<times> Snapshot) result" where
  "renewExportLease now claim data =
     (let jobID = ej_ID (ec_Job claim); job = mget_or zeroJob (sn_Exports data) jobID in
      if \<not> ownsExportLease data job claim now then Inl errExportLeaseLost
      else let lease = mget_or zeroLease (sn_ExportLeases data) jobID in
           if \<not> now > xl_HeartbeatAt lease then Inr (False, data)
           else Inr (True, data\<lparr>sn_ExportLeases :=
                  mput (sn_ExportLeases data) jobID (lease\<lparr>xl_HeartbeatAt := now, xl_ExpiresAt := now + ExportLeaseDuration\<rparr>)\<rparr>))"

subsection \<open>Capacity and choice of the next job (export_scheduler.go, export_checkpoint_schedule.go)\<close>

definition jobsWith :: "(ExportJob \<Rightarrow> bool) \<Rightarrow> ExportJob gomap \<Rightarrow> nat" where
  "jobsWith P jobs = length (filter P (mvals jobs))"

definition isRunning :: "ExportJob \<Rightarrow> bool" where
  "isRunning job \<longleftrightarrow> ej_Status job = ''running''"

definition isQueued :: "ExportJob \<Rightarrow> bool" where
  "isQueued job \<longleftrightarrow> ej_Status job = ''pending'' \<or> ej_Status job = ''running''"

definition exportQueueHasCapacity :: "ExportJob gomap \<Rightarrow> string \<Rightarrow> bool" where
  "exportQueueHasCapacity jobs tenant \<longleftrightarrow>
     jobsWith isQueued jobs < MaxPendingExports
     \<and> jobsWith (\<lambda>j. isQueued j \<and> ej_TenantID j = tenant) jobs < MaxPendingExportsPerTenant"

definition exportClaimHasCapacity :: "ExportJob gomap \<Rightarrow> string \<Rightarrow> bool" where
  "exportClaimHasCapacity jobs tenant \<longleftrightarrow>
     jobsWith isRunning jobs < ExportConcurrency
     \<and> jobsWith (\<lambda>j. isRunning j \<and> ej_TenantID j = tenant) jobs < ExportTenantConcurrency"

definition exportCheckpointHasCapacity :: "ExportJob gomap \<Rightarrow> string \<Rightarrow> bool" where
  "exportCheckpointHasCapacity jobs tenant \<longleftrightarrow>
     jobsWith isRunning jobs \<le> ExportConcurrency
     \<and> jobsWith (\<lambda>j. isRunning j \<and> ej_TenantID j = tenant) jobs \<le> ExportTenantConcurrency"

definition olderExport :: "ExportJob \<Rightarrow> ExportJob \<Rightarrow> bool" where
  "olderExport a b \<longleftrightarrow> ej_CreatedAt a < ej_CreatedAt b \<or> (ej_CreatedAt a = ej_CreatedAt b \<and> ej_ID a < ej_ID b)"

definition occupiedSlots :: "ExportJob gomap \<Rightarrow> string gomap \<Rightarrow> (string \<Rightarrow> bool) \<Rightarrow> nat" where
  "occupiedSlots jobs active tenants =
     jobsWith (\<lambda>j. isRunning j \<and> tenants (ej_TenantID j)) jobs
     + length (filter (\<lambda>(id, tenant). tenants tenant \<and> (case mget jobs id of None \<Rightarrow> True | Some j \<Rightarrow> \<not> isRunning j)) active)"

definition oldestByTenant :: "(string \<times> ExportJob) list \<Rightarrow> ExportJob gomap" where
  "oldestByTenant entries =
     fold (\<lambda>(id, job) m. case mget m (ej_TenantID job) of
         None \<Rightarrow> mput m (ej_TenantID job) job
       | Some current \<Rightarrow> if olderExport job current then mput m (ej_TenantID job) job else m) entries []"

definition nextExport :: "ExportJob gomap \<Rightarrow> string gomap \<Rightarrow> string \<Rightarrow> ExportJob" where
  "nextExport jobs active after =
     (if occupiedSlots jobs active (\<lambda>_. True) \<ge> ExportConcurrency then zeroJob
      else
        let byTenant = oldestByTenant (filter (\<lambda>(id, job). ej_Status job = ''pending''
               \<and> occupiedSlots jobs active (\<lambda>t. t = ej_TenantID job) < ExportTenantConcurrency
               \<and> mget active id = None) jobs);
            tenants = sort_slice (<) (mkeys byTenant)
        in case find (\<lambda>t. t > after) tenants of
             Some t \<Rightarrow> mget_or zeroJob byTenant t
           | None \<Rightarrow> (case tenants of [] \<Rightarrow> zeroJob | t # _ \<Rightarrow> mget_or zeroJob byTenant t))"

definition candidateLess :: "ExportJob \<Rightarrow> ExportJob \<Rightarrow> bool" where
  "candidateLess a b \<longleftrightarrow> (if ej_TenantID a \<noteq> ej_TenantID b then ej_TenantID a < ej_TenantID b else olderExport a b)"

definition nextRunnableExport :: "Snapshot \<Rightarrow> string gomap \<Rightarrow> string \<Rightarrow> time \<Rightarrow> ExportJob" where
  "nextRunnableExport data active after now =
     (let candidates = sort_slice candidateLess (map snd (filter (\<lambda>(id, job).
            (mget (sn_ExportCheckpoints data) id \<noteq> None \<or> mget (sn_ExportPlans data) id \<noteq> None)
            \<and> mget active id = None \<and> ej_ID job = id \<and> ej_Status job = ''running'' \<and> ej_FinishedAt job = None
            \<and> validExportLease job (mget_or zeroLease (sn_ExportLeases data) id)
            \<and> \<not> xl_ExpiresAt (mget_or zeroLease (sn_ExportLeases data) id) > now
            \<and> exportCheckpointHasCapacity (sn_Exports data) (ej_TenantID job)) (sn_Exports data)))
      in case candidates of
           [] \<Rightarrow> nextExport (sn_Exports data) active after
         | first # _ \<Rightarrow> (case find (\<lambda>j. ej_TenantID j > after) candidates of Some j \<Rightarrow> j | None \<Rightarrow> first))"

subsection \<open>Keyed digests of execution metadata (query_snapshot.go, export_checkpoint.go, export_plan.go)\<close>

definition queryMAC :: "Config \<Rightarrow> string \<Rightarrow> string \<Rightarrow> gval \<Rightarrow> string" where
  "queryMAC cfg secret label v =
     (case js_Marshal (cf_Codec cfg) (Some v) of
        Inl err \<Rightarrow> ''''
      | Inr raw \<Rightarrow>
          let k = string_bytes secret
          in hexEncode (hmac_sha256 (if length k > 64 then sha256 k else k) (string_bytes (label @ [CHR 0x00] @ raw))))"

definition Query_value :: "Query \<Rightarrow> gval" where
  "Query_value q = VStruct
      [(StructField ''From'' True ''from'', VTime (qy_From q)),
       (StructField ''To'' True ''to'', VTime (qy_To q)),
       (StructField ''EventType'' True ''event_type,omitempty'', VString (qy_EventType q)),
       (StructField ''SourceSystem'' True ''source_system,omitempty'', VString (qy_SourceSystem q)),
       (StructField ''ActorID'' True ''actor_id,omitempty'', VString (qy_ActorID q)),
       (StructField ''TargetID'' True ''target_id,omitempty'', VString (qy_TargetID q)),
       (StructField ''AggregateType'' True ''aggregate_type,omitempty'', VString (qy_AggregateType q)),
       (StructField ''AggregateID'' True ''aggregate_id,omitempty'', VString (qy_AggregateID q)),
       (StructField ''OperationID'' True ''operation_id,omitempty'', VString (qy_OperationID q)),
       (StructField ''CausationID'' True ''causation_id,omitempty'', VString (qy_CausationID q)),
       (StructField ''CorrelationID'' True ''correlation_id,omitempty'', VString (qy_CorrelationID q)),
       (StructField ''TraceID'' True ''trace_id,omitempty'', VString (qy_TraceID q)),
       (StructField ''Outcome'' True ''outcome,omitempty'', VString (qy_Outcome q)),
       (StructField ''PayloadField'' True ''payload_field,omitempty'', VString (qy_PayloadField q)),
       (StructField ''PayloadDigest'' True ''payload_digest,omitempty'', VString (qy_PayloadDigest q)),
       (StructField ''StreamID'' True ''stream_id,omitempty'', VString (qy_StreamID q)),
       (StructField ''Cursor'' True ''cursor,omitempty'', VString (qy_Cursor q)),
       (StructField ''PageSize'' True ''page_size,omitempty'', VInt (qy_PageSize q))]"

definition LegalHold_value :: "LegalHold \<Rightarrow> gval" where
  "LegalHold_value h = VStruct
      [(StructField ''ID'' True ''id'', VString (lh_ID h)),
       (StructField ''TenantID'' True ''tenant_id'', VString (lh_TenantID h)),
       (StructField ''Name'' True ''name'', VString (lh_Name h)),
       (StructField ''Reason'' True ''reason'', VString (lh_Reason h)),
       (StructField ''Filter'' True ''filter'', Query_value (lh_Filter h)),
       (StructField ''CreatedBy'' True ''created_by'', VString (lh_CreatedBy h)),
       (StructField ''CreatedAt'' True ''created_at'', VTime (lh_CreatedAt h)),
       (StructField ''ReleasedAt'' True ''released_at,omitempty'', VRef (map_option VTime (lh_ReleasedAt h))),
       (StructField ''ReleasedBy'' True ''released_by,omitempty'', VString (lh_ReleasedBy h))]"

definition EventSchema_value :: "EventSchema \<Rightarrow> gval" where
  "EventSchema_value s = VStruct
      [(StructField ''TenantID'' True ''tenant_id'', VString (es_TenantID s)),
       (StructField ''SchemaID'' True ''schema_id'', VString (es_SchemaID s)),
       (StructField ''Version'' True ''version'', VInt (es_Version s)),
       (StructField ''EventType'' True ''event_type'', VString (es_EventType s)),
       (StructField ''RequiredFields'' True ''required_fields,omitempty'', strings_value (es_RequiredFields s)),
       (StructField ''AllowedFields'' True ''allowed_fields,omitempty'', strings_value (es_AllowedFields s)),
       (StructField ''EncryptedFields'' True ''encrypted_fields,omitempty'', strings_value (es_EncryptedFields s)),
       (StructField ''SearchableFields'' True ''searchable_fields,omitempty'', strings_value (es_SearchableFields s)),
       (StructField ''Classification'' True ''classification'', VString (es_Classification s)),
       (StructField ''Active'' True ''active'', VBool (es_Active s)),
       (StructField ''CreatedAt'' True ''created_at'', VTime (es_CreatedAt s))]"

definition ExportCheckpoint_value :: "ExportCheckpoint \<Rightarrow> gval" where
  "ExportCheckpoint_value c = VStruct
      [(StructField ''Version'' True ''version'', VInt (xc_Version c)),
       (StructField ''SealVersion'' True ''seal_version'', VInt (xc_SealVersion c)),
       (StructField ''JobID'' True ''job_id'', VString (xc_JobID c)),
       (StructField ''TenantID'' True ''tenant_id'', VString (xc_TenantID c)),
       (StructField ''Binding'' True ''binding'', VString (xc_Binding c)),
       (StructField ''ObjectPath'' True ''object_path'', VString (xc_ObjectPath c)),
       (StructField ''SealedDigest'' True ''sealed_digest'', VString (xc_SealedDigest c)),
       (StructField ''Digest'' True ''digest'', VString (xc_Digest c)),
       (StructField ''EventCount'' True ''event_count'', VInt (xc_EventCount c)),
       (StructField ''CreatedAt'' True ''created_at'', VTime (xc_CreatedAt c)),
       (StructField ''Signature'' True ''signature'', VString (xc_Signature c))]"

text \<open>The fields of the embedded reference are promoted into the member's object.\<close>

definition ExportPlanMember_value :: "ExportPlanMember \<Rightarrow> gval" where
  "ExportPlanMember_value m = VStruct
      [(StructField ''OccurredAt'' True ''occurred_at,omitempty'', VTime (er_OccurredAt (pm_Reference m))),
       (StructField ''EventID'' True ''event_id'', VString (er_EventID (pm_Reference m))),
       (StructField ''StreamID'' True ''stream_id'', VString (er_StreamID (pm_Reference m))),
       (StructField ''Sequence'' True ''sequence'', VInt (er_Sequence (pm_Reference m))),
       (StructField ''Hash'' True ''hash'', VString (er_Hash (pm_Reference m))),
       (StructField ''SchemaID'' True ''schema_id'', VString (pm_SchemaID m)),
       (StructField ''SchemaVersion'' True ''schema_version'', VInt (pm_SchemaVersion m)),
       (StructField ''SchemaDigest'' True ''schema_digest'', VString (pm_SchemaDigest m))]"

definition ExportPlanChunk_value :: "ExportPlanChunk \<Rightarrow> gval" where
  "ExportPlanChunk_value c = VStruct
      [(StructField ''SealVersion'' True ''seal_version'', VInt (pc_SealVersion c)),
       (StructField ''First'' True ''first'', VInt (pc_First c)),
       (StructField ''Count'' True ''count'', VInt (pc_Count c)),
       (StructField ''ObjectPath'' True ''object_path'', VString (pc_ObjectPath c)),
       (StructField ''SealedDigest'' True ''sealed_digest'', VString (pc_SealedDigest c)),
       (StructField ''Digest'' True ''digest'', VString (pc_Digest c)),
       (StructField ''CreatedAt'' True ''created_at'', VTime (pc_CreatedAt c))]"

definition ExportPlan_value :: "ExportPlan \<Rightarrow> gval" where
  "ExportPlan_value p = VStruct
      [(StructField ''Version'' True ''version'', VInt (xp_Version p)),
       (StructField ''FormatVersion'' True ''format_version'', VInt (xp_FormatVersion p)),
       (StructField ''JobID'' True ''job_id'', VString (xp_JobID p)),
       (StructField ''TenantID'' True ''tenant_id'', VString (xp_TenantID p)),
       (StructField ''Binding'' True ''binding'', VString (xp_Binding p)),
       (StructField ''CreatedAt'' True ''created_at'', VTime (xp_CreatedAt p)),
       (StructField ''Members'' True ''members'', slice_value ExportPlanMember_value (xp_Members p)),
       (StructField ''Chunks'' True ''chunks,omitempty'', slice_value ExportPlanChunk_value (xp_Chunks p)),
       (StructField ''Signature'' True ''signature'', VString (xp_Signature p))]"

definition exportCheckpointBinding :: "Config \<Rightarrow> string \<Rightarrow> ExportJob \<Rightarrow> string" where
  "exportCheckpointBinding cfg secret job =
     queryMAC cfg secret ''export.checkpoint.scope.v1'' (VStruct
       [(StructField ''ID'' True '''', VString (ej_ID job)),
        (StructField ''Tenant'' True '''', VString (ej_TenantID job)),
        (StructField ''Requester'' True '''', VString (ej_RequestedBy job)),
        (StructField ''RetryOf'' True '''', VString (ej_RetryOf job)),
        (StructField ''CreatedAt'' True '''', VTime (ej_CreatedAt job)),
        (StructField ''StartedAt'' True '''', VRef (map_option VTime (ej_StartedAt job))),
        (StructField ''Query'' True '''', Query_value (ej_Query job))])"

definition signExportCheckpoint :: "Config \<Rightarrow> string \<Rightarrow> ExportCheckpoint \<Rightarrow> string" where
  "signExportCheckpoint cfg secret cp =
     queryMAC cfg secret ''export.checkpoint.sealed.v1'' (ExportCheckpoint_value (cp\<lparr>xc_Signature := ''''\<rparr>))"

definition lowerHex :: "string \<Rightarrow> bool" where
  "lowerHex s \<longleftrightarrow> (\<forall>c \<in> set s. CHR ''0'' \<le> c \<and> c \<le> CHR ''9'' \<or> CHR ''a'' \<le> c \<and> c \<le> CHR ''f'')"

definition exportDigestPattern :: "string \<Rightarrow> bool" where
  "exportDigestPattern s \<longleftrightarrow> length s = 64 \<and> lowerHex s"

definition TrimPrefix :: "string \<Rightarrow> string \<Rightarrow> string" where
  "TrimPrefix s p = (if HasPrefix s p then drop (length p) s else s)"

definition TrimSuffix :: "string \<Rightarrow> string \<Rightarrow> string" where
  "TrimSuffix s p = (if HasSuffix s p then take (length s - length p) s else s)"

text \<open>
  The last part of the object path is sixteen bytes in lower-case hexadecimal:
  \<open>hex.DecodeString\<close> succeeds with sixteen bytes and \<open>ToLower\<close> changes nothing.
\<close>

definition validExportCheckpoint :: "Config \<Rightarrow> string \<Rightarrow> ExportJob \<Rightarrow> ExportCheckpoint \<Rightarrow> time \<Rightarrow> bool" where
  "validExportCheckpoint cfg secret job cp now \<longleftrightarrow>
     (let front = ''exports/'' @ safeName (ej_ID job) @ ''-'';
          tail = TrimSuffix (TrimPrefix (xc_ObjectPath cp) front) ''.jsonl''
      in xc_Version cp = 1 \<and> xc_SealVersion cp = 2 \<and> ej_ID job \<noteq> '''' \<and> ej_TenantID job \<noteq> ''''
         \<and> xc_JobID cp = ej_ID job \<and> xc_TenantID cp = ej_TenantID job \<and> ej_CreatedAt job \<noteq> 0
         \<and> ej_Status job = ''running'' \<and> ej_FinishedAt job = None
         \<and> (case ej_StartedAt job of None \<Rightarrow> False | Some started \<Rightarrow> started \<noteq> 0 \<and> \<not> xc_CreatedAt cp < started)
         \<and> ej_ObjectPath job = '''' \<and> ej_Digest job = '''' \<and> ej_EventCount job = 0
         \<and> xc_CreatedAt cp \<noteq> 0 \<and> \<not> now < xc_CreatedAt cp
         \<and> xc_EventCount cp \<ge> 0 \<and> xc_EventCount cp \<le> int MaxQuerySnapshotEvents
         \<and> HasPrefix (xc_ObjectPath cp) front \<and> HasSuffix (xc_ObjectPath cp) ''.jsonl''
         \<and> length tail = 32 \<and> lowerHex tail
         \<and> exportDigestPattern (xc_SealedDigest cp) \<and> exportDigestPattern (xc_Digest cp)
         \<and> xc_Binding cp = exportCheckpointBinding cfg secret job \<and> xc_Signature cp = signExportCheckpoint cfg secret cp)"

definition exportObjectKey :: "exportClaim \<Rightarrow> string" where
  "exportObjectKey claim = ''exports/'' @ safeName (ej_ID (ec_Job claim)) @ ''-'' @ take 32 (HashBytes (ec_Owner claim)) @ ''.jsonl''"

definition exportHoldBinding :: "Config \<Rightarrow> string \<Rightarrow> Snapshot \<Rightarrow> string \<Rightarrow> string" where
  "exportHoldBinding cfg secret data tenantID =
     queryMAC cfg secret ''export.checkpoint.holds.v1''
       (map_value LegalHold_value (filter (\<lambda>(id, h). activeHold tenantID h) (sn_LegalHolds data)))"

definition exportPlanBinding :: "Config \<Rightarrow> string \<Rightarrow> ExportJob \<Rightarrow> string" where
  "exportPlanBinding cfg secret job = queryMAC cfg secret ''export.plan.scope.v1'' (VString (exportCheckpointBinding cfg secret job))"

definition signExportPlan :: "Config \<Rightarrow> string \<Rightarrow> ExportPlan \<Rightarrow> string" where
  "signExportPlan cfg secret plan = queryMAC cfg secret ''export.plan.members.v1'' (ExportPlan_value (plan\<lparr>xp_Signature := ''''\<rparr>))"

definition exportPlanSchemaDigest :: "Config \<Rightarrow> string \<Rightarrow> EventSchema \<Rightarrow> string" where
  "exportPlanSchemaDigest cfg secret schema = queryMAC cfg secret ''export.plan.schema.v1'' (EventSchema_value schema)"

definition exportPlanMemberBefore :: "ExportPlanMember \<Rightarrow> ExportPlanMember \<Rightarrow> bool" where
  "exportPlanMemberBefore a b \<longleftrightarrow>
     (let x = pm_Reference a; y = pm_Reference b in
      if er_OccurredAt x \<noteq> er_OccurredAt y then er_OccurredAt x < er_OccurredAt y
      else er_Sequence x < er_Sequence y \<or> (er_Sequence x = er_Sequence y \<and> er_EventID x < er_EventID y))"

fun validMembers :: "string list \<Rightarrow> ExportPlanMember option \<Rightarrow> ExportPlanMember list \<Rightarrow> bool" where
  "validMembers seen previous [] = True"
| "validMembers seen previous (m # ms) =
     (let r = pm_Reference m in
      er_EventID r \<noteq> '''' \<and> er_StreamID r \<noteq> '''' \<and> er_Sequence r > 0 \<and> er_OccurredAt r \<noteq> 0 \<and> exportDigestPattern (er_Hash r)
      \<and> pm_SchemaID m \<noteq> '''' \<and> pm_SchemaVersion m > 0 \<and> exportDigestPattern (pm_SchemaDigest m) \<and> er_EventID r \<notin> set seen
      \<and> ValidKeyComponent (er_EventID r) = None \<and> ValidKeyComponent (er_StreamID r) = None
      \<and> (case previous of None \<Rightarrow> True | Some p \<Rightarrow> exportPlanMemberBefore p m)
      \<and> validMembers (er_EventID r # seen) (Some m) ms)"

subsection \<open>Plans and generated pages (export_plan.go, export_generation.go, export_plan_schema.go)\<close>

definition exportGenerationID :: "Config \<Rightarrow> string \<Rightarrow> ExportPlan \<Rightarrow> string" where
  "exportGenerationID cfg secret plan =
     queryMAC cfg secret ''export.generation.plan.v1'' (ExportPlan_value (plan\<lparr>xp_Chunks := [], xp_Signature := ''''\<rparr>))"

definition exportChunkBinding :: "Config \<Rightarrow> string \<Rightarrow> ExportPlan \<Rightarrow> nat \<Rightarrow> ExportPlanChunk \<Rightarrow> bytes" where
  "exportChunkBinding cfg secret plan index chunk =
     string_bytes (queryMAC cfg secret ''export.generation.chunk.v1'' (VStruct
       [(StructField ''Plan'' True '''', VString (exportGenerationID cfg secret plan)),
        (StructField ''Object'' True '''', VString (pc_ObjectPath chunk)),
        (StructField ''Index'' True '''', VInt (int index)),
        (StructField ''First'' True '''', VInt (pc_First chunk)),
        (StructField ''Count'' True '''', VInt (pc_Count chunk)),
        (StructField ''SealVersion'' True '''', VInt (pc_SealVersion chunk))]))"

definition exportPages :: "nat \<Rightarrow> nat" where
  "exportPages n = (n + ExportGenerationPageEvents - 1) div ExportGenerationPageEvents"

fun validChunks :: "string \<Rightarrow> nat \<Rightarrow> time \<Rightarrow> nat \<Rightarrow> time \<Rightarrow> ExportPlanChunk list \<Rightarrow> bool" where
  "validChunks stub n now i previous [] = True"
| "validChunks stub n now i previous (chunk # chunks) =
     (let page = int ExportGenerationPageEvents;
          stem = stub @ padInt 4 (int i) @ ''-'';
          attempt = TrimSuffix (TrimPrefix (pc_ObjectPath chunk) stem) ''.bin''
      in pc_SealVersion chunk = 2 \<and> pc_First chunk = int i * page \<and> pc_Count chunk = min page (int n - int i * page)
         \<and> HasPrefix (pc_ObjectPath chunk) stem \<and> HasSuffix (pc_ObjectPath chunk) ''.bin''
         \<and> length attempt = 32 \<and> exportDigestPattern (attempt @ attempt)
         \<and> exportDigestPattern (pc_SealedDigest chunk) \<and> exportDigestPattern (pc_Digest chunk)
         \<and> pc_CreatedAt chunk \<noteq> 0 \<and> \<not> pc_CreatedAt chunk < previous \<and> \<not> now < pc_CreatedAt chunk
         \<and> validChunks stub n now (Suc i) (pc_CreatedAt chunk) chunks)"

definition validExportGeneration :: "Config \<Rightarrow> string \<Rightarrow> ExportPlan \<Rightarrow> time \<Rightarrow> bool" where
  "validExportGeneration cfg secret plan now \<longleftrightarrow>
     (if xp_Version plan = 1 then xp_Chunks plan = []
      else length (xp_Members plan) > ExportGenerationPageEvents
           \<and> length (xp_Chunks plan) \<le> exportPages (length (xp_Members plan))
           \<and> validChunks (''export-chunks/'' @ exportGenerationID cfg secret plan @ ''/'') (length (xp_Members plan)) now 0
               (xp_CreatedAt plan) (xp_Chunks plan))"

definition validExportPlan :: "Config \<Rightarrow> string \<Rightarrow> ExportJob \<Rightarrow> ExportPlan \<Rightarrow> time \<Rightarrow> bool" where
  "validExportPlan cfg secret job plan now \<longleftrightarrow>
     (xp_Version plan = 1 \<or> xp_Version plan = 2) \<and> xp_FormatVersion plan = 1 \<and> ej_ID job \<noteq> '''' \<and> ej_TenantID job \<noteq> ''''
     \<and> xp_JobID plan = ej_ID job \<and> xp_TenantID plan = ej_TenantID job \<and> ej_Status job = ''running'' \<and> ej_FinishedAt job = None
     \<and> ej_CreatedAt job \<noteq> 0
     \<and> (case ej_StartedAt job of None \<Rightarrow> False | Some started \<Rightarrow> started \<noteq> 0 \<and> \<not> xp_CreatedAt plan < started)
     \<and> ej_ObjectPath job = '''' \<and> ej_Digest job = '''' \<and> ej_EventCount job = 0
     \<and> xp_CreatedAt plan \<noteq> 0 \<and> \<not> now < xp_CreatedAt plan \<and> length (xp_Members plan) \<le> MaxExportPlanEvents
     \<and> exportDigestPattern (xp_Binding plan) \<and> exportDigestPattern (xp_Signature plan)
     \<and> xp_Binding plan = exportPlanBinding cfg secret job
     \<and> validMembers [] None (xp_Members plan) \<and> validExportGeneration cfg secret plan now
     \<and> (case js_Marshal (cf_Codec cfg) (Some (ExportPlan_value plan)) of Inl err \<Rightarrow> False | Inr raw \<Rightarrow> length raw \<le> MaxExportPlanBytes)
     \<and> xp_Signature plan = signExportPlan cfg secret plan"

definition planMember :: "Config \<Rightarrow> string \<Rightarrow> Event \<Rightarrow> EventSchema \<Rightarrow> ExportPlanMember" where
  "planMember cfg secret e schema =
     \<lparr>pm_Reference = \<lparr>er_OccurredAt = ev_OccurredAt e, er_EventID = ev_EventID e, er_StreamID = ev_StreamID e,
        er_Sequence = ev_Sequence e, er_Hash = ev_Hash e\<rparr>,
      pm_SchemaID = ev_SchemaID e, pm_SchemaVersion = ev_SchemaVersion e, pm_SchemaDigest = exportPlanSchemaDigest cfg secret schema\<rparr>"

fun planMembers :: "Config \<Rightarrow> string \<Rightarrow> string \<Rightarrow> EventSchema gomap \<Rightarrow> Event list \<Rightarrow> ExportPlanMember list result" where
  "planMembers cfg secret tenantID schemas [] = Inr []"
| "planMembers cfg secret tenantID schemas (e # es) =
     (let schema = mget_or zeroSchema schemas (SchemaKey tenantID (ev_SchemaID e) (ev_SchemaVersion e)) in
      if \<not> schemaBody tenantID e schema then Inl errExportPlanInvalid
      else rbind (planMembers cfg secret tenantID schemas es) (\<lambda>ms. Inr (planMember cfg secret e schema # ms)))"

definition newExportPlan :: "Config \<Rightarrow> string \<Rightarrow> time \<Rightarrow> ExportJob \<Rightarrow> Event list \<Rightarrow> EventSchema gomap \<Rightarrow> ExportPlan result" where
  "newExportPlan cfg secret now job events schemas =
     (if length events > MaxExportPlanEvents then Inl (Err ErrQuotaExceeded '''')
      else rbind (planMembers cfg secret (ej_TenantID job) schemas events) (\<lambda>ms0.
        let unsigned = \<lparr>xp_Version = (if length events > ExportGenerationPageEvents then 2 else 1), xp_FormatVersion = 1,
              xp_JobID = ej_ID job, xp_TenantID = ej_TenantID job, xp_Binding = exportPlanBinding cfg secret job, xp_CreatedAt = now,
              xp_Members = ms0, xp_Chunks = [], xp_Signature = ''''\<rparr>;
            plan = unsigned\<lparr>xp_Signature := signExportPlan cfg secret unsigned\<rparr>;
            reserved = (if xp_Version plan = 2 then exportPages (length events) * 1024 else 0)
        in case js_Marshal (cf_Codec cfg) (Some (ExportPlan_value plan)) of
             Inl err \<Rightarrow> Inl (Err ErrQuotaExceeded ''export execution plan byte budget exceeded'')
           | Inr raw \<Rightarrow>
               if length raw + reserved > MaxExportPlanBytes
               then Inl (Err ErrQuotaExceeded ''export execution plan byte budget exceeded'')
               else if \<not> validExportPlan cfg secret job plan now then Inl errExportPlanInvalid
               else Inr plan))"

definition exportPlanSchemasMatch :: "Config \<Rightarrow> string \<Rightarrow> Snapshot \<Rightarrow> ExportPlan \<Rightarrow> bool" where
  "exportPlanSchemasMatch cfg secret data plan \<longleftrightarrow>
     (\<forall>m \<in> set (xp_Members plan).
        let schema = mget_or zeroSchema (sn_Schemas data) (SchemaKey (xp_TenantID plan) (pm_SchemaID m) (pm_SchemaVersion m)) in
        es_TenantID schema = xp_TenantID plan \<and> es_SchemaID schema = pm_SchemaID m \<and> es_Version schema = pm_SchemaVersion m
        \<and> exportPlanSchemaDigest cfg secret schema = pm_SchemaDigest m)"

definition exportPlanMatches :: "Config \<Rightarrow> string \<Rightarrow> time \<Rightarrow> Snapshot \<Rightarrow> ExportJob \<Rightarrow> exportClaim \<Rightarrow> bool" where
  "exportPlanMatches cfg secret now data job claim \<longleftrightarrow>
     (case mget (sn_ExportPlans data) (ej_ID job) of
        None \<Rightarrow> xp_Version (ec_Plan claim) = 0
      | Some plan \<Rightarrow> xp_Version (ec_Plan claim) \<noteq> 0 \<and> xp_Signature plan = xp_Signature (ec_Plan claim)
          \<and> validExportPlan cfg secret job plan now \<and> validExportPlan cfg secret job (ec_Plan claim) now)"

definition checkExportPlan :: "Config \<Rightarrow> string \<Rightarrow> time \<Rightarrow> exportClaim \<Rightarrow> Snapshot \<Rightarrow> error option" where
  "checkExportPlan cfg secret now claim data =
     (let job = mget_or zeroJob (sn_Exports data) (ej_ID (ec_Job claim)) in
      if \<not> ownsExportLease data job claim now then Some errExportLeaseLost
      else if \<not> exportPlanMatches cfg secret now data job claim
          \<or> (xp_Version (ec_Plan claim) \<noteq> 0 \<and> \<not> exportPlanSchemasMatch cfg secret data (ec_Plan claim))
      then Some errExportPlanInvalid else None)"

definition validExportArtifacts :: "Config \<Rightarrow> string \<Rightarrow> Snapshot \<Rightarrow> ExportJob \<Rightarrow> time \<Rightarrow> error option" where
  "validExportArtifacts cfg secret data job now =
     (let plan = mget (sn_ExportPlans data) (ej_ID job); cp = mget (sn_ExportCheckpoints data) (ej_ID job) in
      if plan \<noteq> None \<and> (cp \<noteq> None \<or> \<not> validExportPlan cfg secret job (the plan) now) then Some errExportPlanInvalid
      else if cp \<noteq> None \<and> \<not> validExportCheckpoint cfg secret job (the cp) now then Some errExportCheckpointInvalid
      else None)"

definition exportGeneratedMembers :: "ExportPlan \<Rightarrow> int" where
  "exportGeneratedMembers plan = (if xp_Chunks plan = [] then 0 else pc_First (last (xp_Chunks plan)) + pc_Count (last (xp_Chunks plan)))"

definition checkExportGenerationAccess :: "Config \<Rightarrow> string \<Rightarrow> time \<Rightarrow> exportClaim \<Rightarrow> Snapshot \<Rightarrow> error option" where
  "checkExportGenerationAccess cfg secret now claim data =
     (let job = mget_or zeroJob (sn_Exports data) (ej_ID (ec_Job claim)) in
      if \<not> ownsExportLease data job claim now then Some errExportLeaseLost
      else if \<not> exportPlanMatches cfg secret now data job claim \<or> \<not> exportPlanSchemasMatch cfg secret data (ec_Plan claim)
          \<or> ec_HoldBinding claim = '''' \<or> ec_HoldBinding claim \<noteq> exportHoldBinding cfg secret data (ej_TenantID job)
      then Some errExportPlanInvalid else None)"

subsection \<open>The exported bytes (export_generation_execution.go, export_plan_output.go, export_checkpoint_finalize.go)\<close>

record exportIdentity =
  xi_Reference :: EventReference
  xi_TenantID :: string
  xi_SchemaID :: string
  xi_SchemaVersion :: int

fun anyOf :: "gval \<Rightarrow> any" where
  "anyOf (VRef v) = v"
| "anyOf v = Some v"

fun payloadOf :: "any \<Rightarrow> payload option" where
  "payloadOf (Some (VMap b (Some kvs))) = Some (map (\<lambda>kv. (fst kv, anyOf (snd kv))) kvs)"
| "payloadOf _ = None"

fun encodeExportEvents :: "Config \<Rightarrow> Event list \<Rightarrow> string result" where
  "encodeExportEvents cfg [] = Inr ''''"
| "encodeExportEvents cfg (e # es) =
     rbind (StripSearchDigests (cf_Codec cfg) (ev_Payload e)) (\<lambda>stripped.
     rbind (CanonicalJSON (Event_value (e\<lparr>ev_Payload := payloadOf stripped\<rparr>))) (\<lambda>line.
     rbind (encodeExportEvents cfg es) (\<lambda>rest. Inr (line @ [CHR 0x0A] @ rest))))"

fun linesMatch :: "(string \<Rightarrow> exportIdentity result) \<Rightarrow> string \<Rightarrow> string list \<Rightarrow> ExportPlanMember list \<Rightarrow> bool" where
  "linesMatch identity tenantID [] [] = True"
| "linesMatch identity tenantID (line # ls) (m # ms) =
     ((case identity line of
         Inl err \<Rightarrow> False
       | Inr i \<Rightarrow> xi_TenantID i = tenantID \<and> xi_Reference i = pm_Reference m
           \<and> xi_SchemaID i = pm_SchemaID m \<and> xi_SchemaVersion i = pm_SchemaVersion m)
      \<and> linesMatch identity tenantID ls ms)"
| "linesMatch identity tenantID _ _ = False"

definition exportPlainMatchesPlan :: "(string \<Rightarrow> exportIdentity result) \<Rightarrow> string \<Rightarrow> ExportPlan \<Rightarrow> bool" where
  "exportPlainMatchesPlan identity plain plan \<longleftrightarrow>
     (if xp_Members plan = [] then plain = ''''
      else let ls = SplitByte (CHR 0x0A) plain in
           length ls = length (xp_Members plan) + 1 \<and> last ls = '''' \<and> linesMatch identity (xp_TenantID plan) (butlast ls) (xp_Members plan))"

definition authenticateExportChunk :: "Config \<Rightarrow> string \<Rightarrow> (string \<Rightarrow> exportIdentity result) \<Rightarrow> ExportPlan \<Rightarrow> nat \<Rightarrow> string \<Rightarrow> string result" where
  "authenticateExportChunk cfg secret identity plan index sealed =
     (let chunk = xp_Chunks plan ! index in
      if \<not> HasPrefix sealed exportV2Prefix \<or> HashBytes sealed \<noteq> pc_SealedDigest chunk then Inl errExportPlanInvalid
      else case DecryptExport (cf_Aead cfg) (string_bytes sealed) (cf_EncryptionKey cfg) (exportChunkBinding cfg secret plan index chunk) of
        Inl err \<Rightarrow> Inl errExportPlanInvalid
      | Inr bs \<Rightarrow>
          let plain = bytes_string bs; page = plan\<lparr>xp_Members := take (nat (pc_Count chunk)) (drop (nat (pc_First chunk)) (xp_Members plan))\<rparr>
          in if HashBytes plain \<noteq> pc_Digest chunk \<or> \<not> exportPlainMatchesPlan identity plain page then Inl errExportPlanInvalid
             else Inr plain)"

definition checkpointEvidence :: error where
  "checkpointEvidence = Err ErrConflict ''sealed export checkpoint evidence verification failed''"

fun identityReferences :: "(string \<Rightarrow> exportIdentity result) \<Rightarrow> string \<Rightarrow> string list \<Rightarrow> EventReference list result" where
  "identityReferences identity tenantID [] = Inr []"
| "identityReferences identity tenantID (line # ls) =
     (case identity line of
        Inl err \<Rightarrow> Inl checkpointEvidence
      | Inr i \<Rightarrow>
          if xi_TenantID i \<noteq> tenantID \<or> xi_SchemaID i = '''' \<or> xi_SchemaVersion i \<le> 0 then Inl checkpointEvidence
          else rbind (identityReferences identity tenantID ls) (\<lambda>refs. Inr (xi_Reference i # refs)))"

definition authenticateExportCheckpoint :: "Config \<Rightarrow> (string \<Rightarrow> exportIdentity result) \<Rightarrow> exportClaim \<Rightarrow> string \<Rightarrow> EventReference list result" where
  "authenticateExportCheckpoint cfg identity claim sealed =
     (let cp = ec_Checkpoint claim; job = ec_Job claim in
      if \<not> HasPrefix sealed ''export:v2:'' \<or> HashBytes sealed \<noteq> xc_SealedDigest cp then Inl checkpointEvidence
      else case DecryptExport (cf_Aead cfg) (string_bytes sealed) (cf_EncryptionKey cfg)
                  (string_bytes (ExportBinding (ej_TenantID job) (ej_ID job))) of
        Inl err \<Rightarrow> Inl checkpointEvidence
      | Inr bs \<Rightarrow>
          let plain = bytes_string bs; ls = SplitByte (CHR 0x0A) plain in
          if HashBytes plain \<noteq> xc_Digest cp then Inl checkpointEvidence
          else if xc_EventCount cp = 0 \<and> plain = '''' then Inr []
          else if int (length ls) \<noteq> xc_EventCount cp + 1 \<or> last ls \<noteq> '''' then Inl checkpointEvidence
          else identityReferences identity (ej_TenantID job) (butlast ls))"

fun verifyReferences :: "Snapshot \<Rightarrow> string \<Rightarrow> string list \<Rightarrow> EventReference list \<Rightarrow> error option" where
  "verifyReferences data tenantID seen [] = None"
| "verifyReferences data tenantID seen (r # rs) =
     (if er_EventID r = '''' \<or> er_OccurredAt r = 0 \<or> er_EventID r \<in> set seen then Some (Err ErrConflict ''invalid projected identity'')
      else case mget (sn_Receipts data) (EventKey tenantID (er_EventID r)) of
        None \<Rightarrow> Some (Err ErrConflict ''projected identity differs from committed ledger'')
      | Some receipt \<Rightarrow>
          if rc_TenantID receipt \<noteq> tenantID \<or> rc_EventID receipt \<noteq> er_EventID r \<or> er_StreamID r \<noteq> rc_StreamID receipt
             \<or> er_Sequence r \<noteq> rc_Sequence receipt \<or> er_Hash r \<noteq> rc_Hash receipt
          then Some (Err ErrConflict ''projected identity differs from committed ledger'')
          else verifyReferences data tenantID (er_EventID r # seen) rs)"

definition verifyQueryReferences :: "Snapshot \<Rightarrow> string \<Rightarrow> EventReference list \<Rightarrow> error option" where
  "verifyQueryReferences data tenantID refs =
     (if length refs > MaxQuerySnapshotEvents then Some (Err ErrQuotaExceeded '''') else verifyReferences data tenantID [] refs)"

subsection \<open>Transitions of a job (export_recovery.go, export_plan.go, export_generation.go, export_checkpoint.go, export.go)\<close>

text \<open>
  A closure answers with an error, which saves nothing, or with whether it changed the document. The
  audit facts of one closure share the identifier argument.
\<close>

definition exportFact :: "Config \<Rightarrow> string \<Rightarrow> time \<Rightarrow> string \<Rightarrow> string \<Rightarrow> string \<Rightarrow> string \<Rightarrow> string \<Rightarrow> Snapshot \<Rightarrow> Snapshot" where
  "exportFact cfg factID now tenantID actor action jobID detail data =
     appendAdminAction cfg (adminAction factID now tenantID actor action ''export'' jobID detail) data"

definition claimExport :: "Config \<Rightarrow> string \<Rightarrow> string \<Rightarrow> string \<Rightarrow> time \<Rightarrow> string \<Rightarrow> bool \<Rightarrow> Snapshot \<Rightarrow> (exportClaim option \<times> Snapshot) result" where
  "claimExport cfg secret owner factID now jobID allowCheckpoint data =
     (case mget (sn_Exports data) jobID of
        None \<Rightarrow> Inr (None, data)
      | Some v \<Rightarrow>
          if ej_Status v \<noteq> ''pending'' \<and> (\<not> allowCheckpoint \<or> ej_Status v \<noteq> ''running'') then Inr (None, data)
          else if ej_ID v \<noteq> jobID \<or> ej_TenantID v = '''' \<or> ej_FinishedAt v \<noteq> None
          then Inl (Err ErrConflict ''invalid export identity or terminal marker'')
          else
            let cp = mget (sn_ExportCheckpoints data) jobID; plan = mget (sn_ExportPlans data) jobID;
                fresh = \<lparr>xl_Version = 1, xl_JobID = jobID, xl_TenantID = ej_TenantID v, xl_Owner = owner, xl_HeartbeatAt = now,
                         xl_ExpiresAt = now + ExportLeaseDuration\<rparr>;
                claimed = (\<lambda>job d. Inr (Some \<lparr>ec_Job = job, ec_Owner = owner,
                     ec_Checkpoint = (case cp of None \<Rightarrow> zeroCheckpoint | Some c \<Rightarrow> c),
                     ec_Plan = (case plan of None \<Rightarrow> zeroPlan | Some p \<Rightarrow> p), ec_HoldBinding = ''''\<rparr>,
                   d\<lparr>sn_Exports := mput (sn_Exports d) jobID job, sn_ExportLeases := mput (sn_ExportLeases d) jobID fresh\<rparr>))
            in if ej_Status v = ''running'' then
                 let lease = mget_or zeroLease (sn_ExportLeases data) jobID in
                 if cp = None \<and> plan = None then Inr (None, data)
                 else if \<not> validExportLease v lease then Inl errExportPlanInvalid
                 else guardE (validExportArtifacts cfg secret data v now)
                   (if xl_ExpiresAt lease > now \<or> \<not> exportCheckpointHasCapacity (sn_Exports data) (ej_TenantID v) then Inr (None, data)
                    else claimed v (exportFact cfg factID now (ej_TenantID v) ''governance-worker'' ''export.resumed'' (ej_ID v)
                      (case plan of
                         None \<Rightarrow> ''stage=sealed version=1''
                       | Some p \<Rightarrow> if xp_Chunks p \<noteq> [] then ''stage=generating version=1'' else ''stage=selected version='' @ itoa (xp_Version p))
                      data))
               else if mget (sn_ExportLeases data) jobID \<noteq> None \<or> cp \<noteq> None \<or> plan \<noteq> None
               then Inl (Err ErrConflict ''pending export has unexpected execution metadata'')
               else if \<not> exportClaimHasCapacity (sn_Exports data) (ej_TenantID v) then Inr (None, data)
               else claimed (v\<lparr>ej_Status := ''running'', ej_StartedAt := Some now\<rparr>) data)"

definition claimPendingExport :: "Config \<Rightarrow> string \<Rightarrow> string \<Rightarrow> string \<Rightarrow> time \<Rightarrow> string \<Rightarrow> Snapshot \<Rightarrow> (exportClaim option \<times> Snapshot) result" where
  "claimPendingExport cfg secret owner factID now jobID = claimExport cfg secret owner factID now jobID False"

definition saveExportPlan :: "Config \<Rightarrow> string \<Rightarrow> string \<Rightarrow> time \<Rightarrow> exportClaim \<Rightarrow> ExportPlan \<Rightarrow> Snapshot \<Rightarrow> (bool \<times> Snapshot) result" where
  "saveExportPlan cfg secret factID now claim plan data =
     (let job = mget_or zeroJob (sn_Exports data) (ej_ID (ec_Job claim)) in
      if \<not> ownsExportLease data job claim now then Inl errExportLeaseLost
      else if mget (sn_ExportCheckpoints data) (ej_ID job) \<noteq> None \<or> \<not> validExportPlan cfg secret job plan now
          \<or> \<not> exportPlanSchemasMatch cfg secret data plan \<or> \<not> exportCheckpointHasCapacity (sn_Exports data) (ej_TenantID job)
      then Inl errExportPlanInvalid
      else case mget (sn_ExportPlans data) (ej_ID job) of
        Some previous \<Rightarrow>
          if \<not> validExportPlan cfg secret job previous now \<or> xp_Signature previous \<noteq> xp_Signature plan then Inl errExportPlanInvalid
          else Inr (False, data)
      | None \<Rightarrow>
          Inr (True, exportFact cfg factID now (ej_TenantID job) ''governance-worker'' ''export.planned'' (ej_ID job)
                 (''stage=selected version='' @ itoa (xp_Version plan))
                 (data\<lparr>sn_ExportPlans := mput (sn_ExportPlans data) (ej_ID job) plan\<rparr>)))"

definition saveExportChunk :: "Config \<Rightarrow> string \<Rightarrow> string \<Rightarrow> time \<Rightarrow> exportClaim \<Rightarrow> ExportPlanChunk \<Rightarrow> Snapshot \<Rightarrow> (ExportPlan \<times> Snapshot) result" where
  "saveExportChunk cfg secret factID now claim chunk data =
     (let unsigned = (ec_Plan claim)\<lparr>xp_Chunks := xp_Chunks (ec_Plan claim) @ [chunk]\<rparr>;
          plan = unsigned\<lparr>xp_Signature := signExportPlan cfg secret unsigned\<rparr>;
          job = mget_or zeroJob (sn_Exports data) (ej_ID (ec_Job claim))
      in if \<not> ownsExportLease data job claim now then Inl errExportLeaseLost
         else if xp_Version (ec_Plan claim) \<noteq> 2 \<or> mget (sn_ExportCheckpoints data) (ej_ID (ec_Job claim)) \<noteq> None
             \<or> \<not> exportPlanMatches cfg secret now data job claim \<or> \<not> validExportPlan cfg secret job plan now
             \<or> \<not> exportPlanSchemasMatch cfg secret data plan \<or> \<not> exportCheckpointHasCapacity (sn_Exports data) (ej_TenantID job)
             \<or> ec_HoldBinding claim = '''' \<or> ec_HoldBinding claim \<noteq> exportHoldBinding cfg secret data (ej_TenantID job)
         then Inl errExportPlanInvalid
         else Inr (plan, exportFact cfg factID now (ej_TenantID job) ''governance-worker'' ''export.progressed'' (ej_ID job)
                (''stage=generating version=1 pages='' @ itoa (int (length (xp_Chunks plan))))
                (data\<lparr>sn_ExportPlans := mput (sn_ExportPlans data) (ej_ID job) plan\<rparr>)))"

definition newExportCheckpoint :: "Config \<Rightarrow> string \<Rightarrow> time \<Rightarrow> exportClaim \<Rightarrow> string \<Rightarrow> string \<Rightarrow> int \<Rightarrow> ExportCheckpoint" where
  "newExportCheckpoint cfg secret now claim sealed plain n =
     (let cp = \<lparr>xc_Version = 1, xc_SealVersion = 2, xc_JobID = ej_ID (ec_Job claim), xc_TenantID = ej_TenantID (ec_Job claim),
            xc_Binding = exportCheckpointBinding cfg secret (ec_Job claim), xc_ObjectPath = exportObjectKey claim,
            xc_SealedDigest = HashBytes sealed, xc_Digest = HashBytes plain, xc_EventCount = n, xc_CreatedAt = now, xc_Signature = ''''\<rparr>
      in cp\<lparr>xc_Signature := signExportCheckpoint cfg secret cp\<rparr>)"

definition saveExportCheckpoint :: "Config \<Rightarrow> string \<Rightarrow> (string \<Rightarrow> exportIdentity result) \<Rightarrow> string \<Rightarrow> time \<Rightarrow> exportClaim \<Rightarrow> string \<Rightarrow> string
     \<Rightarrow> int \<Rightarrow> Snapshot \<Rightarrow> (ExportCheckpoint \<times> Snapshot) result" where
  "saveExportCheckpoint cfg secret identity factID now claim sealed plain n data =
     (let plan = ec_Plan claim; jobID = ej_ID (ec_Job claim); cp = newExportCheckpoint cfg secret now claim sealed plain n;
          job = mget_or zeroJob (sn_Exports data) jobID
      in if xp_Version plan \<noteq> 0 \<and> (n \<noteq> int (length (xp_Members plan)) \<or> \<not> exportPlainMatchesPlan identity plain plan
             \<or> (xp_Version plan = 2 \<and> exportGeneratedMembers plan \<noteq> n))
         then Inl errExportPlanInvalid
         else if \<not> ownsExportLease data job claim now then Inl errExportLeaseLost
         else if \<not> validExportCheckpoint cfg secret job cp now then Inl errExportCheckpointInvalid
         else case mget (sn_ExportCheckpoints data) jobID of
           Some previous \<Rightarrow> if previous \<noteq> cp then Inl errExportCheckpointInvalid else Inr (cp, data)
         | None \<Rightarrow>
             if \<not> exportPlanMatches cfg secret now data job claim
                \<or> (xp_Version plan \<noteq> 0 \<and> \<not> exportPlanSchemasMatch cfg secret data plan)
             then Inl errExportPlanInvalid
             else Inr (cp, exportFact cfg factID now (ej_TenantID job) ''governance-worker'' ''export.checkpointed'' (ej_ID job)
                    ''stage=sealed version=1''
                    (data\<lparr>sn_ExportCheckpoints := mput (sn_ExportCheckpoints data) jobID cp,
                          sn_ExportPlans := mdel (sn_ExportPlans data) jobID\<rparr>)))"

definition terminalExportCheckpointMatches :: "Config \<Rightarrow> string \<Rightarrow> time \<Rightarrow> Snapshot \<Rightarrow> ExportJob \<Rightarrow> exportClaim \<Rightarrow> string \<Rightarrow> string \<Rightarrow> string
     \<Rightarrow> int \<Rightarrow> bool" where
  "terminalExportCheckpointMatches cfg secret now data job claim status path digest n \<longleftrightarrow>
     (case mget (sn_ExportCheckpoints data) (ej_ID job) of
        None \<Rightarrow> xc_Version (ec_Checkpoint claim) = 0
      | Some cp \<Rightarrow>
          cp = ec_Checkpoint claim \<and> validExportCheckpoint cfg secret job cp now
          \<and> (status \<noteq> ''completed'' \<or> path = xc_ObjectPath cp \<and> digest = xc_Digest cp \<and> n = xc_EventCount cp
             \<and> ec_HoldBinding claim \<noteq> '''' \<and> ec_HoldBinding claim = exportHoldBinding cfg secret data (ej_TenantID job)))"

text \<open>What \<open>onWrite\<close> adds to the terminal write: nothing, the denial by a hold, or the rejection of a checkpoint.\<close>

datatype exportOutcome = PlainOutcome | BlockedOutcome LegalHold | RejectedOutcome

fun onWrite :: "Config \<Rightarrow> string \<Rightarrow> time \<Rightarrow> exportOutcome \<Rightarrow> ExportJob \<Rightarrow> Snapshot \<Rightarrow> ExportJob \<times> Snapshot" where
  "onWrite cfg factID now PlainOutcome job data = (job, data)"
| "onWrite cfg factID now (BlockedOutcome hold) job data =
     (job\<lparr>ej_FailureCode := ExportFailureLegalHold\<rparr>,
      appendAdminAction cfg (adminAction factID now (ej_TenantID job) ''governance-worker'' ''export.blocked'' ''legal_hold'' (lh_ID hold)
        (''export_blocked reason='' @ lh_Reason hold)) data)"
| "onWrite cfg factID now RejectedOutcome job data =
     (job, exportFact cfg factID now (ej_TenantID job) ''governance-worker'' ''export.checkpoint_rejected'' (ej_ID job)
        ''stage=sealed verification_failed'' data)"

definition persistTerminalExport :: "Config \<Rightarrow> string \<Rightarrow> string \<Rightarrow> time \<Rightarrow> exportClaim \<Rightarrow> string \<Rightarrow> string \<Rightarrow> string \<Rightarrow> string \<Rightarrow> int \<Rightarrow> string
     \<Rightarrow> exportOutcome \<Rightarrow> Snapshot \<Rightarrow> (bool \<times> Snapshot) result" where
  "persistTerminalExport cfg secret factID now claim jobID status path digest n failure outcome data =
     (if \<not> exportClaimFromContext claim \<or> ej_ID (ec_Job claim) \<noteq> jobID then Inr (False, data)
      else case mget (sn_Exports data) jobID of
        None \<Rightarrow> Inr (False, data)
      | Some v \<Rightarrow>
          if \<not> ownsExportLease data v claim now then Inr (False, data)
          else if \<not> exportPlanMatches cfg secret now data v claim \<or> (mget (sn_ExportPlans data) jobID \<noteq> None \<and> status = ''completed'')
          then Inl errExportPlanInvalid
          else if \<not> terminalExportCheckpointMatches cfg secret now data v claim status path digest n then Inl errExportCheckpointInvalid
          else
            let data1 = (if mget (sn_ExportCheckpoints data) jobID \<noteq> None \<and> status = ''completed''
                         then exportFact cfg factID now (ej_TenantID v) ''governance-worker'' ''export.completed'' jobID
                                ''stage=sealed status=completed'' data
                         else data);
                job = v\<lparr>ej_Status := status, ej_FinishedAt := Some now, ej_ObjectPath := path, ej_Digest := digest, ej_EventCount := n,
                       ej_Error := failure, ej_FailureCode := (if status = ''failed'' then ExportFailureExecution else '''')\<rparr>;
                data2 = data1\<lparr>sn_ExportLeases := mdel (sn_ExportLeases data1) jobID,
                       sn_ExportCheckpoints := mdel (sn_ExportCheckpoints data1) jobID, sn_ExportPlans := mdel (sn_ExportPlans data1) jobID\<rparr>
            in case onWrite cfg factID now outcome job data2 of
                 (job1, data3) \<Rightarrow> Inr (True, data3\<lparr>sn_Exports := mput (sn_Exports data3) jobID job1\<rparr>))"

definition finishExport :: "Config \<Rightarrow> string \<Rightarrow> string \<Rightarrow> time \<Rightarrow> exportClaim \<Rightarrow> string \<Rightarrow> string \<Rightarrow> string \<Rightarrow> string \<Rightarrow> int \<Rightarrow> string
     \<Rightarrow> Snapshot \<Rightarrow> (bool \<times> Snapshot) result" where
  "finishExport cfg secret factID now claim jobID status path digest n failure =
     persistTerminalExport cfg secret factID now claim jobID status path digest n failure PlainOutcome"

definition failExportBlocked :: "Config \<Rightarrow> string \<Rightarrow> string \<Rightarrow> time \<Rightarrow> exportClaim \<Rightarrow> string \<Rightarrow> LegalHold \<Rightarrow> Snapshot \<Rightarrow> (bool \<times> Snapshot) result" where
  "failExportBlocked cfg secret factID now claim jobID hold =
     persistTerminalExport cfg secret factID now claim jobID ''failed'' '''' '''' 0
       (''export blocked by active legal hold '' @ lh_ID hold) (BlockedOutcome hold)"

definition rejectExportCheckpoint :: "Config \<Rightarrow> string \<Rightarrow> string \<Rightarrow> time \<Rightarrow> exportClaim \<Rightarrow> Snapshot \<Rightarrow> (bool \<times> Snapshot) result" where
  "rejectExportCheckpoint cfg secret factID now claim =
     persistTerminalExport cfg secret factID now claim (ej_ID (ec_Job claim)) ''failed'' '''' '''' 0
       ''sealed export checkpoint evidence verification failed'' RejectedOutcome"

subsection \<open>Requests: create, retry, cancel (export.go, export_creation.go, export_retry.go, export_actions.go)\<close>

definition exportBlockedError :: "string \<Rightarrow> error" where
  "exportBlockedError holdID = Err ErrForbidden (''export blocked by active legal hold '' @ holdID)"

text \<open>
  The shared preflight: the audited query read (its error is the argument \<open>queried\<close>), the hold gate on a
  captured snapshot, and the denial fact in its own update of the current document.
\<close>

definition prepareExport :: "Config \<Rightarrow> string \<Rightarrow> (string \<Rightarrow> string result) \<Rightarrow> string \<Rightarrow> time \<Rightarrow> string \<Rightarrow> string \<Rightarrow> Query \<Rightarrow> error option
     \<Rightarrow> Snapshot \<Rightarrow> Snapshot \<Rightarrow> string result \<times> Snapshot" where
  "prepareExport cfg secret get factID now tenantID actor q queried captured data =
     (case queried of
        Some err \<Rightarrow> (Inl err, data)
      | None \<Rightarrow>
          (case holdBlockingExportEvidence cfg get captured (zeroJob\<lparr>ej_TenantID := tenantID, ej_Query := q\<rparr>) of
             Inl err \<Rightarrow> (Inl err, data)
           | Inr None \<Rightarrow> (Inr (exportHoldBinding cfg secret captured tenantID), data)
           | Inr (Some hold) \<Rightarrow>
               (Inl (exportBlockedError (lh_ID hold)),
                appendAdminAction cfg (adminAction factID now tenantID actor ''export.blocked'' ''legal_hold'' (lh_ID hold)
                  (''export_blocked reason='' @ lh_Reason hold)) data)))"

definition checkExportPreflight :: "Config \<Rightarrow> string \<Rightarrow> Snapshot \<Rightarrow> string \<Rightarrow> string \<Rightarrow> error option" where
  "checkExportPreflight cfg secret data tenantID holdBinding =
     (if holdBinding = '''' \<or> holdBinding \<noteq> exportHoldBinding cfg secret data tenantID
      then Some (Err ErrConflict ''export Hold changed during preflight; refresh before retrying'') else None)"

definition formatRFC3339 :: "time \<Rightarrow> string" where
  "formatRFC3339 t = formatRFC3339Nano (t - t mod 1000000000)"

definition admitExport :: "Config \<Rightarrow> string \<Rightarrow> string \<Rightarrow> time \<Rightarrow> string \<Rightarrow> ExportJob \<Rightarrow> Snapshot \<Rightarrow> Snapshot result" where
  "admitExport cfg secret factID now holdBinding job data =
     guardE (checkExportPreflight cfg secret data (ej_TenantID job) holdBinding)
     (if \<not> exportQueueHasCapacity (sn_Exports data) (ej_TenantID job) then Inl (Err ErrQuotaExceeded ''export queue capacity exhausted'')
      else Inr (exportFact cfg factID now (ej_TenantID job) (ej_RequestedBy job) ''export.created'' (ej_ID job)
             (''from='' @ formatRFC3339 (qy_From (ej_Query job)) @ '' to='' @ formatRFC3339 (qy_To (ej_Query job)))
             (data\<lparr>sn_Exports := mput (sn_Exports data) (ej_ID job) job\<rparr>)))"

definition CreateExport :: "Config \<Rightarrow> string \<Rightarrow> (string \<Rightarrow> string result) \<Rightarrow> string \<Rightarrow> string \<Rightarrow> time \<Rightarrow> string \<Rightarrow> string \<Rightarrow> Query \<Rightarrow> error option
     \<Rightarrow> Snapshot \<Rightarrow> Snapshot \<Rightarrow> ExportJob result \<times> Snapshot" where
  "CreateExport cfg secret get newID factID now tenantID requestedBy q queried captured data =
     (case requireTenantScope tenantID of
        Some err \<Rightarrow> (Inl err, data)
      | None \<Rightarrow>
          (case prepareExport cfg secret get factID now tenantID requestedBy q queried captured data of
             (Inl err, data1) \<Rightarrow> (Inl err, data1)
           | (Inr holdBinding, data1) \<Rightarrow>
               let job = zeroJob\<lparr>ej_ID := newID, ej_TenantID := tenantID, ej_RequestedBy := requestedBy, ej_Query := q,
                           ej_Status := ''pending'', ej_CreatedAt := now\<rparr>
               in case admitExport cfg secret factID now holdBinding job data1 of
                    Inl err \<Rightarrow> (Inl err, data1)
                  | Inr data2 \<Rightarrow> (Inr job, data2)))"

definition exportActionScope :: "string \<Rightarrow> string \<Rightarrow> string \<Rightarrow> error option" where
  "exportActionScope tenantID actor jobID =
     firstErr [requireTenantScope tenantID,
       if TrimSpace actor = '''' \<or> TrimSpace jobID = '''' then Some (Err ErrInvalid ''actor and export id are required'') else None]"

definition ownedExport :: "Snapshot \<Rightarrow> string \<Rightarrow> string \<Rightarrow> string \<Rightarrow> ExportJob result" where
  "ownedExport data tenantID actor jobID =
     (case mget (sn_Exports data) jobID of
        None \<Rightarrow> Inl (Err ErrNotFound '''')
      | Some job \<Rightarrow>
          if ej_TenantID job \<noteq> tenantID then Inl (Err ErrNotFound '''')
          else if ej_RequestedBy job = '''' \<or> ej_RequestedBy job \<noteq> actor then Inl (Err ErrForbidden '''')
          else if ej_ID job \<noteq> jobID then Inl (Err ErrConflict ''export control identity mismatch'')
          else Inr job)"

definition retryableExport :: "ExportJob \<Rightarrow> bool" where
  "retryableExport job \<longleftrightarrow>
     (ej_Status job = ''failed'' \<or> ej_Status job = ExportStatusCancelled) \<and> (case ej_FinishedAt job of None \<Rightarrow> False | Some f \<Rightarrow> f \<noteq> 0)"

definition executionMetadata :: "Snapshot \<Rightarrow> string \<Rightarrow> bool" where
  "executionMetadata data jobID \<longleftrightarrow>
     mget (sn_ExportLeases data) jobID \<noteq> None \<or> mget (sn_ExportCheckpoints data) jobID \<noteq> None \<or> mget (sn_ExportPlans data) jobID \<noteq> None"

definition ownedRetrySource :: "Snapshot \<Rightarrow> string \<Rightarrow> string \<Rightarrow> string \<Rightarrow> ExportJob result" where
  "ownedRetrySource data tenantID actor jobID =
     rbind (ownedExport data tenantID actor jobID) (\<lambda>job.
       if \<not> retryableExport job \<or> executionMetadata data jobID then Inl (Err ErrConflict ''export is not retryable'') else Inr job)"

definition exportRetrySuccessor :: "Snapshot \<Rightarrow> ExportJob \<Rightarrow> ExportSummary option result" where
  "exportRetrySuccessor data source =
     (let q = (ej_Query source)\<lparr>qy_Cursor := ''''\<rparr>;
          children = filter (\<lambda>(key, child). ej_RetryOf child = ej_ID source) (sn_Exports data)
      in case children of
           [] \<Rightarrow> Inr None
         | [(key, child)] \<Rightarrow>
             if ej_ID child \<noteq> key \<or> ej_ID child = ej_ID source \<or> ej_TenantID child \<noteq> ej_TenantID source
                \<or> ej_RequestedBy child \<noteq> ej_RequestedBy source \<or> ej_Query child \<noteq> q
             then Inl (Err ErrConflict ''invalid export retry linkage'') else Inr (Some (SummarizeExport child))
         | _ \<Rightarrow> Inl (Err ErrConflict ''invalid export retry linkage''))"

definition admitRetry :: "Config \<Rightarrow> string \<Rightarrow> string \<Rightarrow> time \<Rightarrow> string \<Rightarrow> ExportJob \<Rightarrow> ExportJob \<Rightarrow> string \<Rightarrow> Snapshot
     \<Rightarrow> (ExportSummary \<times> Snapshot) result" where
  "admitRetry cfg secret factID now holdBinding source child actor data =
     rbind (ownedRetrySource data (ej_TenantID child) actor (ej_ID source)) (\<lambda>current.
       if source \<noteq> current then Inl (Err ErrConflict ''export changed during retry preflight'')
       else rbind (exportRetrySuccessor data current) (\<lambda>found.
         case found of
           Some summary \<Rightarrow> Inr (summary, data)
         | None \<Rightarrow>
             guardE (checkExportPreflight cfg secret data (ej_TenantID child) holdBinding)
             (if \<not> exportQueueHasCapacity (sn_Exports data) (ej_TenantID child)
              then Inl (Err ErrQuotaExceeded ''export queue capacity exhausted'')
              else if mget (sn_Exports data) (ej_ID child) \<noteq> None then Inl (Err ErrConflict ''export retry identity collision'')
              else
                let fact = (\<lambda>action. exportFact cfg factID now (ej_TenantID child) actor action (ej_ID child) (''retry_of='' @ ej_ID source))
                in Inr (SummarizeExport child,
                     fact ''export.retried'' (fact ''export.created'' (data\<lparr>sn_Exports := mput (sn_Exports data) (ej_ID child) child\<rparr>))))))"

definition RetryExport :: "Config \<Rightarrow> string \<Rightarrow> (string \<Rightarrow> string result) \<Rightarrow> string \<Rightarrow> string \<Rightarrow> time \<Rightarrow> string \<Rightarrow> string \<Rightarrow> string \<Rightarrow> error option
     \<Rightarrow> Snapshot \<Rightarrow> Snapshot \<Rightarrow> Snapshot \<Rightarrow> ExportSummary result \<times> Snapshot" where
  "RetryExport cfg secret get newID factID now tenantID actor jobID queried observed captured data =
     (case exportActionScope tenantID actor jobID of
        Some err \<Rightarrow> (Inl err, data)
      | None \<Rightarrow>
          (case rbind (ownedRetrySource observed tenantID actor jobID) (\<lambda>source.
                  rbind (exportRetrySuccessor observed source) (\<lambda>found. Inr (source, found))) of
             Inl err \<Rightarrow> (Inl err, data)
           | Inr (source, Some summary) \<Rightarrow> (Inr summary, data)
           | Inr (source, None) \<Rightarrow>
               let q = (ej_Query source)\<lparr>qy_Cursor := ''''\<rparr> in
               (case prepareExport cfg secret get factID now tenantID actor q queried captured data of
                  (Inl err, data1) \<Rightarrow> (Inl err, data1)
                | (Inr holdBinding, data1) \<Rightarrow>
                    let child = zeroJob\<lparr>ej_ID := newID, ej_TenantID := tenantID, ej_RequestedBy := actor, ej_Query := q,
                          ej_Status := ''pending'', ej_RetryOf := ej_ID source, ej_CreatedAt := now\<rparr>
                    in case admitRetry cfg secret factID now holdBinding source child actor data1 of
                         Inl err \<Rightarrow> (Inl err, data1)
                       | Inr (summary, data2) \<Rightarrow> (Inr summary, data2))))"

definition CancelExport :: "Config \<Rightarrow> string \<Rightarrow> string \<Rightarrow> time \<Rightarrow> string \<Rightarrow> string \<Rightarrow> string \<Rightarrow> Snapshot \<Rightarrow> (ExportSummary \<times> Snapshot) result" where
  "CancelExport cfg secret factID now tenantID actor jobID data =
     guardE (exportActionScope tenantID actor jobID)
     (rbind (ownedExport data tenantID actor jobID) (\<lambda>job.
       if ej_Status job = ExportStatusCancelled then
         if (case ej_FinishedAt job of None \<Rightarrow> True | Some f \<Rightarrow> f = 0) \<or> ej_ObjectPath job \<noteq> '''' \<or> ej_Digest job \<noteq> '''' \<or> ej_EventCount job \<noteq> 0
         then Inl (Err ErrConflict ''invalid cancelled export'')
         else if executionMetadata data jobID then Inl (Err ErrConflict ''cancelled export still has execution metadata'')
         else Inr (SummarizeExport job, data)
       else if ej_FinishedAt job \<noteq> None \<or> (ej_Status job \<noteq> ''pending'' \<and> ej_Status job \<noteq> ''running'')
       then Inl (Err ErrConflict ''export is not cancellable'')
       else guardE (validExportArtifacts cfg secret data job now)
         (let lease = mget (sn_ExportLeases data) jobID in
          if ej_Status job = ''pending'' \<and> lease \<noteq> None
             \<or> ej_Status job = ''running'' \<and> (case lease of None \<Rightarrow> True | Some l \<Rightarrow> \<not> validExportLease job l)
          then Inl (Err ErrConflict ''export cancellation requires valid execution metadata'')
          else
            let cancelled = job\<lparr>ej_Status := ExportStatusCancelled, ej_FinishedAt := Some now, ej_FailureCode := ExportFailureCancelled,
                  ej_Error := '''', ej_ObjectPath := '''', ej_Digest := '''', ej_EventCount := 0\<rparr>
            in Inr (SummarizeExport cancelled,
                 exportFact cfg factID now tenantID actor ''export.cancelled'' jobID ''status=cancelled''
                   (data\<lparr>sn_Exports := mput (sn_Exports data) jobID cancelled, sn_ExportLeases := mdel (sn_ExportLeases data) jobID,
                         sn_ExportCheckpoints := mdel (sn_ExportCheckpoints data) jobID, sn_ExportPlans := mdel (sn_ExportPlans data) jobID\<rparr>)))))"

subsection \<open>Recovery (export_lease.go, export_recovery.go)\<close>

definition failRecovered :: "Config \<Rightarrow> string \<Rightarrow> time \<Rightarrow> string \<Rightarrow> ExportJob \<Rightarrow> string \<Rightarrow> string \<Rightarrow> string \<Rightarrow> Snapshot \<Rightarrow> Snapshot" where
  "failRecovered cfg factID now jobID job failureCode detail failure data =
     (let failed = job\<lparr>ej_Status := ''failed'', ej_Error := failure, ej_FailureCode := failureCode, ej_FinishedAt := Some now,
            ej_ObjectPath := '''', ej_Digest := '''', ej_EventCount := 0\<rparr>
      in exportFact cfg factID now (ej_TenantID job) ''governance-worker'' ''export.recovered'' jobID detail
           (data\<lparr>sn_Exports := mput (sn_Exports data) jobID failed, sn_ExportLeases := mdel (sn_ExportLeases data) jobID\<rparr>))"

definition recoverJob :: "Config \<Rightarrow> string \<Rightarrow> string \<Rightarrow> time \<Rightarrow> string \<Rightarrow> bool \<Rightarrow> string \<Rightarrow> ExportJob \<Rightarrow> Snapshot \<Rightarrow> (bool \<times> Snapshot) result" where
  "recoverJob cfg secret factID now tenantID includeLegacy jobID job data =
     (if (tenantID \<noteq> '''' \<and> ej_TenantID job \<noteq> tenantID) \<or> ej_Status job \<noteq> ''running'' \<or> ej_FinishedAt job \<noteq> None then Inr (False, data)
      else
        let artifacts = mget (sn_ExportCheckpoints data) jobID \<noteq> None \<or> mget (sn_ExportPlans data) jobID \<noteq> None in
        guardE (validExportArtifacts cfg secret data job now)
        (case mget (sn_ExportLeases data) jobID of
           Some lease \<Rightarrow>
             if ej_ID job \<noteq> jobID \<or> \<not> validExportLease job lease then Inl (Err ErrConflict ''invalid export lease metadata'')
             else if xl_ExpiresAt lease > now \<or> artifacts then Inr (False, data)
             else Inr (True, failRecovered cfg factID now jobID job ExportFailureLease ''lease_expired status=failed''
                    ''export interrupted: execution lease expired; re-request the export'' data)
         | None \<Rightarrow>
             if artifacts then Inl errExportPlanInvalid
             else
               let started = (case ej_StartedAt job of None \<Rightarrow> ej_CreatedAt job | Some s \<Rightarrow> if s = 0 then ej_CreatedAt job else s) in
               if \<not> includeLegacy \<or> \<not> started < now - cf_StuckExportAge cfg then Inr (False, data)
               else Inr (True, failRecovered cfg factID now jobID job ExportFailureLegacy
                      (''stuck_running_since='' @ formatRFC3339 started @ '' status=failed'')
                      (''export interrupted: stuck in running since '' @ formatRFC3339 started @ ''; re-request the export'') data)))"

fun recoverLoop :: "Config \<Rightarrow> string \<Rightarrow> string \<Rightarrow> time \<Rightarrow> string \<Rightarrow> bool \<Rightarrow> (string \<times> ExportJob) list \<Rightarrow> nat \<Rightarrow> Snapshot \<Rightarrow> (nat \<times> Snapshot) result" where
  "recoverLoop cfg secret factID now tenantID includeLegacy [] n data = Inr (n, data)"
| "recoverLoop cfg secret factID now tenantID includeLegacy ((jobID, job) # jobs) n data =
     rbind (recoverJob cfg secret factID now tenantID includeLegacy jobID job data) (\<lambda>(done, data1).
       recoverLoop cfg secret factID now tenantID includeLegacy jobs (if done then Suc n else n) data1)"

definition recoverExportJobs :: "Config \<Rightarrow> string \<Rightarrow> string \<Rightarrow> time \<Rightarrow> string \<Rightarrow> bool \<Rightarrow> Snapshot \<Rightarrow> (nat \<times> Snapshot) result" where
  "recoverExportJobs cfg secret factID now tenantID includeLegacy data =
     recoverLoop cfg secret factID now tenantID includeLegacy (sn_Exports data) 0 data"

definition recoverExpiredExportLeases :: "Config \<Rightarrow> string \<Rightarrow> string \<Rightarrow> time \<Rightarrow> Snapshot \<Rightarrow> (nat \<times> Snapshot) result" where
  "recoverExpiredExportLeases cfg secret factID now = recoverExportJobs cfg secret factID now '''' False"

definition RecoverStuckExports :: "Config \<Rightarrow> string \<Rightarrow> string \<Rightarrow> time \<Rightarrow> string \<Rightarrow> Snapshot \<Rightarrow> (nat \<times> Snapshot) result" where
  "RecoverStuckExports cfg secret factID now tenantID data =
     guardE (requireTenantScope tenantID) (recoverExportJobs cfg secret factID now tenantID True data)"

subsection \<open>The executor's reads (export_plan_execution.go, export_generation_execution.go)\<close>

definition planCandidate :: "Config \<Rightarrow> string \<Rightarrow> string \<Rightarrow> Snapshot \<Rightarrow> ExportPlanMember \<Rightarrow> queryEvidence result" where
  "planCandidate cfg secret tenantID data m =
     (let r = pm_Reference m; key = EventKey tenantID (er_EventID r);
          schemaKey = SchemaKey tenantID (pm_SchemaID m) (pm_SchemaVersion m); schema = mget_or zeroSchema (sn_Schemas data) schemaKey
      in case mget (sn_Receipts data) key of
           None \<Rightarrow> Inl errExportPlanInvalid
         | Some receipt \<Rightarrow>
             if rc_TenantID receipt \<noteq> tenantID \<or> rc_EventID receipt \<noteq> er_EventID r \<or> rc_StreamID receipt \<noteq> er_StreamID r
                \<or> rc_Sequence receipt \<noteq> er_Sequence r \<or> rc_Hash receipt \<noteq> er_Hash r then Inl errExportPlanInvalid
             else if es_TenantID schema \<noteq> tenantID \<or> es_SchemaID schema \<noteq> pm_SchemaID m \<or> es_Version schema \<noteq> pm_SchemaVersion m
                \<or> exportPlanSchemaDigest cfg secret schema \<noteq> pm_SchemaDigest m then Inl errExportPlanInvalid
             else (case mget (sn_Events data) key of
                Some e \<Rightarrow> rbind (CloneEvent e) (\<lambda>cloned. Inr \<lparr>qe_receipt = receipt, qe_event = Some cloned, qe_schemas = [(schemaKey, schema)]\<rparr>)
              | None \<Rightarrow> if rc_Status receipt \<noteq> StatusArchived then Inl (Err ErrNotFound '''')
                        else Inr \<lparr>qe_receipt = receipt, qe_event = None, qe_schemas = [(schemaKey, schema)]\<rparr>))"

fun planCandidates :: "Config \<Rightarrow> string \<Rightarrow> string \<Rightarrow> Snapshot \<Rightarrow> ExportPlanMember list \<Rightarrow> (ExportPlanMember \<times> queryEvidence) list result" where
  "planCandidates cfg secret tenantID data [] = Inr []"
| "planCandidates cfg secret tenantID data (m # ms) =
     rbind (planCandidate cfg secret tenantID data m) (\<lambda>c.
     rbind (planCandidates cfg secret tenantID data ms) (\<lambda>cs. Inr ((m, c) # cs)))"

fun planEvents :: "Config \<Rightarrow> (string \<Rightarrow> string result) \<Rightarrow> (ExportPlanMember \<times> queryEvidence) list \<Rightarrow> Event list result" where
  "planEvents cfg get [] = Inr []"
| "planEvents cfg get ((m, c) # cs) =
     rbind (resolveQueryEvidence cfg get c) (\<lambda>e.
       if ev_SchemaID e \<noteq> pm_SchemaID m \<or> ev_SchemaVersion e \<noteq> pm_SchemaVersion m \<or> ev_OccurredAt e \<noteq> er_OccurredAt (pm_Reference m)
       then Inl errExportPlanInvalid
       else rbind (planEvents cfg get cs) (\<lambda>es. Inr (e # es)))"

definition readExportPlanMembers :: "Config \<Rightarrow> string \<Rightarrow> (string \<Rightarrow> string result) \<Rightarrow> exportClaim \<Rightarrow> ExportPlanMember list \<Rightarrow> Snapshot \<Rightarrow> Event list result" where
  "readExportPlanMembers cfg secret get claim ms data =
     rbind (planCandidates cfg secret (ej_TenantID (ec_Job claim)) data ms) (planEvents cfg get)"

definition readExportPlanEvidence :: "Config \<Rightarrow> string \<Rightarrow> (string \<Rightarrow> string result) \<Rightarrow> exportClaim \<Rightarrow> Snapshot \<Rightarrow> Event list result" where
  "readExportPlanEvidence cfg secret get claim data = readExportPlanMembers cfg secret get claim (xp_Members (ec_Plan claim)) data"

text \<open>
  One pass over the evidence of a claim. With a plan, its members are read again and the gate is asked
  again; without one, the selection becomes a plan. \<open>EvidenceReady\<close> carries the events and the plan to
  save when there was none, \<open>EvidenceDeferred\<close> leaves the job to a later claim, the other two are the
  terminal writes. The read facts of the executor go to the trail of theory \<open>Admin\<close> and are left out.
\<close>

datatype exportEvidence =
    EvidenceReady "Event list" "ExportPlan option"
  | EvidenceDeferred
  | EvidenceFailed error
  | EvidenceBlocked LegalHold

definition exportExecutionEvidence :: "Config \<Rightarrow> string \<Rightarrow> (string \<Rightarrow> string result) \<Rightarrow> time \<Rightarrow> exportClaim \<Rightarrow> Snapshot \<Rightarrow> Snapshot \<Rightarrow> exportEvidence" where
  "exportExecutionEvidence cfg secret get now claim data later =
     (if xp_Version (ec_Plan claim) = 2 then EvidenceReady [] None
      else if xp_Version (ec_Plan claim) \<noteq> 0 then
        (case rbind (guardE (checkExportPlan cfg secret now claim data) (readExportPlanEvidence cfg secret get claim data)) (\<lambda>events.
                rbind (holdBlockingExportEvidence cfg get data (ec_Job claim)) (\<lambda>blocked. Inr (events, blocked))) of
           Inl err \<Rightarrow> EvidenceDeferred
         | Inr (events, Some hold) \<Rightarrow> EvidenceBlocked hold
         | Inr (events, None) \<Rightarrow>
             (case checkExportPlan cfg secret now claim later of Some err \<Rightarrow> EvidenceDeferred | None \<Rightarrow> EvidenceReady events None))
      else
        (case selectExportEvidenceSnapshot cfg get data (ec_Job claim) of
           Inl err \<Rightarrow> EvidenceFailed err
         | Inr (events, Some hold) \<Rightarrow> EvidenceBlocked hold
         | Inr (events, None) \<Rightarrow>
             (case newExportPlan cfg secret now (ec_Job claim) events (sn_Schemas data) of
                Inl err \<Rightarrow> EvidenceFailed err
              | Inr plan \<Rightarrow> EvidenceReady (if xp_Version plan = 2 then [] else events) (Some plan))))"

definition newExportChunk :: "Config \<Rightarrow> string \<Rightarrow> time \<Rightarrow> exportClaim \<Rightarrow> ExportPlanChunk" where
  "newExportChunk cfg secret now claim =
     (let plan = ec_Plan claim; first = exportGeneratedMembers plan;
          n = min (int ExportGenerationPageEvents) (int (length (xp_Members plan)) - first)
      in \<lparr>pc_SealVersion = 2, pc_First = first, pc_Count = n,
          pc_ObjectPath = ''export-chunks/'' @ exportGenerationID cfg secret plan @ ''/'' @ padInt 4 (int (length (xp_Chunks plan))) @ ''-''
            @ take 32 (HashBytes (ec_Owner claim)) @ ''.bin'',
          pc_SealedDigest = '''', pc_Digest = '''', pc_CreatedAt = now\<rparr>)"

text \<open>
  The page of the next members: its bytes, its sealed object, the chunk that refers to them and the
  binding of the holds the gate saw. The members, the gate and the check before the object is written
  may each see a different snapshot.
\<close>

datatype exportPage =
    PageReady string string ExportPlanChunk string
  | PageDeferred error
  | PageBlocked LegalHold

definition pageBytes :: "Config \<Rightarrow> string \<Rightarrow> (string \<Rightarrow> string result) \<Rightarrow> time \<Rightarrow> exportClaim \<Rightarrow> Snapshot \<Rightarrow> (Event list \<times> ExportPlanChunk) result" where
  "pageBytes cfg secret get now claim data =
     (let chunk = newExportChunk cfg secret now claim; plan = ec_Plan claim in
      guardE (checkExportPlan cfg secret now claim data)
      (if xp_Version plan \<noteq> 2 \<or> pc_Count chunk \<le> 0 then Inl errExportPlanInvalid
       else rbind (readExportPlanMembers cfg secret get claim
                    (take (nat (pc_Count chunk)) (drop (nat (pc_First chunk)) (xp_Members plan))) data) (\<lambda>events. Inr (events, chunk))))"

definition generateExportPage :: "Config \<Rightarrow> string \<Rightarrow> (string \<Rightarrow> string result) \<Rightarrow> bytes \<Rightarrow> time \<Rightarrow> exportClaim \<Rightarrow> Snapshot \<Rightarrow> Snapshot \<Rightarrow> Snapshot
     \<Rightarrow> exportPage" where
  "generateExportPage cfg secret get nonce now claim data captured later =
     (case pageBytes cfg secret get now claim data of
        Inl err \<Rightarrow> PageDeferred err
      | Inr (events, chunk) \<Rightarrow>
          (case holdBlockingExportEvidence cfg get captured (ec_Job claim) of
             Inl err \<Rightarrow> PageDeferred err
           | Inr (Some hold) \<Rightarrow> PageBlocked hold
           | Inr None \<Rightarrow>
               let binding = exportHoldBinding cfg secret captured (ej_TenantID (ec_Job claim)); plan = ec_Plan claim in
               (case encodeExportEvents cfg events of
                  Inl err \<Rightarrow> PageDeferred err
                | Inr plain \<Rightarrow>
                    let sealed = bytes_string (EncryptBytesBound (cf_Aead cfg) nonce (string_bytes plain) (cf_EncryptionKey cfg)
                                   (exportChunkBinding cfg secret plan (length (xp_Chunks plan)) chunk))
                    in case checkExportGenerationAccess cfg secret now (claim\<lparr>ec_HoldBinding := binding\<rparr>) later of
                         Some err \<Rightarrow> PageDeferred err
                       | None \<Rightarrow> PageReady plain sealed (chunk\<lparr>pc_SealedDigest := HashBytes sealed, pc_Digest := HashBytes plain\<rparr>) binding)))"

subsection \<open>Completion (export_checkpoint_finalize.go)\<close>

text \<open>
  The stage after the sealed object is stored: lease, object, its authentication and its references, the
  hold gate on a captured snapshot, the read fact, and the terminal write bound to the holds the gate
  saw. Each read may see a different snapshot.
\<close>

definition finalizeExportCheckpoint :: "Config \<Rightarrow> string \<Rightarrow> (string \<Rightarrow> string result) \<Rightarrow> (string \<Rightarrow> exportIdentity result) \<Rightarrow> string \<Rightarrow> time
     \<Rightarrow> exportClaim \<Rightarrow> string option \<Rightarrow> Snapshot \<Rightarrow> Snapshot \<Rightarrow> Snapshot \<Rightarrow> Snapshot \<Rightarrow> (bool \<times> Snapshot) result" where
  "finalizeExportCheckpoint cfg secret get identity factID now claim given leased referenced captured data =
     (let jobID = ej_ID (ec_Job claim); tenantID = ej_TenantID (ec_Job claim); cp = ec_Checkpoint claim;
          reject = rejectExportCheckpoint cfg secret factID now claim data
      in case checkExportLease now claim leased of
           Some err \<Rightarrow> Inl err
         | None \<Rightarrow>
             rbind (case given of Some sealed \<Rightarrow> Inr sealed | None \<Rightarrow> get (xc_ObjectPath cp)) (\<lambda>sealed.
               case authenticateExportCheckpoint cfg identity claim sealed of
                 Inl err \<Rightarrow> reject
               | Inr refs \<Rightarrow>
                   (case verifyQueryReferences referenced tenantID refs of
                      Some err \<Rightarrow>
                        if errors_is err ErrConflict \<or> errors_is err ErrNotFound \<or> errors_is err ErrQuotaExceeded then reject else Inl err
                    | None \<Rightarrow>
                        rbind (holdBlockingExportEvidence cfg get captured (ec_Job claim)) (\<lambda>blocked.
                          case blocked of
                            Some hold \<Rightarrow> failExportBlocked cfg secret factID now claim jobID hold data
                          | None \<Rightarrow>
                              finishExport cfg secret factID now
                                (claim\<lparr>ec_HoldBinding := exportHoldBinding cfg secret captured tenantID\<rparr>) jobID ''completed''
                                (xc_ObjectPath cp) (xc_Digest cp) (xc_EventCount cp) '''' data))))"

subsection \<open>Access to a job (export_access.go, export.go, export_read.go)\<close>

record exportAccess =
  xa_Job :: ExportJob
  xa_Hold :: "LegalHold option"
  xa_HoldBinding :: string

definition exportAccessJob :: "Snapshot \<Rightarrow> string \<Rightarrow> string \<Rightarrow> ExportJob result" where
  "exportAccessJob data tenantID jobID =
     (case mget (sn_Exports data) jobID of
        None \<Rightarrow> Inl (Err ErrNotFound '''')
      | Some job \<Rightarrow>
          if ej_TenantID job \<noteq> tenantID then Inl (Err ErrNotFound '''')
          else if ej_ID job \<noteq> jobID then Inl (Err ErrConflict ''invalid export identity'') else Inr job)"

definition captureExportAccess :: "Config \<Rightarrow> string \<Rightarrow> (string \<Rightarrow> string result) \<Rightarrow> string \<Rightarrow> string \<Rightarrow> Snapshot \<Rightarrow> exportAccess result" where
  "captureExportAccess cfg secret get tenantID jobID data =
     rbind (exportAccessJob data tenantID jobID) (\<lambda>job.
     rbind (holdBlockingExportEvidence cfg get data job) (\<lambda>blocked.
       Inr \<lparr>xa_Job = job, xa_Hold = blocked, xa_HoldBinding = exportHoldBinding cfg secret data tenantID\<rparr>))"

definition revalidateExportAccess :: "Config \<Rightarrow> string \<Rightarrow> exportAccess \<Rightarrow> bool \<Rightarrow> Snapshot \<Rightarrow> ExportJob result" where
  "revalidateExportAccess cfg secret access exact data =
     (let original = xa_Job access in
      rbind (exportAccessJob data (ej_TenantID original) (ej_ID original)) (\<lambda>job.
        if ej_RequestedBy job \<noteq> ej_RequestedBy original \<or> ej_RetryOf job \<noteq> ej_RetryOf original \<or> ej_CreatedAt job \<noteq> ej_CreatedAt original
           \<or> ej_Query job \<noteq> ej_Query original
           \<or> ej_Status original = ''running'' \<and> ej_Status job = ''pending''
           \<or> (exact \<or> ej_Status original \<noteq> ''pending'' \<and> ej_Status original \<noteq> ''running'') \<and> job \<noteq> original
           \<or> exportHoldBinding cfg secret data (ej_TenantID job) \<noteq> xa_HoldBinding access
        then Inl (Err ErrConflict ''export access changed during verification; refresh before retrying'')
        else Inr job))"

definition GetExport :: "Config \<Rightarrow> string \<Rightarrow> (string \<Rightarrow> string result) \<Rightarrow> string \<Rightarrow> string \<Rightarrow> Snapshot \<Rightarrow> Snapshot \<Rightarrow> ExportJob result" where
  "GetExport cfg secret get tenantID jobID captured data =
     guardE (requireTenantScope tenantID)
     (rbind (captureExportAccess cfg secret get tenantID jobID captured) (\<lambda>access.
        case xa_Hold access of
          Some hold \<Rightarrow> Inl (exportBlockedError (lh_ID hold))
        | None \<Rightarrow> revalidateExportAccess cfg secret access False data))"

definition RecordExportDownload :: "Config \<Rightarrow> string \<Rightarrow> (string \<Rightarrow> string result) \<Rightarrow> string \<Rightarrow> time \<Rightarrow> string \<Rightarrow> string \<Rightarrow> string
     \<Rightarrow> Snapshot \<Rightarrow> Snapshot \<Rightarrow> Snapshot \<Rightarrow> AdminAction list \<Rightarrow> error option \<times> AdminAction list" where
  "RecordExportDownload cfg secret get factID now tenantID actor jobID captured before data trail =
     (case firstErr [requireTenantScope tenantID, if jobID = '''' then Some (Err ErrInvalid ''job id is required'') else None] of
        Some err \<Rightarrow> (Some err, trail)
      | None \<Rightarrow>
          (case captureExportAccess cfg secret get tenantID jobID captured of
             Inl err \<Rightarrow> (Some err, trail)
           | Inr access \<Rightarrow>
               (case xa_Hold access of
                  Some hold \<Rightarrow>
                    (Some (exportBlockedError (lh_ID hold)),
                     recordReadAction cfg factID now tenantID actor ''export.blocked'' ''legal_hold'' (lh_ID hold)
                       (''export_blocked reason='' @ lh_Reason hold) trail)
                | None \<Rightarrow>
                    (case revalidateExportAccess cfg secret access True before of
                       Inl err \<Rightarrow> (Some err, trail)
                     | Inr _ \<Rightarrow>
                         ((case revalidateExportAccess cfg secret access True data of Inl err \<Rightarrow> Some err | Inr _ \<Rightarrow> None),
                          recordReadAction cfg factID now tenantID actor ''audit.event.export'' ''export'' jobID ''download'' trail)))))"

definition ReadExportObject :: "Config \<Rightarrow> (string \<Rightarrow> string result) \<Rightarrow> string \<Rightarrow> string \<Rightarrow> Snapshot \<Rightarrow> string result" where
  "ReadExportObject cfg get tenantID jobID data =
     guardE (requireTenantScope tenantID)
     (if \<not> cf_ArchiveConfigured cfg then Inl (Err ErrOther ''archive is not configured'')
      else case mget (sn_Exports data) jobID of
        None \<Rightarrow> Inl (Err ErrNotFound '''')
      | Some job \<Rightarrow>
          if ej_TenantID job \<noteq> tenantID then Inl (Err ErrNotFound '''')
          else if ej_Status job \<noteq> ''completed'' \<or> ej_ObjectPath job = '''' then Inl (Err ErrConflict ''export is not completed'')
          else (case get (ej_ObjectPath job) of
                  Inl err \<Rightarrow> if errors_is err ErrNotFound then Inl (Err ErrNotFound ''export object is missing'') else Inl err
                | Inr sealed \<Rightarrow> Inr sealed))"

definition VerifyExportDownload :: "Config \<Rightarrow> string \<Rightarrow> time \<Rightarrow> string \<Rightarrow> string \<Rightarrow> string \<Rightarrow> Snapshot \<Rightarrow> AdminAction list
     \<Rightarrow> string result \<times> AdminAction list" where
  "VerifyExportDownload cfg factID now tenantID jobID sealed data trail =
     (let rejected = appendMemoryFact (cf_MaxAdminTrailActions cfg)
            (adminAction factID now tenantID '''' ''export.download_rejected'' ''export'' jobID ''download_verification_failed'') trail
      in case requireTenantScope tenantID of
           Some err \<Rightarrow> (Inl err, trail)
         | None \<Rightarrow>
             (case mget (sn_Exports data) jobID of
                None \<Rightarrow> (Inl (Err ErrNotFound ''''), trail)
              | Some job \<Rightarrow>
                  if ej_TenantID job \<noteq> tenantID then (Inl (Err ErrNotFound ''''), trail)
                  else if ej_Status job \<noteq> ''completed'' \<or> ej_ObjectPath job = ''''
                  then (Inl (Err ErrConflict ''export is not completed''), trail)
                  else (case DecryptExport (cf_Aead cfg) (string_bytes sealed) (cf_EncryptionKey cfg)
                                (string_bytes (ExportBinding (ej_TenantID job) (ej_ID job))) of
                          Inl err \<Rightarrow> (Inl err, rejected)
                        | Inr bs \<Rightarrow>
                            if \<not> exportDigestPattern (ej_Digest job)
                            then (Inl (Err ErrOther ''stored digest is empty or malformed''), rejected)
                            else if HashBytes (bytes_string bs) \<noteq> ej_Digest job
                            then (Inl (Err ErrOther ''decrypted content digest mismatch''), rejected)
                            else (Inr (bytes_string bs), trail))))"

definition ResumePendingExports :: "Config \<Rightarrow> string \<Rightarrow> time \<Rightarrow> string \<Rightarrow> Snapshot \<Rightarrow> nat result" where
  "ResumePendingExports cfg secret now tenantID data =
     guardE (requireTenantScope tenantID)
     (let own = filter (\<lambda>(id, job). ej_TenantID job = tenantID) (sn_Exports data);
          resumable = filter (\<lambda>(id, job). ej_Status job = ''running''
            \<and> (mget (sn_ExportCheckpoints data) id \<noteq> None \<or> mget (sn_ExportPlans data) id \<noteq> None)) own;
          lease = (\<lambda>id. mget_or zeroLease (sn_ExportLeases data) id)
      in case firstErr (map (\<lambda>(id, job).
              if ej_ID job \<noteq> id \<or> \<not> validExportLease job (lease id) then Some errExportPlanInvalid
              else validExportArtifacts cfg secret data job now) resumable) of
           Some err \<Rightarrow> Inl err
         | None \<Rightarrow> Inr (length (filter (\<lambda>(id, job). ej_Status job = ''pending'') own)
                        + length (filter (\<lambda>(id, job). \<not> xl_ExpiresAt (lease id) > now) resumable)))"

end
