(* ===== verification/Spec2Isabelle.thy ===== *)
theory Spec2Isabelle
  imports Keys Sha256 Numbers Canonical Readback Domain Store Merkle Crypto Archive Evidence Admin Publication Ingest Sealing Integrity Chain Assurance Attestation Retrieval Exports
begin

text \<open>Root.\<close>

end
